(* ===== verification/GoPrelude.thy ===== *)
theory GoPrelude
  imports Main "HOL-Library.Sublist" "HOL-Library.Char_ord"
begin

text \<open>
  Shared vocabulary of the development.

  A Go \<^verbatim>\<open>string\<close> or \<^verbatim>\<open>[]byte\<close> is a list of bytes, here \<open>char list\<close> (an Isabelle
  \<open>char\<close> is one byte).  The functions of the Go standard library the code relies on for
  string clean-up are written out on bytes: \<open>trim_space\<close> is \<^verbatim>\<open>strings.TrimSpace\<close> with the UTF-8
  encodings of every Unicode white-space rune, \<open>to_lower\<close> and \<open>to_upper\<close> fold ASCII letters
  (every string the code compares a folded value with is ASCII; a non-ASCII letter is left
  alone), \<open>equal_fold\<close> compares under that folding.

  A fallible operation returns \<open>'e + 'a\<close> with \<open>Inl\<close> for the error.  A Go map is a function
  to \<open>option\<close>.  The collections \<open>trim_simps\<close> and \<open>fold_simps\<close> carry the string lemmas.
\<close>

named_theorems trim_simps
named_theorems fold_simps

section \<open>Bytes\<close>

definition in_range :: "char \<Rightarrow> char \<Rightarrow> char \<Rightarrow> bool" where
  "in_range lo hi c \<longleftrightarrow> (of_char lo :: nat) \<le> of_char c \<and> (of_char c :: nat) \<le> of_char hi"

definition is_upper_byte :: "char \<Rightarrow> bool" where
  "is_upper_byte c \<longleftrightarrow> in_range CHR ''A'' CHR ''Z'' c"

definition is_lower_byte :: "char \<Rightarrow> bool" where
  "is_lower_byte c \<longleftrightarrow> in_range CHR ''a'' CHR ''z'' c"

definition is_digit_byte :: "char \<Rightarrow> bool" where
  "is_digit_byte c \<longleftrightarrow> in_range CHR ''0'' CHR ''9'' c"

definition lower_byte :: "char \<Rightarrow> char" where
  "lower_byte c = (if is_upper_byte c then char_of ((of_char c :: nat) + 32) else c)"

definition upper_byte :: "char \<Rightarrow> char" where
  "upper_byte c = (if is_lower_byte c then char_of ((of_char c :: nat) - 32) else c)"

definition to_lower :: "string \<Rightarrow> string" where
  "to_lower s = map lower_byte s"

definition to_upper :: "string \<Rightarrow> string" where
  "to_upper s = map upper_byte s"

definition equal_fold :: "string \<Rightarrow> string \<Rightarrow> bool" where
  "equal_fold s t \<longleftrightarrow> to_lower s = to_lower t"

lemma of_char_of_small: "n < 256 \<Longrightarrow> of_char (char_of (n :: nat)) = n"
  by simp

lemma not_upper_lower_byte: "\<not> is_upper_byte (lower_byte c)"
  by (auto simp: lower_byte_def is_upper_byte_def in_range_def)

lemma not_lower_upper_byte: "\<not> is_lower_byte (upper_byte c)"
proof (cases "is_lower_byte c")
  case True
  then have "(of_char c :: nat) \<le> 122" by (simp add: is_lower_byte_def in_range_def)
  with True show ?thesis by (simp add: upper_byte_def is_lower_byte_def in_range_def)
next
  case False
  then show ?thesis by (simp add: upper_byte_def)
qed

lemma lower_byte_idem [simp, fold_simps]: "lower_byte (lower_byte c) = lower_byte c"
  using not_upper_lower_byte [of c] by (simp add: lower_byte_def)

lemma upper_byte_idem [simp, fold_simps]: "upper_byte (upper_byte c) = upper_byte c"
  using not_lower_upper_byte [of c] by (simp add: upper_byte_def)

lemma to_lower_idem [simp, fold_simps]: "to_lower (to_lower s) = to_lower s"
  by (simp add: to_lower_def)

lemma to_upper_idem [simp, fold_simps]: "to_upper (to_upper s) = to_upper s"
  by (simp add: to_upper_def)

lemma to_lower_Nil_iff [simp]: "to_lower s = [] \<longleftrightarrow> s = []"
  by (simp add: to_lower_def)

lemma length_to_lower [simp]: "length (to_lower s) = length s"
  by (simp add: to_lower_def)

lemma length_to_upper [simp]: "length (to_upper s) = length s"
  by (simp add: to_upper_def)

lemma equal_fold_refl [simp]: "equal_fold s s"
  by (simp add: equal_fold_def)

lemma equal_fold_sym: "equal_fold s t \<longleftrightarrow> equal_fold t s"
  by (auto simp: equal_fold_def)

lemma equal_fold_trans: "equal_fold s t \<Longrightarrow> equal_fold t u \<Longrightarrow> equal_fold s u"
  by (simp add: equal_fold_def)

section \<open>White space\<close>

text \<open>The UTF-8 encodings of the runes \<^verbatim>\<open>unicode.IsSpace\<close> accepts.\<close>

definition space_runes :: "string list" where
  "space_runes =
     [[CHR 0x09], [CHR 0x0A], [CHR 0x0B], [CHR 0x0C], [CHR 0x0D], [CHR 0x20],
      [CHR 0xC2, CHR 0x85], [CHR 0xC2, CHR 0xA0], [CHR 0xE1, CHR 0x9A, CHR 0x80]]
     @ map (\<lambda>n. [CHR 0xE2, CHR 0x80, char_of (n :: nat)]) [0x80 ..< 0x8B]
     @ [[CHR 0xE2, CHR 0x80, CHR 0xA8], [CHR 0xE2, CHR 0x80, CHR 0xA9],
        [CHR 0xE2, CHR 0x80, CHR 0xAF], [CHR 0xE2, CHR 0x81, CHR 0x9F],
        [CHR 0xE3, CHR 0x80, CHR 0x80]]"

lemma Nil_notin_space_runes: "[] \<notin> set space_runes"
  by (auto simp: space_runes_def)

text \<open>\<open>strip ps s\<close> drops prefixes of \<open>s\<close> that are members of \<open>ps\<close>, as long as there is one.\<close>

function strip :: "string list \<Rightarrow> string \<Rightarrow> string" where
  "strip ps s =
     (case find (\<lambda>p. p \<noteq> [] \<and> prefix p s) ps of
        None \<Rightarrow> s
      | Some p \<Rightarrow> strip ps (drop (length p) s))"
  by pat_completeness auto
termination
proof (relation "measure (\<lambda>(ps, s). length s)")
  show "wf (measure (\<lambda>(ps, s). length s))" by simp
next
  fix ps s p
  assume "find (\<lambda>p. p \<noteq> [] \<and> prefix p s) ps = Some p"
  then have "p \<noteq> []" "prefix p s" by (auto simp: find_Some_iff)
  then show "((ps, drop (length p) s), ps, s) \<in> measure (\<lambda>(ps, s). length s)"
    by (cases s) auto
qed

declare strip.simps [simp del]

definition trim_left :: "string \<Rightarrow> string" where
  "trim_left s = strip space_runes s"

definition trim_right :: "string \<Rightarrow> string" where
  "trim_right s = rev (strip (map rev space_runes) (rev s))"

definition trim_space :: "string \<Rightarrow> string" where
  "trim_space s = trim_right (trim_left s)"

lemma strip_fixed_iff: "strip ps s = s \<longleftrightarrow> (\<forall>p\<in>set ps. p \<noteq> [] \<longrightarrow> \<not> prefix p s)"
proof (cases "find (\<lambda>p. p \<noteq> [] \<and> prefix p s) ps")
  case None
  then have "strip ps s = s" by (simp add: strip.simps [of ps s])
  with None show ?thesis by (auto simp: find_None_iff)
next
  case (Some p)
  then have p: "p \<in> set ps" "p \<noteq> []" "prefix p s"
    by (auto simp: find_Some_iff)
  have le: "length (strip ps t) \<le> length t" for t
  proof (induction ps t rule: strip.induct)
    case (1 ps s)
    then show ?case
      by (subst strip.simps) (auto split: option.splits intro: le_trans)
  qed
  have "length (strip ps (drop (length p) s)) < length s"
  proof -
    have "0 < length p" "length p \<le> length s"
      using p prefix_length_le by auto
    with le [of "drop (length p) s"] show ?thesis unfolding length_drop by linarith
  qed
  with Some have "strip ps s \<noteq> s" by (subst strip.simps) auto
  with p show ?thesis by auto
qed

lemma strip_stripped: "strip ps (strip ps s) = strip ps s"
proof (induction ps s rule: strip.induct)
  case (1 ps s)
  show ?case
  proof (cases "find (\<lambda>p. p \<noteq> [] \<and> prefix p s) ps")
    case None
    then have "strip ps s = s" by (simp add: strip.simps [of ps s])
    then show ?thesis by simp
  next
    case (Some p)
    with "1.IH" have "strip ps (strip ps (drop (length p) s)) = strip ps (drop (length p) s)"
      by blast
    with Some show ?thesis by (simp add: strip.simps [of ps s])
  qed
qed

lemma strip_suffix: "suffix (strip ps s) s"
proof (induction ps s rule: strip.induct)
  case (1 ps s)
  show ?case
  proof (cases "find (\<lambda>p. p \<noteq> [] \<and> prefix p s) ps")
    case None
    then show ?thesis by (simp add: strip.simps [of ps s])
  next
    case (Some p)
    with "1.IH" have "suffix (strip ps (drop (length p) s)) (drop (length p) s)" by blast
    then have "suffix (strip ps (drop (length p) s)) s"
      using suffix_drop suffix_order.trans by blast
    with Some show ?thesis by (simp add: strip.simps [of ps s])
  qed
qed

lemma trim_left_idem [simp, trim_simps]: "trim_left (trim_left s) = trim_left s"
  by (simp add: trim_left_def strip_stripped)

lemma trim_right_idem [simp, trim_simps]: "trim_right (trim_right s) = trim_right s"
  by (simp add: trim_right_def strip_stripped)

lemma trim_right_prefix: "prefix (trim_right s) s"
proof -
  have "suffix (strip (map rev space_runes) (rev s)) (rev s)" by (rule strip_suffix)
  then show ?thesis by (simp add: trim_right_def suffix_to_prefix)
qed

lemma trim_left_trim_right:
  assumes "trim_left s = s"
  shows "trim_left (trim_right s) = trim_right s"
proof -
  have "\<not> prefix p s" if "p \<in> set space_runes" "p \<noteq> []" for p
    using assms that by (auto simp: trim_left_def strip_fixed_iff)
  then have "\<not> prefix p (trim_right s)" if "p \<in> set space_runes" "p \<noteq> []" for p
    using that trim_right_prefix [of s] prefix_order.trans by blast
  then show ?thesis by (auto simp: trim_left_def strip_fixed_iff)
qed

lemma trim_space_idem [simp, trim_simps]: "trim_space (trim_space s) = trim_space s"
  by (simp add: trim_space_def trim_left_trim_right)

lemma trim_space_Nil [simp, trim_simps]: "trim_space [] = []"
proof -
  have "strip ps [] = []" for ps
    by (simp add: strip_fixed_iff)
  then show ?thesis by (simp add: trim_space_def trim_left_def trim_right_def)
qed

lemma length_trim_space: "length (trim_space s) \<le> length s"
proof -
  have "length (trim_right (trim_left s)) \<le> length (trim_left s)"
    using trim_right_prefix prefix_length_le by blast
  also have "\<dots> \<le> length s"
    unfolding trim_left_def using strip_suffix suffix_length_le by blast
  finally show ?thesis by (simp add: trim_space_def)
qed

section \<open>Results\<close>

definition is_ok :: "'e + 'a \<Rightarrow> bool" where
  "is_ok r \<longleftrightarrow> (case r of Inl _ \<Rightarrow> False | Inr _ \<Rightarrow> True)"

lemma is_ok_simps [simp]: "is_ok (Inr x)" "\<not> is_ok (Inl e)"
  by (simp_all add: is_ok_def)

lemma is_okE: "is_ok r \<Longrightarrow> (\<And>x. r = Inr x \<Longrightarrow> P) \<Longrightarrow> P"
  by (cases r) auto

text \<open>\<open>bind_res\<close> is the \<^verbatim>\<open>if err != nil { return err }\<close> after a call.\<close>

definition bind_res :: "'e + 'a \<Rightarrow> ('a \<Rightarrow> 'e + 'b) \<Rightarrow> 'e + 'b" where
  "bind_res r f = (case r of Inl e \<Rightarrow> Inl e | Inr x \<Rightarrow> f x)"

lemma bind_res_simps [simp]:
  "bind_res (Inl e) f = Inl e" "bind_res (Inr x) f = f x"
  by (simp_all add: bind_res_def)

lemma bind_res_Inr_iff: "bind_res r f = Inr y \<longleftrightarrow> (\<exists>x. r = Inr x \<and> f x = Inr y)"
  by (cases r) auto

lemma bind_res_Inl_iff:
  "bind_res r f = Inl e \<longleftrightarrow> r = Inl e \<or> (\<exists>x. r = Inr x \<and> f x = Inl e)"
  by (cases r) auto

lemma bind_res_cong [fundef_cong]:
  "r = r' \<Longrightarrow> (\<And>x. r' = Inr x \<Longrightarrow> f x = g x) \<Longrightarrow> bind_res r f = bind_res r' g"
  by (cases r') auto

section \<open>Decimal numbers\<close>

text \<open>\<^verbatim>\<open>strconv.Itoa\<close> on a natural number.\<close>

fun nat_digits :: "nat \<Rightarrow> string" where
  "nat_digits n =
     (if n < 10 then [char_of (48 + n)] else nat_digits (n div 10) @ [char_of (48 + n mod 10)])"

declare nat_digits.simps [simp del]

lemma nat_digits_nonempty [simp]: "nat_digits n \<noteq> []"
  by (subst nat_digits.simps) simp

definition digit_value :: "char \<Rightarrow> nat" where
  "digit_value c = of_char c - 48"

definition parse_digits :: "string \<Rightarrow> nat" where
  "parse_digits s = foldl (\<lambda>n c. 10 * n + digit_value c) 0 s"

lemma parse_digits_nat_digits [simp]: "parse_digits (nat_digits n) = n"
proof (induction n rule: nat_digits.induct)
  case (1 n)
  show ?case
  proof (cases "n < 10")
    case True
    then show ?thesis
      by (subst nat_digits.simps) (simp add: parse_digits_def digit_value_def)
  next
    case False
    have m: "digit_value (char_of (48 + n mod 10)) = n mod 10"
    proof -
      have "48 + n mod 10 < 256" by (rule less_trans [of _ 58]) auto
      then show ?thesis by (simp add: digit_value_def)
    qed
    from False "1.IH" have "parse_digits (nat_digits (n div 10)) = n div 10" by simp
    with False m show ?thesis
      by (subst nat_digits.simps) (simp add: parse_digits_def)
  qed
qed

lemma nat_digits_inj: "nat_digits m = nat_digits n \<longleftrightarrow> m = n"
  using parse_digits_nat_digits by metis

end
