(* ===== verification/Varint.thy ===== *)
theory Varint
  imports GoPrelude "HOL-Library.Word"
begin

text \<open>
  Variable-length integers.  The repository has the reader twice: \<^verbatim>\<open>pmtilesVarint\<close> in
  \<^verbatim>\<open>internal/importer/pmtiles.go\<close> (PMTiles directories) and \<^verbatim>\<open>readMVTVarint\<close> in \<^verbatim>\<open>map_tiles.go\<close>
  (protobuf vector tiles).  Both read a buffer at a position and return a 64-bit value with the
  new position; the value is kept as a \<open>64 word\<close>, so the bits of a tenth byte that do not fit
  are dropped as the Go shift drops them.  \<open>encode_varint\<close> is the reference encoder.

  The locale \<open>varint_reader\<close> is the interface the two file readers rely on: a reader that
  decodes what the encoder wrote and never runs past the buffer.  Both Go readers are
  interpretations of it.
\<close>

unbundle bit_operations_syntax

type_synonym u8 = "8 word"
type_synonym u32 = "32 word"
type_synonym u64 = "64 word"
type_synonym bytes = "u8 list"

section \<open>The readers\<close>

text \<open>\<^verbatim>\<open>value |= uint64(b\&0x7f) << shift\<close>\<close>

definition add_group :: "u64 \<Rightarrow> nat \<Rightarrow> u8 \<Rightarrow> u64" where
  "add_group acc shift b = acc OR push_bit shift (ucast (b AND 0x7F))"

text \<open>\<open>None\<close> is the error \<^verbatim>\<open>invalid PMTiles varint\<close>.\<close>

function pmtiles_varint_loop :: "bytes \<Rightarrow> nat \<Rightarrow> nat \<Rightarrow> u64 \<Rightarrow> (u64 \<times> nat) option" where
  "pmtiles_varint_loop data pos shift acc =
     (if pos \<ge> length data \<or> shift \<ge> 64 then None
      else if (data ! pos) AND 0x80 = 0 then Some (add_group acc shift (data ! pos), Suc pos)
      else pmtiles_varint_loop data (Suc pos) (shift + 7) (add_group acc shift (data ! pos)))"
  by pat_completeness auto
termination
  by (relation "measure (\<lambda>(data, pos, shift, acc). 64 - shift)") auto

definition pmtiles_varint :: "bytes \<Rightarrow> nat \<Rightarrow> (u64 \<times> nat) option" where
  "pmtiles_varint data pos = pmtiles_varint_loop data pos 0 0"

text \<open>\<open>None\<close> is the \<^verbatim>\<open>false\<close> of \<^verbatim>\<open>readMVTVarint\<close>; its callers stop there.\<close>

function mvt_varint_loop :: "bytes \<Rightarrow> nat \<Rightarrow> nat \<Rightarrow> u64 \<Rightarrow> (u64 \<times> nat) option" where
  "mvt_varint_loop data pos shift acc =
     (if shift < 64 then
        (if pos \<ge> length data then None
         else if (data ! pos) AND 0x80 = 0
         then Some (add_group acc shift (data ! pos), Suc pos)
         else mvt_varint_loop data (Suc pos) (shift + 7) (add_group acc shift (data ! pos)))
      else None)"
  by pat_completeness auto
termination
  by (relation "measure (\<lambda>(data, pos, shift, acc). 64 - shift)") auto

definition read_mvt_varint :: "bytes \<Rightarrow> nat \<Rightarrow> (u64 \<times> nat) option" where
  "read_mvt_varint data pos = mvt_varint_loop data pos 0 0"

declare pmtiles_varint_loop.simps [simp del] mvt_varint_loop.simps [simp del]

section \<open>The reference encoder\<close>

fun encode_varint :: "nat \<Rightarrow> bytes" where
  "encode_varint n =
     (if n < 128 then [word_of_nat n]
      else word_of_nat (128 + n mod 128) # encode_varint (n div 128))"

declare encode_varint.simps [simp del]

lemma encode_varint_nonempty [simp]: "encode_varint n \<noteq> []"
  by (subst encode_varint.simps) simp

lemma encode_varint_length_pos: "0 < length (encode_varint n)"
  by simp

section \<open>Groups of seven bits\<close>

lemma high_bit_clear_iff: "(b :: u8) AND 0x80 = 0 \<longleftrightarrow> unat b < 128"
proof -
  have "(b :: u8) AND 2 ^ 7 = 0 \<longleftrightarrow> \<not> bit b 7"
    by (rule and_exp_eq_0_iff_not_bit)
  moreover have "bit b 7 \<longleftrightarrow> odd (unat b div 2 ^ 7)"
    using bit_unsigned_iff [of b 7, where ?'a = nat] bit_iff_odd [of "unat b" 7] by simp
  moreover have "unat b div 2 ^ 7 < 2"
    using unsigned_less [of b, where ?'a = nat] by simp
  then have "odd (unat b div 2 ^ 7) \<longleftrightarrow> \<not> unat b < 128"
    by (cases "unat b < 128") (auto simp: less_2_cases_iff div_eq_0_iff)
  ultimately show ?thesis by simp
qed

lemma low_group: "ucast ((b :: u8) AND 0x7F) = (word_of_nat (unat b mod 128) :: u64)"
proof -
  have "b AND 0x7F = take_bit 7 b"
    by (simp add: take_bit_eq_mask mask_eq_exp_minus_1)
  then have "unat (b AND 0x7F) = unat b mod 128"
    using unsigned_take_bit_eq [of 7 b, where ?'a = nat] take_bit_eq_mod [of 7 "unat b"] by simp
  then show ?thesis
    by (metis of_nat_unat)
qed

lemma add_group_eq:
  "add_group acc shift b = acc OR push_bit shift (word_of_nat (unat b mod 128))"
  by (simp add: add_group_def low_group)

text \<open>Seven bits and the rest, put together again.\<close>

lemma groups_join:
  "push_bit s (word_of_nat (n mod 128)) OR push_bit (s + 7) (word_of_nat (n div 128))
     = (push_bit s (word_of_nat n) :: u64)"
proof -
  have "take_bit 7 n OR push_bit 7 (drop_bit 7 n) = n"
    by (auto simp: bit_eq_iff bit_or_iff bit_take_bit_iff bit_push_bit_iff bit_drop_bit_eq not_less)
       (metis le_add_diff_inverse not_le)
  then have "n mod 128 OR push_bit 7 (n div 128) = n"
    by (simp add: take_bit_eq_mod drop_bit_eq_div)
  then have "(word_of_nat (n mod 128) :: u64) OR push_bit 7 (word_of_nat (n div 128)) = word_of_nat n"
    by (metis of_nat_or_eq of_nat_push_bit)
  then have "push_bit s (word_of_nat (n mod 128) OR push_bit 7 (word_of_nat (n div 128)) :: u64)
    = push_bit s (word_of_nat n)" by simp
  then show ?thesis by (simp add: push_bit_or)
qed

section \<open>Decoding what the encoder wrote\<close>

definition at_pos :: "bytes \<Rightarrow> nat \<Rightarrow> bytes \<Rightarrow> bool" where
  "at_pos data pos bs \<longleftrightarrow> prefix bs (drop pos data)"

lemma at_pos_Cons:
  "at_pos data pos (b # bs) \<longleftrightarrow> pos < length data \<and> data ! pos = b \<and> at_pos data (Suc pos) bs"
proof (cases "pos < length data")
  case True
  then show ?thesis by (auto simp: at_pos_def Cons_nth_drop_Suc [symmetric])
next
  case False
  then show ?thesis by (simp add: at_pos_def)
qed

lemma at_pos_append:
  "at_pos data pos (bs @ cs) \<longleftrightarrow> at_pos data pos bs \<and> at_pos data (pos + length bs) cs"
proof (induction bs arbitrary: pos)
  case Nil
  then show ?case by (simp add: at_pos_def)
next
  case (Cons b bs)
  then show ?case by (auto simp: at_pos_Cons)
qed

lemma at_pos_Nil [simp]: "at_pos data pos []"
  by (simp add: at_pos_def)

lemma at_pos_self: "at_pos (pre @ bs @ post) (length pre) bs"
  by (simp add: at_pos_def)

lemma pmtiles_varint_loop_encode:
  "at_pos data pos (encode_varint n) \<Longrightarrow> n * 2 ^ shift < 2 ^ 64 \<Longrightarrow> shift < 64 \<Longrightarrow>
   pmtiles_varint_loop data pos shift acc
     = Some (acc OR push_bit shift (word_of_nat n), pos + length (encode_varint n))"
proof (induction n arbitrary: pos shift acc rule: encode_varint.induct)
  case (1 n)
  show ?case
  proof (cases "n < 128")
    case True
    then have enc: "encode_varint n = [word_of_nat n]" by (simp add: encode_varint.simps [of n])
    have "unat (word_of_nat n :: u8) = n" using True by (simp add: unat_of_nat)
    then have "(word_of_nat n :: u8) AND 0x80 = 0" "unat (word_of_nat n :: u8) mod 128 = n"
      using True by (simp_all add: high_bit_clear_iff)
    with "1.prems" enc show ?thesis
      by (simp add: pmtiles_varint_loop.simps [of data pos] at_pos_Cons add_group_eq)
  next
    case False
    let ?b = "word_of_nat (128 + n mod 128) :: u8"
    have enc: "encode_varint n = ?b # encode_varint (n div 128)"
      using False by (simp add: encode_varint.simps [of n])
    have "128 + n mod 128 < 256" by simp
    then have "unat ?b = 128 + n mod 128" by (simp only: unat_of_nat) simp
    then have b: "?b AND 0x80 \<noteq> 0" "unat ?b mod 128 = n mod 128"
      by (simp_all add: high_bit_clear_iff)
    have n: "n div 128 * 128 \<le> n" by simp
    then have "n div 128 * 128 * 2 ^ shift \<le> n * 2 ^ shift" by (rule mult_le_mono1)
    then have "n div 128 * 2 ^ (shift + 7) \<le> n * 2 ^ shift"
      by (simp add: power_add algebra_simps)
    then have lt: "n div 128 * 2 ^ (shift + 7) < 2 ^ 64"
      using "1.prems"(2) by (rule le_less_trans)
    have "1 \<le> n div 128" using False by simp
    then have "2 ^ (shift + 7) < (2 ^ 64 :: nat)"
      using le_less_trans [OF mult_le_mono1 [of 1 "n div 128" "2 ^ (shift + 7)"] lt] by simp
    then have sh: "shift + 7 < 64" by (simp only: power_strict_increasing_iff)
    from "1.prems" have at: "pos < length data" "data ! pos = ?b"
      "at_pos data (Suc pos) (encode_varint (n div 128))"
      by (simp_all add: enc at_pos_Cons)
    have "pmtiles_varint_loop data pos shift acc
      = pmtiles_varint_loop data (Suc pos) (shift + 7) (add_group acc shift ?b)"
      using at(1,2) b(1) "1.prems"(3) by (simp add: pmtiles_varint_loop.simps [of data pos])
    also have "\<dots> = Some (add_group acc shift ?b OR push_bit (shift + 7) (word_of_nat (n div 128)),
        Suc pos + length (encode_varint (n div 128)))"
      by (rule "1.IH" [OF False at(3) lt sh])
    also have "add_group acc shift ?b OR push_bit (shift + 7) (word_of_nat (n div 128))
        = acc OR push_bit shift (word_of_nat n)"
      unfolding add_group_eq b(2) or.assoc groups_join ..
    finally show ?thesis by (simp add: enc)
  qed
qed

lemma pmtiles_varint_encode:
  "at_pos data pos (encode_varint (unat v)) \<Longrightarrow>
   pmtiles_varint data pos = Some (v, pos + length (encode_varint (unat v)))"
  using pmtiles_varint_loop_encode [of data pos "unat v" 0 0] unsigned_less [of v, where ?'a = nat]
  by (simp add: pmtiles_varint_def)

lemma varint_loops_agree:
  "mvt_varint_loop data pos shift acc = pmtiles_varint_loop data pos shift acc"
proof (induction data pos shift acc rule: mvt_varint_loop.induct)
  case (1 data pos shift acc)
  then show ?case
    by (subst mvt_varint_loop.simps, subst pmtiles_varint_loop.simps) auto
qed

lemma varint_readers_agree: "read_mvt_varint data pos = pmtiles_varint data pos"
  by (simp add: read_mvt_varint_def pmtiles_varint_def varint_loops_agree)

lemma pmtiles_varint_loop_progress:
  "pmtiles_varint_loop data pos shift acc = Some (v, pos') \<Longrightarrow>
   pos < pos' \<and> pos' \<le> length data \<and> 7 * pos' \<le> 7 * pos + (76 - shift)"
proof (induction data pos shift acc rule: pmtiles_varint_loop.induct)
  case (1 data pos shift acc)
  show ?case
  proof (cases "pos \<ge> length data \<or> shift \<ge> 64")
    case True
    with "1.prems" show ?thesis by (subst (asm) pmtiles_varint_loop.simps) auto
  next
    case False
    show ?thesis
    proof (cases "(data ! pos) AND 0x80 = 0")
      case True
      with False "1.prems" show ?thesis
        by (subst (asm) pmtiles_varint_loop.simps) auto
    next
      case more: False
      with False "1.prems"
      have "pmtiles_varint_loop data (Suc pos) (shift + 7) (add_group acc shift (data ! pos))
        = Some (v, pos')"
        by (subst (asm) pmtiles_varint_loop.simps) auto
      with "1.IH" False more
      have "Suc pos < pos' \<and> pos' \<le> length data \<and> 7 * pos' \<le> 7 * Suc pos + (76 - (shift + 7))"
        by blast
      with False show ?thesis by auto
    qed
  qed
qed

section \<open>The interface of a varint reader\<close>

locale varint_reader =
  fixes read :: "bytes \<Rightarrow> nat \<Rightarrow> (u64 \<times> nat) option"
  assumes read_encoded:
    "at_pos data pos (encode_varint (unat v)) \<Longrightarrow>
     read data pos = Some (v, pos + length (encode_varint (unat v)))"
  and read_advances: "read data pos = Some (v, pos') \<Longrightarrow> pos < pos'"
  and read_in_bounds: "read data pos = Some (v, pos') \<Longrightarrow> pos' \<le> length data"
  and read_at_most_ten: "read data pos = Some (v, pos') \<Longrightarrow> pos' \<le> pos + 10"
begin

lemma read_needs_input: "length data \<le> pos \<Longrightarrow> read data pos = None"
  using read_advances [of data pos] read_in_bounds [of data pos]
  by (cases "read data pos") fastforce+

lemma read_decoded:
  "read (pre @ encode_varint (unat v) @ post) (length pre)
     = Some (v, length pre + length (encode_varint (unat v)))"
  by (rule read_encoded) (rule at_pos_self)

end

interpretation pm: varint_reader pmtiles_varint
proof unfold_locales
  fix data pos v pos'
  show "at_pos data pos (encode_varint (unat v)) \<Longrightarrow>
     pmtiles_varint data pos = Some (v, pos + length (encode_varint (unat v)))"
    by (rule pmtiles_varint_encode)
  assume "pmtiles_varint data pos = Some (v, pos')"
  then have "pos < pos' \<and> pos' \<le> length data \<and> 7 * pos' \<le> 7 * pos + (76 - 0)"
    unfolding pmtiles_varint_def by (rule pmtiles_varint_loop_progress)
  then show "pos < pos'" "pos' \<le> length data" "pos' \<le> pos + 10" by auto
qed

interpretation mvt: varint_reader read_mvt_varint
  by unfold_locales
     (auto simp: varint_readers_agree pm.read_encoded
           dest: pm.read_advances pm.read_in_bounds pm.read_at_most_ten)

section \<open>Properties\<close>

text \<open>
  the two copies of the varint reader, \<^verbatim>\<open>pmtilesVarint\<close> and \<^verbatim>\<open>readMVTVarint\<close>, agree on
  every buffer and position, errors included, and both decode what the protobuf encoding of any
  64-bit value wrote, returning the value and the position just behind it.
\<close>

theorem varint_round_trip:
  "read_mvt_varint data pos = pmtiles_varint data pos
   \<and> pmtiles_varint (pre @ encode_varint (unat v) @ post) (length pre)
       = Some (v, length pre + length (encode_varint (unat v)))"
  using varint_readers_agree pm.read_decoded by simp

text \<open>
  a varint read succeeds only inside the buffer and consumes between one and ten bytes;
  at or past the end of the buffer it fails.
\<close>

theorem varint_bounds:
  "(case pmtiles_varint data pos of
      None \<Rightarrow> True
    | Some (v, pos') \<Rightarrow> pos < pos' \<and> pos' \<le> pos + 10 \<and> pos' \<le> length data)
   \<and> pmtiles_varint data (length data + k) = None"
  using pm.read_advances [of data pos] pm.read_in_bounds [of data pos]
    pm.read_at_most_ten [of data pos] pm.read_needs_input [of data "length data + k"]
  by (auto split: option.splits prod.splits)

end
