(* ===== verification/Hilbert.thy ===== *)
theory Hilbert
  imports Varint
begin

text \<open>
  The tile numbering of PMTiles: \<^verbatim>\<open>pmtilesIDToZXY\<close> of \<^verbatim>\<open>internal/importer/pmtiles.go\<close>, on the
  machine words of the code, and its meaning: on the ids of one zoom level it is a bijection
  onto the \<open>2 ^ zoom \<times> 2 ^ zoom\<close> tiles.  \<open>hilbert\<close> is the curve on natural numbers.
\<close>

section \<open>The code\<close>

text \<open>\<^verbatim>\<open>(uint64(1)<<uint(2*zoom) - 1) / 3\<close>: the first id of a zoom level.\<close>

definition tile_base :: "nat \<Rightarrow> u64" where
  "tile_base zoom = (push_bit (2 * zoom) 1 - 1) div 3"

function zoom_search :: "u64 \<Rightarrow> nat \<Rightarrow> nat" where
  "zoom_search tid zoom =
     (if zoom < 31 then (if tid < tile_base (Suc zoom) then zoom else zoom_search tid (Suc zoom))
      else zoom)"
  by pat_completeness auto
termination
  by (relation "measure (\<lambda>(tid, zoom). 31 - zoom)") auto

declare zoom_search.simps [simp del]

text \<open>
  The loop doubles \<open>scale\<close> from 1 while it is below \<^verbatim>\<open>1<<zoom\<close>, which takes \<open>zoom\<close> rounds; the
  first argument counts the rounds left.
\<close>

fun hilbert_loop :: "nat \<Rightarrow> u32 \<Rightarrow> u64 \<Rightarrow> u32 \<Rightarrow> u32 \<Rightarrow> u32 \<times> u32" where
  "hilbert_loop 0 scale t x y = (x, y)"
| "hilbert_loop (Suc n) scale t x y =
     (let rx = ucast (drop_bit 1 t AND 1);
          ry = ucast ((t XOR ucast rx) AND 1);
          (x', y') = (if ry = 0
                      then (if rx = 1 then (scale - 1 - y, scale - 1 - x) else (y, x))
                      else (x, y))
      in hilbert_loop n (push_bit 1 scale) (drop_bit 2 t) (x' + scale * rx) (y' + scale * ry))"

definition pmtiles_id_to_zxy :: "u64 \<Rightarrow> (nat \<times> u32 \<times> u32) option" where
  "pmtiles_id_to_zxy tid =
     (let zoom = zoom_search tid 0 in
      if zoom \<ge> 31 then None
      else if tid < tile_base zoom then None
      else if tid - tile_base zoom \<ge> push_bit (2 * zoom) 1 then None
      else (let (x, y) = hilbert_loop zoom 1 (tid - tile_base zoom) 0 0 in Some (zoom, x, y)))"

section \<open>The curve on natural numbers\<close>

definition quad_x :: "nat \<Rightarrow> nat" where
  "quad_x q = q div 2 mod 2"

definition quad_y :: "nat \<Rightarrow> nat" where
  "quad_y q = (q + quad_x q) mod 2"

definition turn :: "nat \<Rightarrow> nat \<Rightarrow> nat \<times> nat \<Rightarrow> nat \<times> nat" where
  "turn s q p =
     (if quad_y q = 0
      then (if quad_x q = 1 then (s - 1 - snd p, s - 1 - fst p) else (snd p, fst p))
      else p)"

definition hilbert_step :: "nat \<Rightarrow> nat \<Rightarrow> nat \<times> nat \<Rightarrow> nat \<times> nat" where
  "hilbert_step s q p = (fst (turn s q p) + s * quad_x q, snd (turn s q p) + s * quad_y q)"

fun hilbert :: "nat \<Rightarrow> nat \<Rightarrow> nat \<times> nat" where
  "hilbert 0 d = (0, 0)"
| "hilbert (Suc k) d = hilbert_step (2 ^ k) (d div 4 ^ k mod 4) (hilbert k d)"

lemma quad_less_2 [simp]: "quad_x q < 2" "quad_y q < 2" "quad_x q \<le> 1" "quad_y q \<le> 1"
proof -
  show *: "quad_x q < 2" "quad_y q < 2" by (simp_all add: quad_x_def quad_y_def)
  show "quad_x q \<le> 1" "quad_y q \<le> 1" using * by simp_all
qed

lemma turn_bounded:
  "fst p < s \<Longrightarrow> snd p < s \<Longrightarrow> fst (turn s q p) < s \<and> snd (turn s q p) < s"
  by (auto simp: turn_def)

lemma turn_turn: "fst p < s \<Longrightarrow> snd p < s \<Longrightarrow> turn s q (turn s q p) = p"
  by (cases p) (auto simp: turn_def)

lemma hilbert_step_split:
  assumes "fst p < s" "snd p < s" "q < 4" "hilbert_step s q p = (X, Y)"
  shows "X div s = quad_x q" "Y div s = quad_y q" "turn s q p = (X mod s, Y mod s)"
    "X < 2 * s" "Y < 2 * s"
proof -
  obtain a b where ab: "turn s q p = (a, b)" by fastforce
  with turn_bounded [OF assms(1,2), of q] have lt: "a < s" "b < s" by simp_all
  from assms(4) ab have X: "X = a + s * quad_x q" and Y: "Y = b + s * quad_y q"
    by (simp_all add: hilbert_step_def)
  show "X div s = quad_x q" "Y div s = quad_y q" "turn s q p = (X mod s, Y mod s)"
    using lt X Y ab by (simp_all add: div_add1_eq)
  have "s * quad_x q \<le> s * 1" "s * quad_y q \<le> s * 1"
    by (simp_all only: mult_le_mono2 quad_less_2)
  then show "X < 2 * s" "Y < 2 * s" using X Y lt by linarith+
qed

lemma hilbert_bounded: "fst (hilbert k d) < 2 ^ k \<and> snd (hilbert k d) < 2 ^ k"
proof (induction k)
  case 0
  then show ?case by simp
next
  case (Suc k)
  obtain X Y where "hilbert_step (2 ^ k) (d div 4 ^ k mod 4) (hilbert k d) = (X, Y)" by fastforce
  with hilbert_step_split(4,5) [OF _ _ _ this] Suc show ?case by simp
qed

lemma quads_inj: "q < 4 \<Longrightarrow> q' < 4 \<Longrightarrow> quad_x q = quad_x q' \<Longrightarrow> quad_y q = quad_y q' \<Longrightarrow> q = q'"
proof -
  have "q < 4 \<Longrightarrow> q = 2 * quad_x q + (quad_x q + quad_y q) mod 2" for q
    by (cases "q = 0 \<or> q = 1 \<or> q = 2 \<or> q = 3") (auto simp: quad_x_def quad_y_def)
  then show "q < 4 \<Longrightarrow> q' < 4 \<Longrightarrow> quad_x q = quad_x q' \<Longrightarrow> quad_y q = quad_y q' \<Longrightarrow> q = q'"
    by metis
qed

lemma hilbert_inj: "hilbert k d = hilbert k d' \<Longrightarrow> d mod 4 ^ k = d' mod 4 ^ k"
proof (induction k)
  case 0
  then show ?case by simp
next
  case (Suc k)
  let ?q = "d div 4 ^ k mod 4" and ?q' = "d' div 4 ^ k mod 4"
  obtain X Y where XY: "hilbert_step (2 ^ k) ?q (hilbert k d) = (X, Y)" by fastforce
  then have XY': "hilbert_step (2 ^ k) ?q' (hilbert k d') = (X, Y)"
    using Suc.prems by simp
  note s = hilbert_step_split [OF _ _ _ XY] hilbert_bounded [of k d]
  note s' = hilbert_step_split [OF _ _ _ XY'] hilbert_bounded [of k d']
  have q: "?q = ?q'" using quads_inj s s' by simp
  have "hilbert k d = turn (2 ^ k) ?q (turn (2 ^ k) ?q (hilbert k d))"
    using turn_turn hilbert_bounded by simp
  also have "\<dots> = turn (2 ^ k) ?q' (turn (2 ^ k) ?q' (hilbert k d'))"
    using q s s' by simp
  also have "\<dots> = hilbert k d'" using turn_turn hilbert_bounded by simp
  finally have "d mod 4 ^ k = d' mod 4 ^ k" by (rule Suc.IH)
  moreover have "e mod 4 ^ Suc k = 4 ^ k * (e div 4 ^ k mod 4) + e mod 4 ^ k" for e :: nat
    using mod_mult2_eq [of e "4 ^ k" 4] by (simp add: mult.commute)
  ultimately show ?case using q by simp
qed

lemma hilbert_bij: "bij_betw (hilbert k) {..< 4 ^ k} ({..< 2 ^ k} \<times> {..< 2 ^ k})"
proof -
  have inj: "inj_on (hilbert k) {..< 4 ^ k}"
    using hilbert_inj [of k] by (fastforce simp: inj_on_def)
  have sub: "hilbert k ` {..< 4 ^ k} \<subseteq> {..< 2 ^ k} \<times> {..< 2 ^ k}"
  proof
    fix p assume "p \<in> hilbert k ` {..< 4 ^ k}"
    then obtain d where "p = hilbert k d" by blast
    then show "p \<in> {..< 2 ^ k} \<times> {..< 2 ^ k}"
      using hilbert_bounded [of k d] by (simp add: mem_Times_iff)
  qed
  have "card (hilbert k ` {..< 4 ^ k}) = card ({..< 2 ^ k :: nat} \<times> {..< 2 ^ k :: nat})"
    using card_image [OF inj] by (simp add: power_mult_distrib [symmetric])
  with sub have "hilbert k ` {..< 4 ^ k} = {..< 2 ^ k} \<times> {..< 2 ^ k}"
    by (intro card_subset_eq) auto
  with inj show ?thesis by (simp add: bij_betw_def)
qed

section \<open>The code computes the curve\<close>

lemma unat_low_bit: "unat ((w :: u64) AND 1) = unat w mod 2"
  by (simp add: and_one_eq unat_mod_distrib)

lemma quad_x_word: "ucast (drop_bit 1 (t :: u64) AND 1) = (word_of_nat (quad_x (unat t mod 4)) :: u32)"
proof -
  have "unat (drop_bit 1 t AND 1) = unat t div 2 mod 2"
    using unat_low_bit [of "drop_bit 1 t"] by (simp add: drop_bit_eq_div unat_div_distrib)
  moreover have "unat t div 2 mod 2 = quad_x (unat t mod 4)"
    by (simp add: quad_x_def) presburger
  ultimately show ?thesis by (metis of_nat_unat)
qed

lemma xor_mod_2: "(a XOR b) mod 2 = (a + b) mod (2 :: nat)"
proof -
  have "even (a XOR b) \<longleftrightarrow> even (a + b)" by (simp add: even_xor_iff)
  then show ?thesis by (simp only: mod2_eq_if)
qed

lemma parity_mod_4: "(a + c) mod 2 = (a mod 4 + c) mod (2 :: nat)"
proof -
  have "a mod 4 mod 2 = a mod 2" by (simp add: mod_mod_cancel)
  then show ?thesis by (metis mod_add_left_eq)
qed

lemma quad_y_word:
  "ucast (((t :: u64) XOR ucast (word_of_nat (quad_x (unat t mod 4)) :: u32)) AND 1)
     = (word_of_nat (quad_y (unat t mod 4)) :: u32)"
proof -
  let ?u = "ucast (word_of_nat (quad_x (unat t mod 4)) :: u32) :: u64"
  have u: "unat ?u = quad_x (unat t mod 4)"
  proof (cases "quad_x (unat t mod 4) = 0")
    case False
    then have "quad_x (unat t mod 4) = 1"
      using quad_less_2(1) [of "unat t mod 4"] by linarith
    then show ?thesis by simp
  qed simp
  have "unat ((t XOR ?u) AND 1) = (unat t XOR unat ?u) mod 2"
    by (simp only: unat_low_bit unsigned_xor_eq)
  also have "\<dots> = (unat t + unat ?u) mod 2" by (rule xor_mod_2)
  also have "\<dots> = quad_y (unat t mod 4)"
    unfolding u quad_y_def by (rule parity_mod_4)
  finally show ?thesis by (metis of_nat_unat)
qed

lemma word_of_nat_small_iff:
  "m < 2 ^ 32 \<Longrightarrow> n < 2 ^ 32 \<Longrightarrow> (word_of_nat m :: u32) = word_of_nat n \<longleftrightarrow> m = n"
  by (simp add: word_of_nat_eq_iff take_bit_nat_eq_self)

lemma hilbert_round:
  assumes "fst p < 2 ^ k" "snd p < 2 ^ k"
    and "rx = word_of_nat (quad_x q)" "ry = word_of_nat (quad_y q)"
    and "(x', y') = (if ry = 0
           then (if rx = 1 then (word_of_nat (2 ^ k) - 1 - y, word_of_nat (2 ^ k) - 1 - x) else (y, x))
           else (x, y))"
    and "x = word_of_nat (fst p)" "y = word_of_nat (snd p)"
  shows "x' + word_of_nat (2 ^ k) * rx = (word_of_nat (fst (hilbert_step (2 ^ k) q p)) :: u32)"
    "y' + word_of_nat (2 ^ k) * ry = (word_of_nat (snd (hilbert_step (2 ^ k) q p)) :: u32)"
proof -
  have diff: "(word_of_nat (2 ^ k) - 1 - word_of_nat n :: u32) = word_of_nat (2 ^ k - 1 - n)"
    if "n < 2 ^ k" for n :: nat
  proof -
    have "(word_of_nat (2 ^ k - 1 - n) :: u32) = word_of_nat (2 ^ k - 1) - word_of_nat n"
      using that by (intro of_nat_diff) simp
    also have "(word_of_nat (2 ^ k - 1) :: u32) = word_of_nat (2 ^ k) - word_of_nat 1"
      by (intro of_nat_diff) simp
    finally show ?thesis by simp
  qed
  have rx: "rx = 1 \<longleftrightarrow> quad_x q = 1" and ry: "ry = 0 \<longleftrightarrow> quad_y q = 0"
    using word_of_nat_small_iff [of "quad_x q" 1] word_of_nat_small_iff [of "quad_y q" 0]
      quad_less_2(1,2) [of q] assms(3,4) by simp_all
  have "x' = word_of_nat (fst (turn (2 ^ k) q p)) \<and> y' = word_of_nat (snd (turn (2 ^ k) q p))"
    using assms(5) diff [OF assms(1)] diff [OF assms(2)] assms(6,7)
    by (auto simp: turn_def rx ry split: if_splits)
  then show "x' + word_of_nat (2 ^ k) * rx = word_of_nat (fst (hilbert_step (2 ^ k) q p))"
    "y' + word_of_nat (2 ^ k) * ry = word_of_nat (snd (hilbert_step (2 ^ k) q p))"
    using assms(3,4) by (simp_all add: hilbert_step_def)
qed

lemma hilbert_loop_eq:
  "unat t = d div 4 ^ k \<Longrightarrow> d < 2 ^ 64 \<Longrightarrow>
   hilbert_loop n (word_of_nat (2 ^ k)) t (word_of_nat (fst (hilbert k d)))
       (word_of_nat (snd (hilbert k d)))
     = (word_of_nat (fst (hilbert (n + k) d)), word_of_nat (snd (hilbert (n + k) d)))"
proof (induction n arbitrary: k t)
  case 0
  then show ?case by simp
next
  case (Suc n)
  let ?q = "d div 4 ^ k mod 4" and ?s = "word_of_nat (2 ^ k) :: u32"
  let ?x = "word_of_nat (fst (hilbert k d)) :: u32" and ?y = "word_of_nat (snd (hilbert k d)) :: u32"
  define rx :: u32 where "rx = ucast (drop_bit 1 t AND 1)"
  define ry :: u32 where "ry = ucast ((t XOR ucast rx) AND 1)"
  obtain x' y' where xy: "(x', y') =
      (if ry = 0 then (if rx = 1 then (?s - 1 - ?y, ?s - 1 - ?x) else (?y, ?x)) else (?x, ?y))"
    by (metis surj_pair)
  have rx: "rx = word_of_nat (quad_x ?q)"
    using quad_x_word [of t] Suc.prems(1) by (simp add: rx_def)
  have ry: "ry = word_of_nat (quad_y ?q)"
    using quad_y_word [of t] Suc.prems(1) rx by (simp add: ry_def)
  have step: "x' + ?s * rx = word_of_nat (fst (hilbert (Suc k) d))"
    "y' + ?s * ry = word_of_nat (snd (hilbert (Suc k) d))"
    using hilbert_round [OF _ _ rx ry xy refl refl] hilbert_bounded [of k d] by simp_all
  have s: "push_bit 1 ?s = word_of_nat (2 ^ Suc k)" by (simp add: mult.commute)
  have t: "unat (drop_bit 2 t) = d div 4 ^ Suc k"
  proof -
    have "unat (drop_bit 2 t) = unat t div 4" by (simp add: drop_bit_eq_div unat_div_distrib)
    also have "\<dots> = d div (4 ^ k * 4)" by (simp only: Suc.prems(1) div_mult2_eq)
    finally show ?thesis by (simp add: mult.commute)
  qed
  have "hilbert_loop (Suc n) ?s t ?x ?y
    = hilbert_loop n (push_bit 1 ?s) (drop_bit 2 t) (x' + ?s * rx) (y' + ?s * ry)"
    unfolding hilbert_loop.simps Let_def rx_def [symmetric] ry_def [symmetric] xy [symmetric]
    by (simp only: prod.case)
  also have "\<dots> = hilbert_loop n (word_of_nat (2 ^ Suc k)) (drop_bit 2 t)
      (word_of_nat (fst (hilbert (Suc k) d))) (word_of_nat (snd (hilbert (Suc k) d)))"
    by (simp only: s step)
  also have "\<dots> = (word_of_nat (fst (hilbert (n + Suc k) d)), word_of_nat (snd (hilbert (n + Suc k) d)))"
    by (rule Suc.IH [OF t Suc.prems(2)])
  finally show ?case by (simp only: add_Suc_shift)
qed

section \<open>Zoom levels\<close>

text \<open>The number of tiles below a zoom level.\<close>

definition level_base :: "nat \<Rightarrow> nat" where
  "level_base z = (4 ^ z - 1) div 3"

lemma three_level_base: "3 * level_base z + 1 = 4 ^ z"
proof -
  have "\<exists>m. 4 ^ z = 3 * m + (1 :: nat)"
  proof (induction z)
    case 0
    show ?case by simp
  next
    case (Suc z)
    then obtain m :: nat where "4 ^ z = 3 * m + 1" by blast
    then have "4 ^ Suc z = 3 * (4 * m + 1) + (1 :: nat)" by simp
    then show ?case by blast
  qed
  then obtain m :: nat where "4 ^ z = 3 * m + 1" by blast
  then show ?thesis by (simp add: level_base_def)
qed

lemma level_base_Suc: "level_base (Suc z) = level_base z + 4 ^ z"
  using three_level_base [of z] three_level_base [of "Suc z"] by simp

lemma level_base_mono: "z \<le> z' \<Longrightarrow> level_base z \<le> level_base z'"
  by (induction z' rule: dec_induct) (simp_all add: level_base_Suc)

lemma four_power_bound: "z \<le> 31 \<Longrightarrow> 4 ^ z < (2 ^ 64 :: nat)"
  using power_increasing [of z 31 "4 :: nat"] by simp

lemma unat_four_power: "z \<le> 31 \<Longrightarrow> unat (push_bit (2 * z) 1 :: u64) = 4 ^ z"
proof -
  assume "z \<le> 31"
  have "push_bit (2 * z) (1 :: u64) = word_of_nat (4 ^ z)"
    by (simp add: push_bit_eq_mult power_mult)
  then show ?thesis
    using four_power_bound [OF \<open>z \<le> 31\<close>] by (simp only: unat_of_nat) simp
qed

lemma unat_tile_base:
  assumes "z \<le> 31"
  shows "unat (tile_base z) = level_base z"
proof -
  have "(1 :: u64) \<le> push_bit (2 * z) 1"
    using unat_four_power [OF assms] by (simp add: word_le_nat_alt)
  then have "unat (push_bit (2 * z) 1 - 1 :: u64) = 4 ^ z - 1"
    using unat_four_power [OF assms] by (simp add: unat_sub)
  then show ?thesis by (simp add: tile_base_def level_base_def unat_div_distrib)
qed

lemma zoom_search_level:
  assumes "level_base z \<le> unat tid" "z \<le> 30 \<Longrightarrow> unat tid < level_base (Suc z)" "z \<le> 31"
  shows "j \<le> z \<Longrightarrow> zoom_search tid j = z"
proof (induction "z - j" arbitrary: j)
  case 0
  with assms show ?case
    by (subst zoom_search.simps) (auto simp: word_less_nat_alt unat_tile_base)
next
  case (Suc n)
  then have j: "Suc j \<le> z" "j < 31" using assms(3) by simp_all
  then have "level_base (Suc j) \<le> unat tid"
    using assms(1) level_base_mono [of "Suc j" z] by simp
  then have "\<not> tid < tile_base (Suc j)"
    using j by (simp add: word_less_nat_alt unat_tile_base)
  then have "zoom_search tid j = zoom_search tid (Suc j)"
    using j by (subst zoom_search.simps) simp
  also have "\<dots> = z" using Suc.hyps(1) [of "Suc j"] Suc.hyps(2) j by simp
  finally show ?case .
qed

lemma level_of_id:
  "n < level_base 31 \<Longrightarrow> \<exists>z\<le>30. level_base z \<le> n \<and> n < level_base (Suc z)"
proof -
  assume n: "n < level_base 31"
  define z where "z = (GREATEST z. level_base z \<le> n)"
  have bound: "z' \<le> 30" if "level_base z' \<le> n" for z'
    using level_base_mono [of 31 z'] that n by (cases "z' \<le> 30") auto
  have 0: "level_base 0 \<le> n" by (simp add: level_base_def)
  have le: "level_base z \<le> n"
    unfolding z_def using GreatestI_nat [of "\<lambda>z. level_base z \<le> n" 0 30] 0 bound by blast
  have "z' \<le> z" if "level_base z' \<le> n" for z'
    unfolding z_def using Greatest_le_nat [of "\<lambda>z. level_base z \<le> n" z' 30] that bound by blast
  then have "\<not> level_base (Suc z) \<le> n" using Suc_n_not_le_n by blast
  with le bound [OF le] show ?thesis by auto
qed

lemma id_to_zxy_level:
  assumes "z \<le> 30" "level_base z \<le> unat tid" "unat tid < level_base (Suc z)"
  shows "pmtiles_id_to_zxy tid =
    Some (z, word_of_nat (fst (hilbert z (unat tid - level_base z))),
             word_of_nat (snd (hilbert z (unat tid - level_base z))))"
proof -
  let ?d = "unat tid - level_base z"
  have zoom: "zoom_search tid 0 = z"
    using zoom_search_level [of z tid 0] assms by simp
  have base: "\<not> tid < tile_base z"
    using assms by (simp add: word_less_nat_alt unat_tile_base)
  then have d: "unat (tid - tile_base z) = ?d"
    using assms(1) by (simp add: unat_sub unat_tile_base not_less)
  have "?d < 4 ^ z" using assms(2,3) by (simp add: level_base_Suc)
  then have limit: "\<not> push_bit (2 * z) 1 \<le> tid - tile_base z"
    unfolding word_le_nat_alt d using unat_four_power [of z] assms(1) by linarith
  have "hilbert_loop z 1 (tid - tile_base z) 0 0
    = (word_of_nat (fst (hilbert z ?d)), word_of_nat (snd (hilbert z ?d)))"
    using hilbert_loop_eq [of "tid - tile_base z" ?d 0 z] d
      unsigned_less [of tid, where ?'a = nat] by simp
  with zoom base limit assms(1) show ?thesis by (simp add: pmtiles_id_to_zxy_def)
qed

lemma id_to_zxy_None_iff: "pmtiles_id_to_zxy tid = None \<longleftrightarrow> level_base 31 \<le> unat tid"
proof (cases "level_base 31 \<le> unat tid")
  case True
  then have "zoom_search tid 0 = 31" by (intro zoom_search_level) auto
  with True show ?thesis by (simp add: pmtiles_id_to_zxy_def)
next
  case False
  then obtain z where "z \<le> 30" "level_base z \<le> unat tid" "unat tid < level_base (Suc z)"
    using level_of_id [of "unat tid"] by auto
  with False id_to_zxy_level show ?thesis by simp
qed

lemma id_to_zxy_Some:
  assumes "pmtiles_id_to_zxy tid = Some (z, x, y)"
  shows "z \<le> 30" "level_base z \<le> unat tid" "unat tid < level_base (Suc z)"
    "(unat x, unat y) = hilbert z (unat tid - level_base z)"
    "unat x < 2 ^ z" "unat y < 2 ^ z"
proof -
  have "unat tid < level_base 31"
    using assms id_to_zxy_None_iff [of tid] by fastforce
  then obtain z' where z': "z' \<le> 30" "level_base z' \<le> unat tid" "unat tid < level_base (Suc z')"
    using level_of_id by blast
  note eq = id_to_zxy_level [OF z']
  then have z: "z' = z" and x: "x = word_of_nat (fst (hilbert z (unat tid - level_base z)))"
    and y: "y = word_of_nat (snd (hilbert z (unat tid - level_base z)))"
    using assms by auto
  show "z \<le> 30" "level_base z \<le> unat tid" "unat tid < level_base (Suc z)"
    using z z' by simp_all
  have "2 ^ z \<le> (2 ^ 30 :: nat)" using \<open>z \<le> 30\<close> by (intro power_increasing) simp_all
  then have small: "fst (hilbert z (unat tid - level_base z)) < 2 ^ 32"
    "snd (hilbert z (unat tid - level_base z)) < 2 ^ 32"
    using hilbert_bounded [of z "unat tid - level_base z"] by auto
  then have "unat x = fst (hilbert z (unat tid - level_base z))"
    "unat y = snd (hilbert z (unat tid - level_base z))"
    unfolding x y by (simp_all add: unat_of_nat)
  then show "(unat x, unat y) = hilbert z (unat tid - level_base z)"
    "unat x < 2 ^ z" "unat y < 2 ^ z"
    using hilbert_bounded [of z "unat tid - level_base z"] by simp_all
qed

lemma id_to_zxy_inj:
  assumes i: "pmtiles_id_to_zxy i = Some (z, x, y)" and j: "pmtiles_id_to_zxy j = Some (z, x, y)"
  shows "i = j"
proof -
  let ?di = "unat i - level_base z" and ?dj = "unat j - level_base z"
  have "hilbert z ?di = hilbert z ?dj"
    using id_to_zxy_Some(4) [OF i] id_to_zxy_Some(4) [OF j] by simp
  then have "?di mod 4 ^ z = ?dj mod 4 ^ z" by (rule hilbert_inj)
  moreover have "?di < 4 ^ z" "?dj < 4 ^ z"
    using id_to_zxy_Some(2,3) [OF i] id_to_zxy_Some(2,3) [OF j] by (simp_all add: level_base_Suc)
  ultimately have "?di = ?dj" by simp
  then have "unat i = unat j"
    using id_to_zxy_Some(2) [OF i] id_to_zxy_Some(2) [OF j] by simp
  then show "i = j" by (simp add: word_unat_eq_iff)
qed

section \<open>Properties\<close>

text \<open>
  on the ids it accepts, \<^verbatim>\<open>pmtilesIDToZXY\<close> yields a tile of a zoom level up to 30 with
  both coordinates inside the level's grid, computed without overflow of its 32-bit arithmetic,
  and it rejects exactly the ids past the last tile of zoom 30.
\<close>

theorem tile_id_in_grid:
  "case pmtiles_id_to_zxy tid of
     None \<Rightarrow> (4 ^ 31 - 1) div 3 \<le> unat tid
   | Some (z, x, y) \<Rightarrow> z \<le> 30 \<and> unat x < 2 ^ z \<and> unat y < 2 ^ z
       \<and> (4 ^ z - 1) div 3 \<le> unat tid \<and> unat tid < (4 ^ Suc z - 1) div 3"
proof (cases "pmtiles_id_to_zxy tid")
  case None
  then have "(4 ^ 31 - 1) div 3 \<le> unat tid"
    using id_to_zxy_None_iff [of tid] by (simp only: level_base_def)
  with None show ?thesis by simp
next
  case (Some p)
  then show ?thesis
    using id_to_zxy_Some(1-3,5,6) [of tid] unfolding level_base_def by (cases p) simp
qed

text \<open>
  Claim C11: every tile of every zoom level up to 30 is produced by exactly one tile id, so an
  archive that numbers its tiles along the curve loses and duplicates none.
\<close>

theorem tile_id_unique:
  assumes "z \<le> 30" and "X < 2 ^ z" and "Y < 2 ^ z"
  shows "\<exists>!tid. \<exists>x y. pmtiles_id_to_zxy tid = Some (z, x, y) \<and> unat x = X \<and> unat y = Y"
proof (rule ex_ex1I)
  from assms have "(X, Y) \<in> hilbert z ` {..< 4 ^ z}"
    using hilbert_bij [of z] by (simp add: bij_betw_def)
  then obtain d where d: "d < 4 ^ z" "hilbert z d = (X, Y)" by auto
  have "level_base z + d < level_base (Suc z)" using d by (simp add: level_base_Suc)
  moreover have "level_base (Suc z) < 2 ^ 64"
    using three_level_base [of "Suc z"] four_power_bound [of "Suc z"] assms(1) by simp
  ultimately have u: "unat (word_of_nat (level_base z + d) :: u64) = level_base z + d"
    by (simp only: unat_of_nat) simp
  then obtain x y where xy: "pmtiles_id_to_zxy (word_of_nat (level_base z + d)) = Some (z, x, y)"
    using id_to_zxy_level [of z "word_of_nat (level_base z + d)"] assms(1) d
    by (simp add: level_base_Suc)
  from id_to_zxy_Some(4) [OF xy] u d(2) have "unat x = X" "unat y = Y" by simp_all
  with xy show "\<exists>tid x y. pmtiles_id_to_zxy tid = Some (z, x, y) \<and> unat x = X \<and> unat y = Y"
    by blast
next
  fix i j
  assume "\<exists>x y. pmtiles_id_to_zxy i = Some (z, x, y) \<and> unat x = X \<and> unat y = Y"
    and "\<exists>x y. pmtiles_id_to_zxy j = Some (z, x, y) \<and> unat x = X \<and> unat y = Y"
  then obtain x y x' y' where i: "pmtiles_id_to_zxy i = Some (z, x, y)"
    and j: "pmtiles_id_to_zxy j = Some (z, x', y')"
    and eq: "unat x = unat x'" "unat y = unat y'" by metis
  from i j eq show "i = j" by (intro id_to_zxy_inj) (auto simp: word_unat_eq_iff)
qed

theorem tile_id_unique_witness:
  "\<exists>!tid. \<exists>x y. pmtiles_id_to_zxy tid = Some (2, x, y) \<and> unat x = 3 \<and> unat y = 1"
  by (rule tile_id_unique) simp_all

end
