(* ===== verification/PmTiles.thy ===== *)
theory PmTiles
  imports Hilbert "HOL-Library.AList" "HOL-Library.List_Lexorder"
begin

text \<open>
  The PMTiles v3 importer of \<^verbatim>\<open>internal/importer/pmtiles.go\<close>: header, directory decoding,
  bounded decompression, the recursive walk over leaf directories and the rows of the tile table.

  Parameters (\<open>pm_env\<close>) stand for code that is not in the repository or is byte-level standard
  library: the gzip, brotli and zstd readers (each yields the stream of bytes it produces and the
  error the stream ends with, if any), \<^verbatim>\<open>json.Unmarshal\<close> with \<^verbatim>\<open>json.Marshal\<close> of the metadata
  values, SHA-256, base64 and \<^verbatim>\<open>strconv.FormatFloat\<close> of a coordinate.

  A row of the result table is a list of nine cells, as in the code.
\<close>

section \<open>Data\<close>

datatype pm_error =
  Not_Archive | Unsupported_Version u8 | Unexpected_EOF | Invalid_Varint
| Invalid_Entry_Count u64 | First_Offset_Zero | Unsupported_Compression u8
| Decompressed_Too_Large nat | Codec_Error string | Metadata_Error string
| Run_Length_Exceeded u64 | Too_Many_Tiles | Invalid_Tile_Id u64 | No_Tiles
| In_Context string pm_error | Out_Of_Fuel

record pmtiles_header =
  root_offset :: u64
  root_length :: u64
  metadata_offset :: u64
  metadata_length :: u64
  leaf_offset :: u64
  leaf_length :: u64
  tile_offset :: u64
  tile_length :: u64
  internal_compression :: u8
  tile_compression :: u8
  tile_type :: u8
  min_zoom :: u8
  max_zoom :: u8
  min_lon_e7 :: u32
  min_lat_e7 :: u32
  max_lon_e7 :: u32
  max_lat_e7 :: u32

record pmtiles_dir_entry =
  tile_id :: u64
  run_length :: u64
  entry_length :: u64
  entry_offset :: u64

type_synonym stream = "bytes \<times> string option"
type_synonym row = "string list"

text \<open>A metadata value: a JSON string, or any other value with its marshalled text (or the
  failure of marshalling) and its \<^verbatim>\<open>fmt.Sprint\<close> text.\<close>

datatype meta_value = Meta_Text string | Meta_Other "string option" string

record pm_env =
  gzip_open :: "bytes \<Rightarrow> string + (stream \<times> string option)"
  brotli_open :: "bytes \<Rightarrow> stream"
  zstd_open :: "bytes \<Rightarrow> string + stream"
  json_object :: "bytes \<Rightarrow> string + (string \<times> meta_value) list"
  sha256_hex :: "bytes \<Rightarrow> string"
  base64_encode :: "bytes \<Rightarrow> string"
  format_e7 :: "int \<Rightarrow> string"

definition max_run_length :: nat where
  "max_run_length = 2 ^ 20"

definition max_total_tiles :: nat where
  "max_total_tiles = 5000000"

definition max_decompressed_bytes :: nat where
  "max_decompressed_bytes = 64 * 2 ^ 20"

section \<open>Ranges and header\<close>

definition pmtiles_range :: "bytes \<Rightarrow> u64 \<Rightarrow> u64 \<Rightarrow> pm_error + bytes" where
  "pmtiles_range data offset len =
     (if unat offset > length data \<or> unat len > length data - unat offset
      then Inl Unexpected_EOF
      else Inr (take (unat len) (drop (unat offset) data)))"

fun little_endian :: "bytes \<Rightarrow> 'a::len word" where
  "little_endian [] = 0"
| "little_endian (b # bs) = ucast b OR push_bit 8 (little_endian bs)"

definition read64 :: "bytes \<Rightarrow> nat \<Rightarrow> u64" where
  "read64 data offset = little_endian (take 8 (drop offset data))"

definition read32 :: "bytes \<Rightarrow> nat \<Rightarrow> u32" where
  "read32 data offset = little_endian (take 4 (drop offset data))"

definition string_bytes :: "string \<Rightarrow> bytes" where
  "string_bytes s = map (\<lambda>c. word_of_nat (of_char c)) s"

definition parse_pmtiles_header :: "bytes \<Rightarrow> pm_error + pmtiles_header" where
  "parse_pmtiles_header data =
     (if length data < 127 \<or> take 7 data \<noteq> string_bytes ''PMTiles'' then Inl Not_Archive
      else if data ! 7 \<noteq> 3 then Inl (Unsupported_Version (data ! 7))
      else Inr
        \<lparr>root_offset = read64 data 8, root_length = read64 data 16,
         metadata_offset = read64 data 24, metadata_length = read64 data 32,
         leaf_offset = read64 data 40, leaf_length = read64 data 48,
         tile_offset = read64 data 56, tile_length = read64 data 64,
         internal_compression = data ! 97, tile_compression = data ! 98,
         tile_type = data ! 99, min_zoom = data ! 100, max_zoom = data ! 101,
         min_lon_e7 = read32 data 102, min_lat_e7 = read32 data 106,
         max_lon_e7 = read32 data 110, max_lat_e7 = read32 data 114\<rparr>)"

section \<open>Decompression\<close>

text \<open>
  \<^verbatim>\<open>io.ReadAll(io.LimitReader(r, limit+1))\<close>: the first \<open>limit + 1\<close> bytes if the stream has that
  many, otherwise the whole stream or the error it ends with.
\<close>

definition read_all_limited :: "stream \<Rightarrow> nat \<Rightarrow> pm_error + bytes" where
  "read_all_limited r limit =
     (if length (fst r) \<le> limit then
        (case snd r of Some e \<Rightarrow> Inl (Codec_Error e) | None \<Rightarrow> Inr (fst r))
      else Inl (Decompressed_Too_Large limit))"

definition pmtiles_decompress :: "pm_env \<Rightarrow> bytes \<Rightarrow> u8 \<Rightarrow> pm_error + bytes" where
  "pmtiles_decompress env data compression =
     (if compression = 1 then Inr data
      else if compression = 2 then
        (case gzip_open env data of
           Inl e \<Rightarrow> Inl (Codec_Error e)
         | Inr (r, close_err) \<Rightarrow>
             bind_res (read_all_limited r max_decompressed_bytes)
               (\<lambda>out. case close_err of Some e \<Rightarrow> Inl (Codec_Error e) | None \<Rightarrow> Inr out))
      else if compression = 3 then read_all_limited (brotli_open env data) max_decompressed_bytes
      else if compression = 4 then
        (case zstd_open env data of
           Inl e \<Rightarrow> Inl (Codec_Error e)
         | Inr r \<Rightarrow> read_all_limited r max_decompressed_bytes)
      else Inl (Unsupported_Compression compression))"

definition pmtiles_compression_name :: "u8 \<Rightarrow> string" where
  "pmtiles_compression_name c =
     (if c = 1 then ''none'' else if c = 2 then ''gzip'' else if c = 3 then ''br''
      else if c = 4 then ''zstd'' else ''unknown'')"

definition pmtiles_tile_type_name :: "u8 \<Rightarrow> string" where
  "pmtiles_tile_type_name t =
     (if t = 1 then ''pbf'' else if t = 2 then ''png'' else if t = 3 then ''jpg''
      else if t = 4 then ''webp'' else if t = 5 then ''avif'' else ''unknown'')"

section \<open>Directories\<close>

text \<open>One column: \<open>n\<close> varints in a row.\<close>

fun read_column :: "bytes \<Rightarrow> nat \<Rightarrow> nat \<Rightarrow> pm_error + (u64 list \<times> nat)" where
  "read_column data 0 pos = Inr ([], pos)"
| "read_column data (Suc n) pos =
     (case pmtiles_varint data pos of
        None \<Rightarrow> Inl Invalid_Varint
      | Some (v, pos') \<Rightarrow>
          bind_res (read_column data n pos') (\<lambda>(vs, pos''). Inr (v # vs, pos'')))"

text \<open>\<^verbatim>\<open>lastID += delta\<close>\<close>

fun tile_ids :: "u64 \<Rightarrow> u64 list \<Rightarrow> u64 list" where
  "tile_ids prev [] = []"
| "tile_ids prev (delta # ds) = (prev + delta) # tile_ids (prev + delta) ds"

text \<open>
  The last loop: a zero means directly behind the previous entry, except in the first entry
  (\<open>first\<close> is \<^verbatim>\<open>i == 0\<close>), where it is an error.
\<close>

fun read_offsets ::
    "bytes \<Rightarrow> bool \<Rightarrow> u64 \<Rightarrow> u64 \<Rightarrow> u64 list \<Rightarrow> nat \<Rightarrow> pm_error + (u64 list \<times> nat)" where
  "read_offsets data first prev_offset prev_length [] pos = Inr ([], pos)"
| "read_offsets data first prev_offset prev_length (len # lens) pos =
     (case pmtiles_varint data pos of
        None \<Rightarrow> Inl Invalid_Varint
      | Some (v, pos') \<Rightarrow>
          if v = 0 \<and> first then Inl First_Offset_Zero
          else (let off = (if v = 0 then prev_offset + prev_length else v - 1) in
            bind_res (read_offsets data False off len lens pos')
              (\<lambda>(offs, pos''). Inr (off # offs, pos''))))"

fun zip_entries :: "u64 list \<Rightarrow> u64 list \<Rightarrow> u64 list \<Rightarrow> u64 list \<Rightarrow> pmtiles_dir_entry list" where
  "zip_entries (t # ts) (r # rs) (l # ls) (off # offs) =
     \<lparr>tile_id = t, run_length = r, entry_length = l, entry_offset = off\<rparr> # zip_entries ts rs ls offs"
| "zip_entries _ _ _ _ = []"

definition decode_directory_bytes :: "bytes \<Rightarrow> pm_error + pmtiles_dir_entry list" where
  "decode_directory_bytes data =
     (case pmtiles_varint data 0 of
        None \<Rightarrow> Inl Invalid_Varint
      | Some (count, pos) \<Rightarrow>
          if unat count > length data then Inl (Invalid_Entry_Count count)
          else bind_res (read_column data (unat count) pos) (\<lambda>(deltas, pos1).
            bind_res (read_column data (unat count) pos1) (\<lambda>(runs, pos2).
            bind_res (read_column data (unat count) pos2) (\<lambda>(lens, pos3).
            bind_res (read_offsets data True 0 0 lens pos3) (\<lambda>(offs, pos4).
              Inr (zip_entries (tile_ids 0 deltas) runs lens offs))))))"

definition decode_pmtiles_directory :: "pm_env \<Rightarrow> bytes \<Rightarrow> u8 \<Rightarrow> pm_error + pmtiles_dir_entry list" where
  "decode_pmtiles_directory env raw compression =
     bind_res (pmtiles_decompress env raw compression) decode_directory_bytes"

definition in_context :: "string \<Rightarrow> pm_error + 'a \<Rightarrow> pm_error + 'a" where
  "in_context ctx r = (case r of Inl e \<Rightarrow> Inl (In_Context ctx e) | Inr x \<Rightarrow> Inr x)"

section \<open>Metadata\<close>

definition meta_text :: "meta_value \<Rightarrow> string" where
  "meta_text v =
     (case v of
        Meta_Text s \<Rightarrow> s
      | Meta_Other marshalled printed \<Rightarrow>
          (case marshalled of Some body \<Rightarrow> body | None \<Rightarrow> printed))"

definition pmtiles_metadata ::
    "pm_env \<Rightarrow> bytes \<Rightarrow> pmtiles_header \<Rightarrow> pm_error + (string \<times> string) list" where
  "pmtiles_metadata env data h =
     bind_res (in_context ''read PMTiles metadata''
                (pmtiles_range data (metadata_offset h) (metadata_length h)))
       (\<lambda>raw. if raw = [] then Inr []
         else bind_res (in_context ''decode PMTiles metadata''
                (pmtiles_decompress env raw (internal_compression h)))
           (\<lambda>decoded. case json_object env decoded of
              Inl e \<Rightarrow> Inl (In_Context ''decode PMTiles metadata JSON'' (Metadata_Error e))
            | Inr vs \<Rightarrow> Inr (fold (\<lambda>(k, v) m. AList.update k (meta_text v) m) vs [])))"

definition set_default :: "string \<Rightarrow> string \<Rightarrow> (string \<times> string) list \<Rightarrow> (string \<times> string) list" where
  "set_default k v m = (if map_of m k = None then AList.update k v m else m)"

fun join_comma :: "string list \<Rightarrow> string" where
  "join_comma [] = []"
| "join_comma [s] = s"
| "join_comma (s # t # ss) = s @ '','' @ join_comma (t # ss)"

definition header_bounds :: "pm_env \<Rightarrow> pmtiles_header \<Rightarrow> (string \<times> string) list \<Rightarrow> (string \<times> string) list" where
  "header_bounds env h m =
     (if map_of m ''bounds'' = None \<and> sint (min_lon_e7 h) \<le> sint (max_lon_e7 h)
         \<and> sint (min_lat_e7 h) \<le> sint (max_lat_e7 h)
      then AList.update ''bounds''
        (join_comma [format_e7 env (sint (min_lon_e7 h)), format_e7 env (sint (min_lat_e7 h)),
                     format_e7 env (sint (max_lon_e7 h)), format_e7 env (sint (max_lat_e7 h))]) m
      else m)"

definition complete_metadata :: "pm_env \<Rightarrow> pmtiles_header \<Rightarrow> (string \<times> string) list \<Rightarrow> (string \<times> string) list" where
  "complete_metadata env h m =
     header_bounds env h
       (set_default ''maxzoom'' (nat_digits (unat (max_zoom h)))
         (set_default ''minzoom'' (nat_digits (unat (min_zoom h)))
           (set_default ''format'' (pmtiles_tile_type_name (tile_type h))
             (AList.update ''datadock:tile_compression'' (pmtiles_compression_name (tile_compression h))
               (AList.update ''datadock:tile_scheme'' ''xyz''
                 (AList.update ''datadock:source_format'' ''pmtiles'' m))))))"

definition header_row :: row where
  "header_row = [''record_type'', ''name'', ''value'', ''zoom_level'', ''tile_column'', ''tile_row'',
     ''tile_size'', ''tile_sha256'', ''tile_data_base64'']"

definition metadata_rows :: "(string \<times> string) list \<Rightarrow> row list" where
  "metadata_rows m =
     map (\<lambda>k. [''metadata'', k, the (map_of m k), [], [], [], [], [], []]) (sort (map fst m))"

section \<open>The walk over the directories\<close>

record pm_state =
  tile_rows :: "row list"
  total_tiles :: u64
  seen_directories :: "u64 list"

definition tile_row_of :: "pm_env \<Rightarrow> bytes \<Rightarrow> nat \<Rightarrow> u32 \<Rightarrow> u32 \<Rightarrow> row" where
  "tile_row_of env tile z x y =
     [''tile'', [], [], nat_digits z, nat_digits (unat x), nat_digits (unat y),
      nat_digits (length tile), sha256_hex env tile, base64_encode env tile]"

fun expand_run :: "pm_env \<Rightarrow> bytes \<Rightarrow> u64 \<Rightarrow> nat \<Rightarrow> pm_error + row list" where
  "expand_run env tile tid 0 = Inr []"
| "expand_run env tile tid (Suc n) =
     (case pmtiles_id_to_zxy tid of
        None \<Rightarrow> Inl (Invalid_Tile_Id tid)
      | Some (z, x, y) \<Rightarrow>
          bind_res (expand_run env tile (tid + 1) n)
            (\<lambda>rows. Inr (tile_row_of env tile z x y # rows)))"

definition append_tiles ::
    "pm_env \<Rightarrow> bytes \<Rightarrow> pmtiles_header \<Rightarrow> pmtiles_dir_entry \<Rightarrow> pm_state \<Rightarrow> pm_error + pm_state" where
  "append_tiles env data h e st =
     (if unat (run_length e) > max_run_length then Inl (Run_Length_Exceeded (run_length e))
      else (let total = total_tiles st + run_length e in
        if unat total > max_total_tiles then Inl Too_Many_Tiles
        else bind_res (in_context ''read PMTiles tile data''
               (pmtiles_range data (tile_offset h + entry_offset e) (entry_length e)))
          (\<lambda>tile. bind_res (expand_run env tile (tile_id e) (unat (run_length e)))
            (\<lambda>rows. Inr (st\<lparr>tile_rows := tile_rows st @ rows, total_tiles := total\<rparr>)))))"

definition leaf_directory ::
    "pm_env \<Rightarrow> bytes \<Rightarrow> pmtiles_header \<Rightarrow> pmtiles_dir_entry \<Rightarrow> pm_error + pmtiles_dir_entry list" where
  "leaf_directory env data h e =
     bind_res (in_context ''read PMTiles leaf directory''
                (pmtiles_range data (leaf_offset h + entry_offset e) (entry_length e)))
       (\<lambda>leaf. in_context ''decode PMTiles leaf directory''
          (decode_pmtiles_directory env leaf (internal_compression h)))"

text \<open>
  \<^verbatim>\<open>appendEntries\<close>; \<open>fuel\<close> bounds the nesting depth of leaf directories and running out of it
  is the error \<open>Out_Of_Fuel\<close>, which \<open>append_entries_enough_fuel\<close> excludes.
\<close>

fun append_entries ::
    "pm_env \<Rightarrow> bytes \<Rightarrow> pmtiles_header \<Rightarrow> nat \<Rightarrow> pmtiles_dir_entry list \<Rightarrow> pm_state
     \<Rightarrow> pm_error + pm_state" where
  "append_entries env data h fuel [] st = Inr st"
| "append_entries env data h fuel (e # es) st =
     (if run_length e = 0 then
        (if entry_offset e \<in> set (seen_directories st) then append_entries env data h fuel es st
         else (case leaf_directory env data h e of
             Inl err \<Rightarrow> Inl err
           | Inr children \<Rightarrow>
               (case fuel of
                  0 \<Rightarrow> Inl Out_Of_Fuel
                | Suc fuel' \<Rightarrow>
                    bind_res (append_entries env data h fuel' children
                                (st\<lparr>seen_directories := entry_offset e # seen_directories st\<rparr>))
                      (\<lambda>st'. append_entries env data h fuel es st'))))
      else bind_res (append_tiles env data h e st)
             (\<lambda>st'. append_entries env data h fuel es st'))"

definition pmtiles_records :: "pm_env \<Rightarrow> bytes \<Rightarrow> pm_error + row list" where
  "pmtiles_records env data =
     bind_res (parse_pmtiles_header data) (\<lambda>h.
     bind_res (in_context ''read PMTiles root directory''
                (pmtiles_range data (root_offset h) (root_length h))) (\<lambda>root.
     bind_res (in_context ''decode PMTiles root directory''
                (decode_pmtiles_directory env root (internal_compression h))) (\<lambda>entries.
     bind_res (pmtiles_metadata env data h) (\<lambda>m0.
       let m = complete_metadata env h m0 in
       bind_res (append_entries env data h (Suc (length data)) entries
                  \<lparr>tile_rows = [], total_tiles = 0, seen_directories = []\<rparr>) (\<lambda>st.
         if tile_rows st = [] then Inl No_Tiles
         else Inr (header_row # metadata_rows m @ tile_rows st))))))"

end
