(* ===== verification/PmTilesCorrect.thy ===== *)
theory PmTilesCorrect
  imports PmTiles
begin

text \<open>
  Correctness of the PMTiles importer: the directory decoder inverts the v3 directory encoding
  (with the zero shorthand for contiguous tiles), the walk over the leaf directories never runs
  out of its fuel, and an accepted archive yields a bounded number of tile rows, each a real tile.
\<close>

named_theorems decode_simps

section \<open>The directory encoding\<close>

definition encode_column :: "u64 list \<Rightarrow> bytes" where
  "encode_column vs = concat (map (\<lambda>v. encode_varint (unat v)) vs)"

fun id_deltas :: "u64 \<Rightarrow> u64 list \<Rightarrow> u64 list" where
  "id_deltas prev [] = []"
| "id_deltas prev (t # ts) = (t - prev) # id_deltas t ts"

text \<open>The offset column: zero for a tile directly behind its predecessor, else the offset plus one.\<close>

fun offset_codes :: "bool \<Rightarrow> u64 \<Rightarrow> pmtiles_dir_entry list \<Rightarrow> u64 list" where
  "offset_codes first next_offset [] = []"
| "offset_codes first next_offset (e # es) =
     (if \<not> first \<and> entry_offset e = next_offset then 0 else entry_offset e + 1)
       # offset_codes False (entry_offset e + entry_length e) es"

definition encode_directory :: "pmtiles_dir_entry list \<Rightarrow> bytes" where
  "encode_directory es =
     encode_varint (length es) @ encode_column (id_deltas 0 (map tile_id es))
       @ encode_column (map run_length es) @ encode_column (map entry_length es)
       @ encode_column (offset_codes True 0 es)"

lemma encode_column_simps [simp, decode_simps]:
  "encode_column [] = []"
  "encode_column (v # vs) = encode_varint (unat v) @ encode_column vs"
  by (simp_all add: encode_column_def)

lemma length_id_deltas [simp]: "length (id_deltas prev ts) = length ts"
  by (induction ts arbitrary: prev) auto

lemma length_offset_codes [simp]: "length (offset_codes first n es) = length es"
  by (induction es arbitrary: first n) auto

lemma tile_ids_deltas [simp, decode_simps]: "tile_ids prev (id_deltas prev ts) = ts"
  by (induction ts arbitrary: prev) auto

lemma length_encode_column: "length vs \<le> length (encode_column vs)"
proof (induction vs)
  case (Cons v vs)
  have "0 < length (encode_varint (unat v))" by (rule encode_varint_length_pos)
  with Cons.IH show ?case
    unfolding encode_column_simps length_append list.size by linarith
qed simp

lemma read_column_encoded:
  "at_pos data pos (encode_column vs) \<Longrightarrow>
   read_column data (length vs) pos = Inr (vs, pos + length (encode_column vs))"
  by (induction vs arbitrary: pos) (auto simp: at_pos_append pm.read_encoded)

lemma read_offsets_encoded:
  assumes "at_pos data pos (encode_column (offset_codes first (po + pl) es))"
    and "\<forall>e\<in>set es. entry_offset e \<noteq> - 1"
  shows "read_offsets data first po pl (map entry_length es) pos
    = Inr (map entry_offset es, pos + length (encode_column (offset_codes first (po + pl) es)))"
  using assms
proof (induction es arbitrary: pos first po pl)
  case Nil
  then show ?case by simp
next
  case (Cons e es)
  let ?code = "if \<not> first \<and> entry_offset e = po + pl then 0 else entry_offset e + 1"
  from Cons.prems(2) have "entry_offset e + 1 \<noteq> 0"
    by (metis add.right_inverse add_left_cancel add.commute list.set_intros(1))
  moreover from Cons.prems(1) have v: "pmtiles_varint data pos
      = Some (?code, pos + length (encode_varint (unat ?code)))"
    and rest: "at_pos data (pos + length (encode_varint (unat ?code)))
      (encode_column (offset_codes False (entry_offset e + entry_length e) es))"
    by (simp_all only: offset_codes.simps encode_column_simps at_pos_append pm.read_encoded)
  moreover note Cons.IH [OF rest]
  ultimately show ?case using Cons.prems(2) by (auto simp: add.assoc Let_def)
qed

lemma zip_entries_maps [simp, decode_simps]:
  "zip_entries (map tile_id es) (map run_length es) (map entry_length es) (map entry_offset es) = es"
  by (induction es) auto

lemma at_pos_0_iff: "at_pos data 0 bs \<longleftrightarrow> prefix bs data"
  by (simp add: at_pos_def)

lemma decode_directory_encoded:
  assumes "length es < 2 ^ 64" and "\<forall>e\<in>set es. entry_offset e \<noteq> - 1"
  shows "decode_directory_bytes (encode_directory es @ post) = Inr es"
proof -
  let ?data = "encode_directory es @ post"
  let ?n = "word_of_nat (length es) :: u64"
  have n: "unat ?n = length es" using assms(1) by (simp only: unat_of_nat) simp
  let ?c1 = "encode_column (id_deltas 0 (map tile_id es))"
  let ?c2 = "encode_column (map run_length es)" and ?c3 = "encode_column (map entry_length es)"
  let ?c4 = "encode_column (offset_codes True 0 es)"
  have "at_pos ?data 0 (encode_varint (unat ?n) @ ?c1 @ ?c2 @ ?c3 @ ?c4)"
    unfolding at_pos_0_iff n by (simp add: encode_directory_def)
  then have v: "at_pos ?data 0 (encode_varint (unat ?n))"
    and c1: "at_pos ?data (length (encode_varint (unat ?n))) ?c1"
    and c2: "at_pos ?data (length (encode_varint (unat ?n)) + length ?c1) ?c2"
    and c3: "at_pos ?data (length (encode_varint (unat ?n)) + length ?c1 + length ?c2) ?c3"
    and c4: "at_pos ?data
      (length (encode_varint (unat ?n)) + length ?c1 + length ?c2 + length ?c3) ?c4"
    by (simp_all only: at_pos_append add_0 add.assoc)
  have "length es \<le> length ?data"
    using length_encode_column [of "map run_length es"] by (simp add: encode_directory_def)
  moreover have "read_offsets ?data True 0 0 (map entry_length es)
      (length (encode_varint (unat ?n)) + length ?c1 + length ?c2 + length ?c3)
    = Inr (map entry_offset es,
        length (encode_varint (unat ?n)) + length ?c1 + length ?c2 + length ?c3 + length ?c4)"
    using read_offsets_encoded [of ?data _ True 0 0 es] c4 assms(2) by simp
  ultimately show ?thesis
    using pm.read_encoded [OF v] read_column_encoded [OF c1] read_column_encoded [OF c2]
      read_column_encoded [OF c3]
    by (simp add: decode_directory_bytes_def n)
qed

section \<open>The walk: fuel\<close>

lemma in_context_simps [simp]:
  "in_context ctx (Inr x) = Inr x"
  "in_context ctx (Inl e) = Inl (In_Context ctx e)"
  by (simp_all add: in_context_def)

lemma in_context_Inr_iff: "in_context ctx r = Inr x \<longleftrightarrow> r = Inr x"
  by (cases r) simp_all

lemma in_context_not_fuel [simp]: "in_context ctx r \<noteq> Inl Out_Of_Fuel"
  by (cases r) simp_all

lemma expand_run_not_fuel: "expand_run env tile tid n \<noteq> Inl Out_Of_Fuel"
  by (induction n arbitrary: tid) (auto simp: bind_res_Inl_iff split: option.splits)

lemma append_tiles_not_fuel: "append_tiles env data h e st \<noteq> Inl Out_Of_Fuel"
  by (auto simp: append_tiles_def bind_res_Inl_iff expand_run_not_fuel Let_def)

lemma leaf_directory_not_fuel: "leaf_directory env data h e \<noteq> Inl Out_Of_Fuel"
  by (auto simp: leaf_directory_def bind_res_Inl_iff)

definition leaf_offsets :: "bytes \<Rightarrow> pmtiles_header \<Rightarrow> u64 set" where
  "leaf_offsets data h = {off. unat (leaf_offset h + off) \<le> length data}"

lemma leaf_directory_offset:
  "leaf_directory env data h e = Inr children \<Longrightarrow> entry_offset e \<in> leaf_offsets data h"
  by (auto simp: leaf_directory_def bind_res_Inr_iff in_context_Inr_iff pmtiles_range_def
      leaf_offsets_def split: if_splits)

lemma finite_leaf_offsets [simp]: "finite (leaf_offsets data h)"
  by (rule finite)

lemma card_leaf_offsets: "card (leaf_offsets data h) \<le> Suc (length data)"
proof -
  have "inj_on (\<lambda>off. unat (leaf_offset h + off)) (leaf_offsets data h)"
    by (auto simp: inj_on_def word_unat_eq_iff [symmetric])
  moreover have "(\<lambda>off. unat (leaf_offset h + off)) ` leaf_offsets data h \<subseteq> {.. length data}"
    by (auto simp: leaf_offsets_def)
  ultimately show ?thesis using card_inj_on_le [of _ _ "{.. length data}"] by fastforce
qed

lemma append_tiles_seen:
  "append_tiles env data h e st = Inr st' \<Longrightarrow> seen_directories st' = seen_directories st"
  by (auto simp: append_tiles_def bind_res_Inr_iff Let_def split: if_splits)

lemma append_entries_seen:
  "append_entries env data h fuel es st = Inr st' \<Longrightarrow>
   set (seen_directories st) \<subseteq> set (seen_directories st')"
proof (induction env data h fuel es st arbitrary: st' rule: append_entries.induct)
  case (2 env data h fuel e es st)
  show ?case
  proof (cases "run_length e = 0")
    case leaf: True
    show ?thesis
    proof (cases "entry_offset e \<in> set (seen_directories st)")
      case True
      with leaf "2.prems" "2.IH"(1) show ?thesis by simp
    next
      case False
      then show ?thesis
        using leaf "2.prems" "2.IH"(2,3)
        by (fastforce simp: bind_res_Inr_iff split: sum.splits nat.splits)
    qed
  next
    case False
    with "2.prems" obtain s where s: "append_tiles env data h e st = Inr s"
      "append_entries env data h fuel es s = Inr st'"
      by (auto simp: bind_res_Inr_iff)
    show ?thesis using "2.IH"(4) [OF False s(1) s(2)] append_tiles_seen [OF s(1)] by simp
  qed
qed simp

lemma append_entries_enough_fuel:
  "card (leaf_offsets data h - set (seen_directories st)) \<le> fuel \<Longrightarrow>
   append_entries env data h fuel es st \<noteq> Inl Out_Of_Fuel"
proof (induction env data h fuel es st rule: append_entries.induct)
  case (2 env data h fuel e es st)
  let ?open = "\<lambda>s. leaf_offsets data h - set (seen_directories s)"
  have shrink: "card (?open s') \<le> card (?open s)"
    if "set (seen_directories s) \<subseteq> set (seen_directories s')" for s s'
    using that by (intro card_mono) auto
  show ?case
  proof (cases "run_length e = 0")
    case leaf: True
    show ?thesis
    proof (cases "entry_offset e \<in> set (seen_directories st)")
      case True
      with leaf 2 show ?thesis by simp
    next
      case fresh: False
      show ?thesis
      proof (cases "leaf_directory env data h e")
        case (Inl err)
        with leaf fresh show ?thesis using leaf_directory_not_fuel by auto
      next
        case (Inr children)
        let ?st = "st\<lparr>seen_directories := entry_offset e # seen_directories st\<rparr>"
        have mem: "entry_offset e \<in> ?open st"
          using leaf_directory_offset [OF Inr] fresh by simp
        have "?open ?st = ?open st - {entry_offset e}" by auto
        then have card: "Suc (card (?open ?st)) = card (?open st)"
          using card_Suc_Diff1 [OF _ mem] by simp
        with "2.prems" obtain fuel' where fuel: "fuel = Suc fuel'" "card (?open ?st) \<le> fuel'"
        proof (cases fuel)
          case 0
          with "2.prems" card show ?thesis by linarith
        next
          case (Suc n)
          with "2.prems" card that show ?thesis by simp
        qed
        have "append_entries env data h fuel' children ?st \<noteq> Inl Out_Of_Fuel"
          using "2.IH"(2) leaf fresh Inr fuel by blast
        moreover have "append_entries env data h fuel es s \<noteq> Inl Out_Of_Fuel"
          if s: "append_entries env data h fuel' children ?st = Inr s" for s
        proof -
          have "card (?open s) \<le> card (?open ?st)"
            using append_entries_seen [OF s] by (rule shrink)
          with fuel card have "card (?open s) \<le> fuel" by simp
          then show ?thesis using "2.IH"(3) leaf fresh Inr fuel(1) s by blast
        qed
        ultimately show ?thesis
          using leaf fresh Inr fuel(1) by (auto simp: bind_res_Inl_iff)
      qed
    qed
  next
    case False
    then show ?thesis
      using 2 append_tiles_not_fuel append_tiles_seen by (fastforce simp: bind_res_Inl_iff)
  qed
qed simp

lemma append_entries_more_fuel:
  "append_entries env data h fuel es st \<noteq> Inl Out_Of_Fuel \<Longrightarrow> fuel \<le> fuel2 \<Longrightarrow>
   append_entries env data h fuel2 es st = append_entries env data h fuel es st"
proof (induction env data h fuel es st arbitrary: fuel2 rule: append_entries.induct)
  case (2 env data h fuel e es st)
  show ?case
  proof (cases "run_length e = 0")
    case leaf: True
    show ?thesis
    proof (cases "entry_offset e \<in> set (seen_directories st)")
      case True
      with leaf "2.prems"(1) "2.IH"(1) [OF leaf True _ "2.prems"(2)] show ?thesis by simp
    next
      case fresh: False
      show ?thesis
      proof (cases "leaf_directory env data h e")
        case (Inl err)
        with leaf fresh show ?thesis by simp
      next
        case (Inr children)
        let ?st = "st\<lparr>seen_directories := entry_offset e # seen_directories st\<rparr>"
        from "2.prems"(1) leaf fresh Inr obtain fuel' where fuel: "fuel = Suc fuel'"
          by (cases fuel) auto
        with "2.prems"(2) obtain fuel2' where fuel2: "fuel2 = Suc fuel2'" "fuel' \<le> fuel2'"
          by (cases fuel2) auto
        have "append_entries env data h fuel' children ?st \<noteq> Inl Out_Of_Fuel"
          using "2.prems"(1) leaf fresh Inr fuel by auto
        then have "append_entries env data h fuel2' children ?st
            = append_entries env data h fuel' children ?st"
          using "2.IH"(2) leaf fresh Inr fuel fuel2 by blast
        moreover have "append_entries env data h fuel2 es s = append_entries env data h fuel es s"
          if s: "append_entries env data h fuel' children ?st = Inr s" for s
        proof (rule "2.IH"(3) [OF leaf fresh Inr fuel s _ "2.prems"(2)])
          show "append_entries env data h fuel es s \<noteq> Inl Out_Of_Fuel"
            using "2.prems"(1) leaf fresh Inr fuel s by simp
        qed
        ultimately show ?thesis
          using leaf fresh Inr fuel fuel2
          by (cases "append_entries env data h fuel' children ?st") simp_all
      qed
    qed
  next
    case False
    show ?thesis
    proof (cases "append_tiles env data h e st")
      case (Inr s)
      then show ?thesis using "2.prems" "2.IH"(4) [OF False Inr, of fuel2] False by simp
    qed (use False in simp)
  qed
qed simp

section \<open>The walk: rows\<close>

text \<open>A row that shows a tile of the grid whose bytes are a part of the archive.\<close>

definition grid_row :: "pm_env \<Rightarrow> bytes \<Rightarrow> row \<Rightarrow> bool" where
  "grid_row env data r \<longleftrightarrow>
     (\<exists>tile z x y. sublist tile data \<and> r = tile_row_of env tile z x y
        \<and> z \<le> 30 \<and> unat x < 2 ^ z \<and> unat y < 2 ^ z)"

definition bounded_rows :: "pm_env \<Rightarrow> bytes \<Rightarrow> pm_state \<Rightarrow> bool" where
  "bounded_rows env data st \<longleftrightarrow>
     unat (total_tiles st) = length (tile_rows st) \<and> length (tile_rows st) \<le> max_total_tiles
     \<and> (\<forall>r\<in>set (tile_rows st). grid_row env data r)"

lemma expand_run_rows:
  "expand_run env tile tid n = Inr rows \<Longrightarrow> sublist tile data \<Longrightarrow>
   length rows = n \<and> (\<forall>r\<in>set rows. grid_row env data r)"
proof (induction n arbitrary: tid rows)
  case (Suc n)
  from Suc.prems(1) obtain z x y rest where zxy: "pmtiles_id_to_zxy tid = Some (z, x, y)"
    and rest: "expand_run env tile (tid + 1) n = Inr rest"
    and rows: "rows = tile_row_of env tile z x y # rest"
    by (auto simp: bind_res_Inr_iff split: option.splits)
  have "grid_row env data (tile_row_of env tile z x y)"
    unfolding grid_row_def using id_to_zxy_Some [OF zxy] Suc.prems(2) by blast
  with Suc.IH [OF rest Suc.prems(2)] rows show ?case by simp
qed simp

lemma pmtiles_range_sublist: "pmtiles_range data off len = Inr bs \<Longrightarrow> sublist bs data"
  by (auto simp: pmtiles_range_def split: if_splits
      intro: sublist_order.order_trans [OF sublist_take sublist_drop])

lemma append_tiles_bounded:
  assumes "bounded_rows env data st" and "append_tiles env data h e st = Inr st'"
  shows "bounded_rows env data st'"
proof -
  from assms(2) obtain tile rows where
    run: "unat (run_length e) \<le> max_run_length"
    and total: "unat (total_tiles st + run_length e) \<le> max_total_tiles"
    and tile: "pmtiles_range data (tile_offset h + entry_offset e) (entry_length e) = Inr tile"
    and rows: "expand_run env tile (tile_id e) (unat (run_length e)) = Inr rows"
    and st': "st' = st\<lparr>tile_rows := tile_rows st @ rows, total_tiles := total_tiles st + run_length e\<rparr>"
    by (auto simp: append_tiles_def bind_res_Inr_iff in_context_Inr_iff Let_def split: if_splits)
  have "unat (total_tiles st) + unat (run_length e) < 2 ^ 64"
    using assms(1) run by (simp add: bounded_rows_def max_total_tiles_def max_run_length_def)
  then have sum: "unat (total_tiles st + run_length e) = unat (total_tiles st) + unat (run_length e)"
    by (simp add: unat_plus_if')
  show ?thesis
    using assms(1) total sum expand_run_rows [OF rows pmtiles_range_sublist [OF tile]]
    by (auto simp: bounded_rows_def st')
qed

lemma append_entries_bounded:
  "append_entries env data h fuel es st = Inr st' \<Longrightarrow> bounded_rows env data st \<Longrightarrow>
   bounded_rows env data st'"
proof (induction env data h fuel es st arbitrary: st' rule: append_entries.induct)
  case (2 env data h fuel e es st)
  show ?case
  proof (cases "run_length e = 0")
    case leaf: True
    show ?thesis
    proof (cases "entry_offset e \<in> set (seen_directories st)")
      case True
      with leaf 2 show ?thesis by simp
    next
      case fresh: False
      let ?st = "st\<lparr>seen_directories := entry_offset e # seen_directories st\<rparr>"
      from leaf fresh "2.prems"(1) obtain children fuel' s where
        dir: "leaf_directory env data h e = Inr children" and fuel: "fuel = Suc fuel'"
        and s: "append_entries env data h fuel' children ?st = Inr s"
          "append_entries env data h fuel es s = Inr st'"
        by (auto simp: bind_res_Inr_iff split: sum.splits nat.splits)
      have "bounded_rows env data ?st" using "2.prems"(2) by (simp add: bounded_rows_def)
      then have "bounded_rows env data s" using "2.IH"(2) leaf fresh dir fuel s(1) by blast
      then show ?thesis using "2.IH"(3) leaf fresh dir fuel s by blast
    qed
  next
    case False
    with "2.prems"(1) obtain s where s: "append_tiles env data h e st = Inr s"
      "append_entries env data h fuel es s = Inr st'"
      by (auto simp: bind_res_Inr_iff)
    show ?thesis
      using "2.IH"(4) [OF False s] append_tiles_bounded [OF "2.prems"(2) s(1)] by simp
  qed
qed simp

section \<open>Writing an archive\<close>

fun le_bytes :: "nat \<Rightarrow> 'a::len word \<Rightarrow> bytes" where
  "le_bytes 0 w = []"
| "le_bytes (Suc n) w = ucast w # le_bytes n (drop_bit 8 w)"

lemma length_le_bytes [simp]: "length (le_bytes n w) = n"
  by (induction n arbitrary: w) auto

lemma bit_little_endian:
  "bit (little_endian (le_bytes k w) :: 'a::len word) n \<longleftrightarrow> n < 8 * k \<and> bit (w :: 'a word) n"
proof (induction k arbitrary: w n)
  case (Suc k)
  show ?case
  proof (cases "n < 8")
    case True
    then show ?thesis
      by (auto simp: bit_or_iff bit_push_bit_iff bit_ucast_iff dest: bit_imp_le_length)
  next
    case False
    then have "bit (drop_bit 8 w) (n - 8) \<longleftrightarrow> bit w n" by (simp add: bit_drop_bit_eq)
    moreover have "\<not> bit (ucast (ucast w :: u8) :: 'a word) n"
      using False by (auto simp: bit_ucast_iff dest: bit_imp_le_length)
    ultimately show ?thesis
      using False Suc.IH [of "drop_bit 8 w" "n - 8"]
      by (auto simp: bit_or_iff bit_push_bit_iff dest: bit_imp_le_length)
  qed
qed simp

lemma little_endian_le_bytes:
  "LENGTH('a::len) \<le> 8 * k \<Longrightarrow> little_endian (le_bytes k w) = (w :: 'a word)"
  by (rule bit_word_eqI) (simp add: bit_little_endian)

lemma at_pos_take: "at_pos data pos bs \<Longrightarrow> take (length bs) (drop pos data) = bs"
  by (auto simp: at_pos_def prefix_def)

lemma read64_at: "at_pos data pos (le_bytes 8 w) \<Longrightarrow> read64 data pos = w"
  using at_pos_take [of data pos "le_bytes 8 w"]
  by (simp add: read64_def little_endian_le_bytes)

lemma read32_at: "at_pos data pos (le_bytes 4 w) \<Longrightarrow> read32 data pos = w"
  using at_pos_take [of data pos "le_bytes 4 w"]
  by (simp add: read32_def little_endian_le_bytes)

definition header_bytes :: "pmtiles_header \<Rightarrow> bytes" where
  "header_bytes h =
     string_bytes ''PMTiles'' @ [3]
     @ le_bytes 8 (root_offset h) @ le_bytes 8 (root_length h)
     @ le_bytes 8 (metadata_offset h) @ le_bytes 8 (metadata_length h)
     @ le_bytes 8 (leaf_offset h) @ le_bytes 8 (leaf_length h)
     @ le_bytes 8 (tile_offset h) @ le_bytes 8 (tile_length h)
     @ replicate 25 0
     @ [internal_compression h, tile_compression h, tile_type h, min_zoom h, max_zoom h]
     @ le_bytes 4 (min_lon_e7 h) @ le_bytes 4 (min_lat_e7 h)
     @ le_bytes 4 (max_lon_e7 h) @ le_bytes 4 (max_lat_e7 h) @ replicate 9 0"

lemma length_header_bytes [simp]: "length (header_bytes h) = 127"
  by (simp add: header_bytes_def string_bytes_def)

lemma at_pos_prefix: "prefix bs data \<Longrightarrow> at_pos data 0 bs"
  by (simp add: at_pos_def)

lemma parse_header_prefix:
  assumes "prefix (header_bytes h) data"
  shows "parse_pmtiles_header data = Inr h"
proof -
  have at: "at_pos data 0 (header_bytes h)" using assms by (rule at_pos_prefix)
  note fields = at [unfolded header_bytes_def at_pos_append at_pos_Cons]
  have len: "length (string_bytes ''PMTiles'') = 7" by (simp add: string_bytes_def)
  have magic: "take 7 data = string_bytes ''PMTiles''"
    using at_pos_take [of data 0 "string_bytes ''PMTiles''"] fields len by simp
  have "127 \<le> length data" using prefix_length_le [OF assms] by simp
  then show ?thesis
    unfolding parse_pmtiles_header_def magic
    using fields by (simp add: len read64_at read32_at)
qed

definition archive_header :: "pmtiles_header \<Rightarrow> pmtiles_dir_entry list \<Rightarrow> bytes \<Rightarrow> pmtiles_header" where
  "archive_header h es tiles =
     h\<lparr>root_offset := 127, root_length := word_of_nat (length (encode_directory es)),
       metadata_offset := 127, metadata_length := 0,
       tile_offset := word_of_nat (127 + length (encode_directory es)),
       tile_length := word_of_nat (length tiles), internal_compression := 1\<rparr>"

definition write_archive :: "pmtiles_header \<Rightarrow> pmtiles_dir_entry list \<Rightarrow> bytes \<Rightarrow> bytes" where
  "write_archive h es tiles =
     header_bytes (archive_header h es tiles) @ encode_directory es @ tiles"

definition id_row :: "pm_env \<Rightarrow> bytes \<Rightarrow> u64 \<Rightarrow> row" where
  "id_row env tile tid =
     (case pmtiles_id_to_zxy tid of Some (z, x, y) \<Rightarrow> tile_row_of env tile z x y | None \<Rightarrow> [])"

definition entry_rows :: "pm_env \<Rightarrow> bytes \<Rightarrow> pmtiles_dir_entry \<Rightarrow> row list" where
  "entry_rows env tiles e =
     map (\<lambda>i. id_row env (take (unat (entry_length e)) (drop (unat (entry_offset e)) tiles))
                (tile_id e + word_of_nat i)) [0 ..< unat (run_length e)]"

text \<open>An entry whose run is within the limits, whose ids exist and whose bytes lie in the tile data.\<close>

definition entry_ok :: "bytes \<Rightarrow> pmtiles_dir_entry \<Rightarrow> bool" where
  "entry_ok tiles e \<longleftrightarrow>
     run_length e \<noteq> 0 \<and> unat (run_length e) \<le> max_run_length
     \<and> unat (entry_offset e) + unat (entry_length e) \<le> length tiles
     \<and> unat (tile_id e) + unat (run_length e) \<le> level_base 31"

lemma level_base_31: "level_base 31 < 2 ^ 64"
  using three_level_base [of 31] four_power_bound [of 31] by simp

lemma expand_run_complete:
  "unat tid + n \<le> level_base 31 \<Longrightarrow>
   expand_run env tile tid n = Inr (map (\<lambda>i. id_row env tile (tid + word_of_nat i)) [0 ..< n])"
proof (induction n arbitrary: tid)
  case (Suc n)
  then obtain z x y where zxy: "pmtiles_id_to_zxy tid = Some (z, x, y)"
    using id_to_zxy_None_iff [of tid] by (cases "pmtiles_id_to_zxy tid") auto
  have "unat (tid + 1) + n \<le> level_base 31"
    using Suc.prems level_base_31 by (simp add: unat_plus_if')
  note IH = Suc.IH [OF this]
  have "[0 ..< Suc n] = 0 # map Suc [0 ..< n]"
    by (simp add: upt_conv_Cons map_Suc_upt del: upt_Suc)
  then have "map (\<lambda>i. id_row env tile (tid + word_of_nat i)) [0 ..< Suc n]
      = id_row env tile tid # map (\<lambda>i. id_row env tile (tid + 1 + word_of_nat i)) [0 ..< n]"
    by (simp add: add.assoc del: upt_Suc)
  with zxy IH show ?case by (simp add: id_row_def del: upt_Suc)
qed simp

lemma append_entries_complete:
  assumes "\<forall>e\<in>set es. entry_ok tiles e"
    and "unat (total_tiles st) + sum_list (map (\<lambda>e. unat (run_length e)) es) \<le> max_total_tiles"
    and "data = pre @ tiles" "length data < 2 ^ 64" "tile_offset h = word_of_nat (length pre)"
  shows "\<exists>total. append_entries env data h fuel es st
    = Inr (st\<lparr>tile_rows := tile_rows st @ concat (map (entry_rows env tiles) es), total_tiles := total\<rparr>)"
  using assms(1,2)
proof (induction es arbitrary: st)
  case Nil
  show ?case by (rule exI [of _ "total_tiles st"]) simp
next
  case (Cons e es)
  then have ok: "entry_ok tiles e" by simp
  let ?total = "total_tiles st + run_length e"
  let ?rows = "entry_rows env tiles e"
  let ?tile = "take (unat (entry_length e)) (drop (unat (entry_offset e)) tiles)"
  have total: "unat ?total = unat (total_tiles st) + unat (run_length e)"
    using Cons.prems(2) by (simp add: unat_plus_if' max_total_tiles_def)
  have "unat (word_of_nat (length pre) :: u64) = length pre"
    using assms(3,4) by (simp only: unat_of_nat) simp
  moreover have "length pre + unat (entry_offset e) < 2 ^ 64"
    using ok assms(3,4) by (simp add: entry_ok_def)
  ultimately have "unat (tile_offset h + entry_offset e) = length pre + unat (entry_offset e)"
    by (simp add: assms(5) unat_plus_if')
  then have tile: "pmtiles_range data (tile_offset h + entry_offset e) (entry_length e) = Inr ?tile"
    using ok assms(3) by (auto simp: pmtiles_range_def entry_ok_def)
  have "expand_run env ?tile (tile_id e) (unat (run_length e)) = Inr ?rows"
    using ok by (simp add: entry_ok_def entry_rows_def expand_run_complete)
  then have step: "append_tiles env data h e st
      = Inr (st\<lparr>tile_rows := tile_rows st @ ?rows, total_tiles := ?total\<rparr>)"
    using ok Cons.prems(2) total tile
    by (simp add: append_tiles_def entry_ok_def Let_def)
  have "\<exists>t. append_entries env data h fuel es
        (st\<lparr>tile_rows := tile_rows st @ ?rows, total_tiles := ?total\<rparr>)
      = Inr (st\<lparr>tile_rows := tile_rows st @ ?rows @ concat (map (entry_rows env tiles) es),
               total_tiles := t\<rparr>)"
    using Cons.IH [of "st\<lparr>tile_rows := tile_rows st @ ?rows, total_tiles := ?total\<rparr>"]
      Cons.prems total by simp
  with step ok show ?case by (simp add: entry_ok_def)
qed

section \<open>Metadata\<close>

lemma map_of_set_default [simp]: "k \<noteq> k' \<Longrightarrow> map_of (set_default k v m) k' = map_of m k'"
  by (simp add: set_default_def AList.update_conv')

lemma map_of_header_bounds [simp]: "k \<noteq> ''bounds'' \<Longrightarrow> map_of (header_bounds env h m) k = map_of m k"
  by (simp add: header_bounds_def AList.update_conv')

lemma pmtiles_records_write_archive:
  assumes "es \<noteq> []" and ok: "\<forall>e\<in>set es. entry_ok tiles e"
    and total: "sum_list (map (\<lambda>e. unat (run_length e)) es) \<le> max_total_tiles"
    and size: "length (write_archive h es tiles) < 2 ^ 64"
  shows "pmtiles_records env (write_archive h es tiles)
    = Inr (header_row # metadata_rows (complete_metadata env h [])
             @ concat (map (entry_rows env tiles) es))"
proof -
  let ?h = "archive_header h es tiles" and ?data = "write_archive h es tiles"
  let ?dir = "encode_directory es"
  have len: "length ?data = 127 + length ?dir + length tiles" by (simp add: write_archive_def)
  have header: "parse_pmtiles_header ?data = Inr ?h"
    by (rule parse_header_prefix) (simp add: write_archive_def)
  have dir_len: "unat (word_of_nat (length ?dir) :: u64) = length ?dir"
    using size len by (simp only: unat_of_nat) simp
  have root: "pmtiles_range ?data (root_offset ?h) (root_length ?h) = Inr ?dir"
    using len by (simp add: pmtiles_range_def archive_header_def dir_len write_archive_def)
  have "length es \<le> length ?dir"
    using length_encode_column [of "map run_length es"] by (simp add: encode_directory_def)
  then have "length es < 2 ^ 64" using size len by simp
  moreover have "\<forall>e\<in>set es. entry_offset e \<noteq> - 1"
  proof
    fix e assume "e \<in> set es"
    with ok have "unat (entry_offset e) \<le> length tiles" by (auto simp: entry_ok_def)
    with size len have "unat (entry_offset e) < 2 ^ 64 - 1" by simp
    then show "entry_offset e \<noteq> - 1" by (auto simp: unsigned_minus_1_eq_mask mask_eq_exp_minus_1)
  qed
  ultimately have dir: "decode_pmtiles_directory env ?dir (internal_compression ?h) = Inr es"
    using decode_directory_encoded [of es "[]"]
    by (simp add: decode_pmtiles_directory_def pmtiles_decompress_def archive_header_def)
  have meta: "pmtiles_metadata env ?data ?h = Inr []"
    using len by (simp add: pmtiles_metadata_def pmtiles_range_def archive_header_def)
  have complete: "complete_metadata env ?h [] = complete_metadata env h []"
    by (simp add: complete_metadata_def header_bounds_def archive_header_def)
  obtain t where walk: "append_entries env ?data ?h (Suc (length ?data)) es
      \<lparr>tile_rows = [], total_tiles = 0, seen_directories = []\<rparr>
    = Inr \<lparr>tile_rows = concat (map (entry_rows env tiles) es), total_tiles = t,
           seen_directories = []\<rparr>"
    using append_entries_complete [of es tiles
        "\<lparr>tile_rows = [], total_tiles = 0, seen_directories = []\<rparr>" ?data
        "header_bytes ?h @ ?dir" ?h env "Suc (length ?data)"] ok total size len
    by (auto simp: write_archive_def archive_header_def)
  have "concat (map (entry_rows env tiles) es) \<noteq> []"
    using \<open>es \<noteq> []\<close> ok by (cases es) (auto simp: entry_rows_def entry_ok_def unat_eq_0)
  then show ?thesis
    by (simp add: pmtiles_records_def header root dir meta complete walk Let_def)
qed

section \<open>Properties\<close>

text \<open>
  Claim C2: importing an archive returns, row for row, what was written into it.  For every
  archive with an uncompressed root directory of any number of tile entries (each run within
  \<^verbatim>\<open>maxPMTilesRunLength\<close>, all runs together within \<^verbatim>\<open>maxPMTilesTotalTiles\<close>, the ids those of
  existing tiles, the bytes inside the tile data) the importer parses the header, decodes the
  directory, and yields the column names, the completed metadata and one row per tile id of every
  run, in order, with the bytes of its entry.
\<close>

theorem pmtiles_import_round_trip:
  assumes "es \<noteq> []" and ok: "\<forall>e\<in>set es. entry_ok tiles e"
    and total: "sum_list (map (\<lambda>e. unat (run_length e)) es) \<le> max_total_tiles"
    and size: "length (write_archive h es tiles) < 2 ^ 64"
  shows "pmtiles_records env (write_archive h es tiles)
    = Inr (header_row # metadata_rows (complete_metadata env h [])
             @ concat (map (entry_rows env tiles) es))"
  using assms by (rule pmtiles_records_write_archive)

definition sample_env :: pm_env where
  "sample_env = \<lparr>gzip_open = \<lambda>_. Inl ''gzip: invalid header'', brotli_open = \<lambda>_. ([], None),
     zstd_open = \<lambda>_. Inl ''invalid input: magic number mismatch'',
     json_object = \<lambda>_. Inr [], sha256_hex = \<lambda>bs. nat_digits (length bs),
     base64_encode = \<lambda>bs. map (\<lambda>b. char_of (unat b)) bs, format_e7 = \<lambda>i. nat_digits (nat i)\<rparr>"

definition sample_entries :: "pmtiles_dir_entry list" where
  "sample_entries =
     [\<lparr>tile_id = 0, run_length = 2, entry_length = 3, entry_offset = 0\<rparr>,
      \<lparr>tile_id = 7, run_length = 1, entry_length = 2, entry_offset = 3\<rparr>]"

definition sample_header :: pmtiles_header where
  "sample_header =
     \<lparr>root_offset = 0, root_length = 0, metadata_offset = 0, metadata_length = 0, leaf_offset = 0,
      leaf_length = 0, tile_offset = 0, tile_length = 0, internal_compression = 1,
      tile_compression = 2, tile_type = 1, min_zoom = 0, max_zoom = 2, min_lon_e7 = 0,
      min_lat_e7 = 0, max_lon_e7 = 0, max_lat_e7 = 0\<rparr>"

theorem pmtiles_import_round_trip_witness:
  "pmtiles_records sample_env (write_archive sample_header sample_entries [1, 2, 3, 4, 5])
    = Inr (header_row # metadata_rows (complete_metadata sample_env sample_header [])
             @ concat (map (entry_rows sample_env [1, 2, 3, 4, 5]) sample_entries))"
proof (rule pmtiles_import_round_trip)
  show "\<forall>e\<in>set sample_entries. entry_ok [1, 2, 3, 4, 5] e"
    by (simp add: sample_entries_def entry_ok_def max_run_length_def level_base_def)
  show "length (write_archive sample_header sample_entries [1, 2, 3, 4, 5]) < 2 ^ 64"
    by (simp add: write_archive_def sample_entries_def encode_directory_def encode_varint.simps)
qed (simp_all add: sample_entries_def max_total_tiles_def)

text \<open>
  Claim C5: the directory decoder inverts the v3 directory encoding, the shorthand for contiguous
  tiles included, whatever follows the directory and in whatever order the ids and offsets come
  (the 64-bit deltas wrap).  The one offset the format cannot express is excluded.
\<close>

theorem directory_round_trip:
  assumes "length es < 2 ^ 64" and "\<forall>e\<in>set es. entry_offset e \<noteq> - 1"
  shows "decode_directory_bytes (encode_directory es @ post) = Inr es"
  using assms by (rule decode_directory_encoded)

theorem directory_round_trip_witness:
  "decode_directory_bytes (encode_directory (rev sample_entries) @ [0]) = Inr (rev sample_entries)"
  by (rule directory_round_trip) (simp_all add: sample_entries_def)

text \<open>
  Claim C3: on every input, however crafted, the importer either fails with an error of the format
  or returns the column names, metadata rows and at most five million tile rows, each with a zoom
  level, column and row of the grid and with bytes of the archive; the 64-bit tile count does not
  wrap, so the limit cannot be passed by overflow.
\<close>

theorem pmtiles_import_bounded:
  "case pmtiles_records env data of
     Inl e \<Rightarrow> e \<noteq> Out_Of_Fuel
   | Inr rows \<Rightarrow>
       (\<exists>m tiles. rows = header_row # metadata_rows m @ tiles \<and> tiles \<noteq> []
          \<and> map_of m ''datadock:tile_scheme'' = Some ''xyz''
          \<and> length tiles \<le> 5000000 \<and> list_all (grid_row env data) tiles)"
proof (cases "pmtiles_records env data")
  case (Inl e)
  have not_fuel: "r = Inl Out_Of_Fuel \<Longrightarrow> False" if "append_entries env data h (Suc (length data)) es
      \<lparr>tile_rows = [], total_tiles = 0, seen_directories = []\<rparr> = r" for r h es
    using append_entries_enough_fuel [of data h
        "\<lparr>tile_rows = [], total_tiles = 0, seen_directories = []\<rparr>" "Suc (length data)" env es]
      card_leaf_offsets [of data h] that by simp
  have "parse_pmtiles_header data \<noteq> Inl Out_Of_Fuel"
    by (simp add: parse_pmtiles_header_def)
  moreover have "pmtiles_metadata env data h \<noteq> Inl Out_Of_Fuel" for h
    by (auto simp: pmtiles_metadata_def bind_res_Inl_iff split: sum.splits)
  ultimately have "e \<noteq> Out_Of_Fuel"
    using Inl not_fuel
    by (auto simp: pmtiles_records_def bind_res_Inl_iff Let_def split: if_splits)
  with Inl show ?thesis by simp
next
  case (Inr rows)
  then obtain h es m0 st where walk: "append_entries env data h (Suc (length data)) es
      \<lparr>tile_rows = [], total_tiles = 0, seen_directories = []\<rparr> = Inr st"
    and rows: "tile_rows st \<noteq> []"
      "rows = header_row # metadata_rows (complete_metadata env h m0) @ tile_rows st"
    by (auto simp: pmtiles_records_def bind_res_Inr_iff Let_def split: if_splits)
  have "bounded_rows env data st"
    using append_entries_bounded [OF walk] by (simp add: bounded_rows_def)
  moreover have "map_of (complete_metadata env h m0) ''datadock:tile_scheme'' = Some ''xyz''"
    by (simp add: complete_metadata_def AList.update_conv')
  ultimately show ?thesis
    using Inr rows by (auto simp: bounded_rows_def max_total_tiles_def list_all_iff)
qed

text \<open>
  Claim C4: the walk over the leaf directories ends.  Directories that point at each other cannot
  make it recurse for ever, since every nested directory starts at an offset not visited before:
  a nesting depth of one more than the length of the archive is always enough, and allowing more
  does not change the result.
\<close>

theorem pmtiles_walk_terminates:
  "append_entries env data h (Suc (length data) + k) es
     \<lparr>tile_rows = [], total_tiles = 0, seen_directories = []\<rparr>
   = append_entries env data h (Suc (length data)) es
       \<lparr>tile_rows = [], total_tiles = 0, seen_directories = []\<rparr>
   \<and> append_entries env data h (Suc (length data) + k) es
       \<lparr>tile_rows = [], total_tiles = 0, seen_directories = []\<rparr> \<noteq> Inl Out_Of_Fuel"
proof -
  let ?st = "\<lparr>tile_rows = [], total_tiles = 0, seen_directories = []\<rparr>"
  have "card (leaf_offsets data h - set (seen_directories ?st)) \<le> Suc (length data)"
    using card_leaf_offsets [of data h] by simp
  note enough = append_entries_enough_fuel [OF this, of env es]
  from append_entries_more_fuel [OF this, of "Suc (length data) + k"] enough
  show ?thesis by simp
qed

end
