(* ===== verification/GoText.thy ===== *)
theory GoText
  imports GoPrelude
begin

text \<open>
  The rest of the text functions of the Go standard library that the modelled code calls:
  \<^verbatim>\<open>strings.Split\<close>, \<^verbatim>\<open>Join\<close>, \<^verbatim>\<open>ReplaceAll\<close> of one byte, \<^verbatim>\<open>Contains\<close> and \<^verbatim>\<open>strconv.Atoi\<close>.
\<close>

named_theorems split_simps

section \<open>Splitting and joining\<close>

fun split_on :: "char \<Rightarrow> string \<Rightarrow> string list" where
  "split_on c [] = [[]]"
| "split_on c (x # xs) =
     (if x = c then [] # split_on c xs
      else (case split_on c xs of [] \<Rightarrow> [[x]] | p # ps \<Rightarrow> (x # p) # ps))"

fun join_with :: "string \<Rightarrow> string list \<Rightarrow> string" where
  "join_with sep [] = []"
| "join_with sep [s] = s"
| "join_with sep (s # t # ss) = s @ sep @ join_with sep (t # ss)"

definition replace_byte :: "char \<Rightarrow> string \<Rightarrow> string \<Rightarrow> string" where
  "replace_byte c r s = concat (map (\<lambda>x. if x = c then r else [x]) s)"

fun contains_sub :: "string \<Rightarrow> string \<Rightarrow> bool" where
  "contains_sub sub [] = (sub = [])"
| "contains_sub sub (x # xs) = (prefix sub (x # xs) \<or> contains_sub sub xs)"

lemma split_on_nonempty [simp]: "split_on c s \<noteq> []"
  by (induction s) (auto split: list.splits)

lemma split_on_plain: "c \<notin> set s \<Longrightarrow> split_on c s = [s]"
  by (induction s) auto

lemma split_on_append:
  "c \<notin> set p \<Longrightarrow> split_on c (p @ c # s) = p # split_on c s"
  by (induction p) auto

lemma split_on_join [split_simps]:
  "ps \<noteq> [] \<Longrightarrow> \<forall>p\<in>set ps. c \<notin> set p \<Longrightarrow> split_on c (join_with [c] ps) = ps"
proof (induction ps)
  case (Cons p ps)
  then show ?case by (cases ps) (auto simp: split_on_plain split_on_append)
qed simp

lemma join_split_on [split_simps]: "join_with [c] (split_on c s) = s"
proof (induction s)
  case (Cons x xs)
  obtain p ps where "split_on c xs = p # ps" using split_on_nonempty by (cases "split_on c xs") auto
  with Cons show ?case by (cases ps) auto
qed simp

lemma split_on_parts: "p \<in> set (split_on c s) \<Longrightarrow> c \<notin> set p"
proof (induction s arbitrary: p)
  case (Cons x xs)
  then show ?case by (fastforce split: if_splits list.splits)
qed simp

lemma contains_sub_iff: "contains_sub sub s \<longleftrightarrow> sublist sub s"
  by (induction s) (auto simp: sublist_Cons_right)

lemma replace_byte_simps [simp]:
  "replace_byte c r [] = []"
  "replace_byte c r (x # xs) = (if x = c then r else [x]) @ replace_byte c r xs"
  by (simp_all add: replace_byte_def)

section \<open>Integers in text\<close>

text \<open>\<^verbatim>\<open>strconv.Atoi\<close> on a 64-bit platform: an optional sign and decimal digits, in range.\<close>

definition max_int64 :: int where "max_int64 = 9223372036854775807"

definition unsigned_digits :: "string \<Rightarrow> nat option" where
  "unsigned_digits s = (if s \<noteq> [] \<and> list_all is_digit_byte s then Some (parse_digits s) else None)"

definition in_int64 :: "int \<Rightarrow> int option" where
  "in_int64 i = (if - max_int64 - 1 \<le> i \<and> i \<le> max_int64 then Some i else None)"

definition atoi :: "string \<Rightarrow> int option" where
  "atoi s =
     (if s \<noteq> [] \<and> hd s = CHR ''-'' then Option.bind (unsigned_digits (tl s)) (\<lambda>n. in_int64 (- int n))
      else if s \<noteq> [] \<and> hd s = CHR ''+'' then Option.bind (unsigned_digits (tl s)) (\<lambda>n. in_int64 (int n))
      else Option.bind (unsigned_digits s) (\<lambda>n. in_int64 (int n)))"

lemma list_all_digits_nat_digits [simp]: "list_all is_digit_byte (nat_digits n)"
proof (induction n rule: nat_digits.induct)
  case (1 n)
  have "is_digit_byte (char_of (48 + k))" if "k < 10" for k :: nat
    using that by (simp add: is_digit_byte_def in_range_def of_char_of_small)
  from this [of n] this [of "n mod 10"] 1 show ?case
    by (subst nat_digits.simps) auto
qed

lemma hd_nat_digits_not_sign: "hd (nat_digits n) \<noteq> CHR ''-''" "hd (nat_digits n) \<noteq> CHR ''+''"
proof -
  have "is_digit_byte (hd (nat_digits n))"
    using list_all_digits_nat_digits [of n] nat_digits_nonempty [of n]
    by (cases "nat_digits n") auto
  then show "hd (nat_digits n) \<noteq> CHR ''-''" "hd (nat_digits n) \<noteq> CHR ''+''"
    by (auto simp: is_digit_byte_def in_range_def)
qed

lemma atoi_nat_digits: "int n \<le> max_int64 \<Longrightarrow> atoi (nat_digits n) = Some (int n)"
  using hd_nat_digits_not_sign [of n]
  by (simp add: atoi_def unsigned_digits_def in_int64_def max_int64_def)

section \<open>Text without white space\<close>

definition is_graphic_byte :: "char \<Rightarrow> bool" where
  "is_graphic_byte c \<longleftrightarrow> in_range (CHR ''!'') (CHR ''~'') c"

lemma space_runes_not_graphic:
  "list_all (\<lambda>p. \<not> is_graphic_byte (hd p) \<and> \<not> is_graphic_byte (last p)) space_runes"
  by code_simp

lemma strip_graphic:
  assumes "list_all is_graphic_byte s" and "list_all (\<lambda>p. \<not> is_graphic_byte (hd p)) ps"
  shows "strip ps s = s"
  unfolding strip_fixed_iff
proof (intro ballI impI notI)
  fix p assume p: "p \<in> set ps" "p \<noteq> []" "prefix p s"
  then have "hd p \<in> set s" using set_mono_prefix [OF p(3)] by (meson hd_in_set in_mono)
  with assms p show False by (auto simp: list_all_iff)
qed

lemma trim_space_graphic [trim_simps]:
  assumes "list_all is_graphic_byte s"
  shows "trim_space s = s"
proof -
  have "trim_left s = s"
    unfolding trim_left_def
    using assms space_runes_not_graphic by (intro strip_graphic) (auto simp: list_all_iff)
  moreover have "strip (map rev space_runes) (rev s) = rev s"
    using assms space_runes_not_graphic Nil_notin_space_runes
    by (intro strip_graphic) (auto simp: list_all_iff hd_rev)
  ultimately show ?thesis by (simp add: trim_space_def trim_right_def)
qed

lemma digit_graphic: "is_digit_byte c \<Longrightarrow> is_graphic_byte c"
  by (auto simp: is_digit_byte_def is_graphic_byte_def in_range_def)

lemma nat_digits_graphic [simp]: "list_all is_graphic_byte (nat_digits n)"
  using list_all_digits_nat_digits [of n] by (auto simp: list_all_iff digit_graphic)

lemma trim_space_nat_digits [simp, trim_simps]: "trim_space (nat_digits n) = nat_digits n"
  by (simp add: trim_space_graphic)

lemma find_SomeD: "find P xs = Some x \<Longrightarrow> x \<in> set xs \<and> P x"
  by (auto simp: find_Some_iff)

end
