(* ===== verification/DbNames.thy ===== *)
theory DbNames
  imports GoText
begin

text \<open>
  Names of database objects: validation and quoting of identifiers (\<^verbatim>\<open>db.go\<close>, the dialect methods
  of \<^verbatim>\<open>connections.go\<close>) and the text-level guard over the internal \<^verbatim>\<open>__datadock_\<close> tables.  The
  correctness statement reads a quoted identifier back the way an SQL lexer does.
\<close>

section \<open>Identifiers\<close>

definition is_name_byte :: "char \<Rightarrow> bool" where
  "is_name_byte c \<longleftrightarrow> is_lower_byte c \<or> is_upper_byte c \<or> is_digit_byte c \<or> c = CHR ''_''"

definition is_valid_identifier :: "string \<Rightarrow> bool" where
  "is_valid_identifier name \<longleftrightarrow> name \<noteq> [] \<and> list_all is_name_byte name"

definition sanitize_identifier :: "string \<Rightarrow> string" where
  "sanitize_identifier name = filter is_name_byte name"

definition is_data_dock_system_object :: "string \<Rightarrow> bool" where
  "is_data_dock_system_object name \<longleftrightarrow> prefix ''__datadock_'' (to_lower (trim_space name))"

definition references_data_dock_system_table :: "string \<Rightarrow> bool" where
  "references_data_dock_system_table sql \<longleftrightarrow> contains_sub ''__datadock_'' (to_lower sql)"

text \<open>\<open>is_admin\<close> is the value of \<^verbatim>\<open>isAdminAuthenticated\<close> for the session of the request.\<close>

definition blocked_for_system_table_access :: "bool \<Rightarrow> string \<Rightarrow> bool" where
  "blocked_for_system_table_access is_admin sql \<longleftrightarrow>
     references_data_dock_system_table sql \<and> \<not> is_admin"

definition normalize_db_object_kind :: "string \<Rightarrow> string" where
  "normalize_db_object_kind s =
     (if contains_sub ''view'' (to_lower (trim_space s)) then ''view'' else ''table'')"

definition normalize_catalog_object_kind :: "string \<Rightarrow> string option" where
  "normalize_catalog_object_kind s =
     (let t = to_lower (trim_space s) in
      if contains_sub ''view'' t then Some ''view''
      else if t = ''table'' \<or> contains_sub ''base table'' t then Some ''table''
      else None)"

section \<open>Quoting\<close>

definition quote_name :: "string \<Rightarrow> string" where
  "quote_name name = [CHR 0x22] @ replace_byte (CHR 0x22) [CHR 0x22, CHR 0x22] name @ [CHR 0x22]"

definition quote_ident_part :: "string \<Rightarrow> string \<Rightarrow> string" where
  "quote_ident_part dialect name =
     (if dialect = ''MariaDB/MySQL'' then
        [CHR 0x60] @ replace_byte (CHR 0x60) [CHR 0x60, CHR 0x60] name @ [CHR 0x60]
      else if dialect = ''Microsoft SQL Server'' then
        ''['' @ replace_byte (CHR '']'') '']]'' name @ '']''
      else quote_name name)"

definition quote_ident :: "string \<Rightarrow> string \<Rightarrow> string" where
  "quote_ident dialect name =
     (let parts = split_on (CHR ''.'') name;
          quoted = map (quote_ident_part dialect) (filter (\<lambda>p. p \<noteq> []) (map trim_space parts)) in
      if length parts > 1 \<and> quoted \<noteq> [] then join_with ''.'' quoted
      else quote_ident_part dialect name)"

definition placeholder :: "string \<Rightarrow> nat \<Rightarrow> string" where
  "placeholder dialect pos =
     (if dialect = ''PostgreSQL'' then ''$'' @ nat_digits pos
      else if dialect = ''Microsoft SQL Server'' then ''@p'' @ nat_digits pos
      else ''?'')"

section \<open>Reading a quoted identifier back\<close>

text \<open>Behind the opening delimiter: a doubled closing delimiter stands for itself.\<close>

fun read_delimited :: "char \<Rightarrow> string \<Rightarrow> (string \<times> string) option" where
  "read_delimited c [] = None"
| "read_delimited c (x # xs) =
     (if x \<noteq> c then map_option (apfst ((#) x)) (read_delimited c xs)
      else (case xs of
          [] \<Rightarrow> Some ([], [])
        | y # ys \<Rightarrow> if y = c then map_option (apfst ((#) c)) (read_delimited c ys) else Some ([], xs)))"

definition open_delimiter :: "string \<Rightarrow> char" where
  "open_delimiter dialect =
     (if dialect = ''MariaDB/MySQL'' then CHR 0x60
      else if dialect = ''Microsoft SQL Server'' then CHR ''['' else CHR 0x22)"

definition close_delimiter :: "string \<Rightarrow> char" where
  "close_delimiter dialect =
     (if dialect = ''MariaDB/MySQL'' then CHR 0x60
      else if dialect = ''Microsoft SQL Server'' then CHR '']'' else CHR 0x22)"

definition read_ident :: "string \<Rightarrow> string \<Rightarrow> (string \<times> string) option" where
  "read_ident dialect s =
     (case s of [] \<Rightarrow> None
      | x # xs \<Rightarrow> if x = open_delimiter dialect then read_delimited (close_delimiter dialect) xs else None)"

text \<open>A dotted name: quoted identifiers with a dot between them.\<close>

fun read_idents :: "nat \<Rightarrow> string \<Rightarrow> string \<Rightarrow> (string list \<times> string) option" where
  "read_idents 0 dialect s = None"
| "read_idents (Suc n) dialect s =
     (case read_ident dialect s of
        None \<Rightarrow> None
      | Some (name, rest) \<Rightarrow>
          (if rest \<noteq> [] \<and> hd rest = CHR ''.''
           then map_option (apfst ((#) name)) (read_idents n dialect (tl rest))
           else Some ([name], rest)))"

lemma quote_ident_part_eq:
  "quote_ident_part dialect name =
     open_delimiter dialect # replace_byte (close_delimiter dialect)
       [close_delimiter dialect, close_delimiter dialect] name @ [close_delimiter dialect]"
  by (simp add: quote_ident_part_def open_delimiter_def close_delimiter_def quote_name_def)

lemma read_delimited_quoted:
  "(rest = [] \<or> hd rest \<noteq> c) \<Longrightarrow>
   read_delimited c (replace_byte c [c, c] name @ [c] @ rest) = Some (name, rest)"
  by (induction name) (auto split: list.splits)

lemma read_ident_quoted:
  assumes "rest = [] \<or> hd rest \<noteq> close_delimiter dialect"
  shows "read_ident dialect (quote_ident_part dialect name @ rest) = Some (name, rest)"
  using read_delimited_quoted [OF assms, of name]
  by (simp add: read_ident_def quote_ident_part_eq)

lemma close_delimiter_not_dot [simp]: "close_delimiter dialect \<noteq> CHR ''.''" "CHR ''.'' \<noteq> close_delimiter dialect"
  by (auto simp: close_delimiter_def)

lemma read_idents_joined:
  assumes "names \<noteq> []" and "rest = [] \<or> (hd rest \<noteq> close_delimiter dialect \<and> hd rest \<noteq> CHR ''.'')"
    and "length names \<le> n"
  shows "read_idents n dialect (join_with ''.'' (map (quote_ident_part dialect) names) @ rest)
    = Some (names, rest)"
  using assms
proof (induction names arbitrary: n)
  case (Cons name names)
  then obtain m where n: "n = Suc m" by (cases n) auto
  show ?case
  proof (cases names)
    case Nil
    with Cons.prems(2) n read_ident_quoted [of "[]" dialect name] show ?thesis
      by (auto simp: read_ident_quoted)
  next
    case (Cons name2 names2)
    with Cons.IH [of m] Cons.prems n show ?thesis by (simp add: read_ident_quoted)
  qed
qed simp

text \<open>The parts of a dotted name that get quoted on their own.\<close>

definition name_parts :: "string \<Rightarrow> string list" where
  "name_parts name =
     (let parts = filter (\<lambda>p. p \<noteq> []) (map trim_space (split_on (CHR ''.'') name)) in
      if length (split_on (CHR ''.'') name) > 1 \<and> parts \<noteq> [] then parts else [name])"

section \<open>Properties\<close>

text \<open>
  Claim C9: quoting an identifier cannot be broken out of.  In every dialect, an SQL lexer that
  reads \<^verbatim>\<open>QuoteIdent\<close>'s output gets back exactly the dot-separated parts of the name (trimmed, the
  empty ones dropped; the whole name where no part is left) and stops exactly behind them, whatever
  quote characters the name contains.
\<close>

theorem quote_ident_round_trip:
  assumes "rest = [] \<or> (hd rest \<noteq> close_delimiter dialect \<and> hd rest \<noteq> CHR ''.'')"
  shows "read_idents (Suc (length name)) dialect (quote_ident dialect name @ rest)
    = Some (name_parts name, rest)"
proof -
  let ?parts = "filter (\<lambda>p. p \<noteq> []) (map trim_space (split_on (CHR ''.'') name))"
  have single: "read_idents (Suc (length name)) dialect (quote_ident_part dialect name @ rest)
      = Some ([name], rest)"
    using read_idents_joined [of "[name]" rest dialect "Suc (length name)"] assms by simp
  have "length (split_on c s) \<le> Suc (length s)" for c s
    by (induction s) (auto split: list.splits)
  then have "length ?parts \<le> Suc (length name)"
    by (metis (no_types, lifting) length_filter_le length_map order_trans)
  then show ?thesis
    using single read_idents_joined [of ?parts rest dialect "Suc (length name)"] assms
    by (auto simp: quote_ident_def name_parts_def Let_def)
qed

definition sample_name :: string where
  "sample_name = ''a. b'' @ [CHR 0x22] @ ''; DROP x''"

theorem quote_ident_round_trip_witness:
  "read_idents (Suc (length sample_name)) ''PostgreSQL'' (quote_ident ''PostgreSQL'' sample_name @ '' WHERE'')
     = Some ([''a'', ''b'' @ [CHR 0x22] @ ''; DROP x''], '' WHERE'')"
proof -
  have parts: "name_parts sample_name = [''a'', ''b'' @ [CHR 0x22] @ ''; DROP x'']"
    by code_simp
  show ?thesis
    unfolding parts [symmetric] by (rule quote_ident_round_trip) (simp add: close_delimiter_def)
qed

text \<open>
  Claim C10: the system-table guard over query text never lets a session that is not an admin name
  an internal table: whatever object name the browser hides as internal, in any letter case, every
  query text it occurs in is blocked.
\<close>

theorem system_table_text_blocked:
  assumes "is_data_dock_system_object name"
  shows "blocked_for_system_table_access False (before @ trim_space name @ after)"
proof -
  from assms have "sublist ''__datadock_'' (to_lower (trim_space name))"
    by (auto simp: is_data_dock_system_object_def prefix_imp_sublist)
  then have "sublist ''__datadock_'' (to_lower (before @ trim_space name @ after))"
    by (auto simp: to_lower_def sublist_appendI intro: sublist_order.order_trans)
  then show ?thesis
    by (simp add: blocked_for_system_table_access_def references_data_dock_system_table_def
        contains_sub_iff)
qed

theorem system_table_text_blocked_witness:
  "blocked_for_system_table_access False
     (''SELECT * FROM '' @ trim_space '' __DataDock_users'' @ '' u'')"
  by (rule system_table_text_blocked) code_simp

end
