(* ===== verification/GoFloat.thy ===== *)
theory GoFloat
  imports Complex_Main
begin

text \<open>
  Go's \<^verbatim>\<open>float64\<close>: an exact rational, an infinity or NaN.  Signed zeros are one zero.  The arithmetic
  takes the rounding \<open>rnd\<close> of an exact result as a parameter, so that what is proved holds for every
  rounding that satisfies the laws named in the statement.
\<close>

datatype float_value = Finite rat | Pos_Inf | Neg_Inf | Not_A_Number

fun float_less :: "float_value \<Rightarrow> float_value \<Rightarrow> bool" where
  "float_less (Finite a) (Finite b) = (a < b)"
| "float_less (Finite a) Pos_Inf = True"
| "float_less Neg_Inf (Finite b) = True"
| "float_less Neg_Inf Pos_Inf = True"
| "float_less _ _ = False"

definition float_eq :: "float_value \<Rightarrow> float_value \<Rightarrow> bool" where
  "float_eq a b \<longleftrightarrow> a = b \<and> a \<noteq> Not_A_Number"

definition float_at_least :: "float_value \<Rightarrow> float_value \<Rightarrow> bool" where
  "float_at_least a b \<longleftrightarrow> float_less b a \<or> float_eq a b"

fun float_neg :: "float_value \<Rightarrow> float_value" where
  "float_neg (Finite a) = Finite (- a)"
| "float_neg Pos_Inf = Neg_Inf"
| "float_neg Neg_Inf = Pos_Inf"
| "float_neg Not_A_Number = Not_A_Number"

type_synonym rounding = "rat \<Rightarrow> float_value"

fun float_plus :: "rounding \<Rightarrow> float_value \<Rightarrow> float_value \<Rightarrow> float_value" where
  "float_plus rnd (Finite a) (Finite b) = rnd (a + b)"
| "float_plus rnd Pos_Inf (Finite b) = Pos_Inf"
| "float_plus rnd (Finite a) Pos_Inf = Pos_Inf"
| "float_plus rnd Pos_Inf Pos_Inf = Pos_Inf"
| "float_plus rnd Neg_Inf (Finite b) = Neg_Inf"
| "float_plus rnd (Finite a) Neg_Inf = Neg_Inf"
| "float_plus rnd Neg_Inf Neg_Inf = Neg_Inf"
| "float_plus rnd _ _ = Not_A_Number"

definition float_minus :: "rounding \<Rightarrow> float_value \<Rightarrow> float_value \<Rightarrow> float_value" where
  "float_minus rnd a b = float_plus rnd a (float_neg b)"

text \<open>The infinity with the sign of \<open>s\<close>, NaN for zero.\<close>

definition signed_inf :: "rat \<Rightarrow> float_value" where
  "signed_inf s = (if 0 < s then Pos_Inf else if s < 0 then Neg_Inf else Not_A_Number)"

fun float_sign :: "float_value \<Rightarrow> rat" where
  "float_sign (Finite a) = sgn a"
| "float_sign Pos_Inf = 1"
| "float_sign Neg_Inf = - 1"
| "float_sign Not_A_Number = 0"

fun float_times :: "rounding \<Rightarrow> float_value \<Rightarrow> float_value \<Rightarrow> float_value" where
  "float_times rnd (Finite a) (Finite b) = rnd (a * b)"
| "float_times rnd a b = signed_inf (float_sign a * float_sign b)"

text \<open>Division by zero takes the zero as positive.\<close>

fun float_div :: "rounding \<Rightarrow> float_value \<Rightarrow> float_value \<Rightarrow> float_value" where
  "float_div rnd (Finite a) (Finite b) = (if b = 0 then signed_inf a else rnd (a / b))"
| "float_div rnd (Finite a) Not_A_Number = Not_A_Number"
| "float_div rnd (Finite a) _ = Finite 0"
| "float_div rnd Pos_Inf (Finite b) = (if b < 0 then Neg_Inf else Pos_Inf)"
| "float_div rnd Neg_Inf (Finite b) = (if b < 0 then Pos_Inf else Neg_Inf)"
| "float_div rnd _ _ = Not_A_Number"

end
