(* ===== verification/MapTiles.thy ===== *)
theory MapTiles
  imports PmTilesCorrect DbNames GoFloat
begin

text \<open>
  The map tile server of \<^verbatim>\<open>map_tiles.go\<close>: layer metadata of an imported tile table, the names of the
  layers of a Mapbox vector tile, and the tile endpoint.

  A tile table is the list of its rows, with the nine text cells the importers write; the two
  queries the code sends are read as functions on that list.  Parameters, besides those of the
  importer (\<open>pm_env\<close>): the base64 decoder, \<^verbatim>\<open>json.Unmarshal\<close> into \<^verbatim>\<open>any\<close> and \<^verbatim>\<open>strconv.ParseFloat\<close>.
\<close>

section \<open>Vector tiles\<close>

definition read_mvt_bytes :: "bytes \<Rightarrow> nat \<Rightarrow> (bytes \<times> nat) option" where
  "read_mvt_bytes data pos =
     (case read_mvt_varint data pos of
        None \<Rightarrow> None
      | Some (len, pos') \<Rightarrow>
          if unat len > length data - pos' then None
          else Some (take (unat len) (drop pos' data), pos' + unat len))"

definition skip_mvt_field :: "bytes \<Rightarrow> nat \<Rightarrow> nat \<Rightarrow> nat option" where
  "skip_mvt_field data pos wire =
     (if wire = 0 then map_option snd (read_mvt_varint data pos)
      else if wire = 1 then (if pos + 8 \<le> length data then Some (pos + 8) else None)
      else if wire = 2 then map_option snd (read_mvt_bytes data pos)
      else if wire = 5 then (if pos + 4 \<le> length data then Some (pos + 4) else None)
      else None)"

lemma read_mvt_bytes_bounds:
  assumes "read_mvt_bytes data pos = Some (bs, pos')"
  shows "pos < pos'" "pos' \<le> length data" "sublist bs data"
  using assms mvt.read_advances [of data pos] mvt.read_in_bounds [of data pos]
  by (fastforce simp: read_mvt_bytes_def split: option.splits if_splits
      intro: sublist_order.order_trans [OF sublist_take sublist_drop])+

lemma read_mvt_bytes_range:
  "read_mvt_bytes data pos = Some (bs, pos') \<Longrightarrow> pos < pos' \<and> pos' \<le> length data"
  using read_mvt_bytes_bounds(1,2) by blast

lemma skip_mvt_field_bounds:
  "skip_mvt_field data pos wire = Some pos' \<Longrightarrow> pos < pos' \<and> pos' \<le> length data"
  by (auto simp: skip_mvt_field_def split: if_splits
      dest: mvt.read_advances mvt.read_in_bounds read_mvt_bytes_bounds(1,2))

text \<open>\<^verbatim>\<open>field, wire := int(key>>3), int(key&7)\<close>\<close>

definition key_field :: "u64 \<Rightarrow> nat" where
  "key_field key = unat (drop_bit 3 key)"

definition key_wire :: "u64 \<Rightarrow> nat" where
  "key_wire key = unat (key AND 7)"

text \<open>
  The two scanners.  The key of a field is a varint: field number times eight plus the wire type.
  In \<open>mvt_layer_names_from\<close> the list \<open>names\<close> is also the set \<^verbatim>\<open>seen\<close> of the code.
\<close>

function mvt_layer_name_from :: "bytes \<Rightarrow> nat \<Rightarrow> bytes" where
  "mvt_layer_name_from data pos =
     (if pos < length data then
        (case read_mvt_varint data pos of
           None \<Rightarrow> []
         | Some (key, pos') \<Rightarrow>
             if key_field key = 1 \<and> key_wire key = 2 then
               (case read_mvt_bytes data pos' of None \<Rightarrow> [] | Some (name, _) \<Rightarrow> name)
             else (case skip_mvt_field data pos' (key_wire key) of
                 None \<Rightarrow> []
               | Some pos'' \<Rightarrow> mvt_layer_name_from data pos''))
      else [])"
  by auto
termination
  by (relation "measure (\<lambda>(data, pos). length data - pos)")
     (auto dest!: mvt.read_advances skip_mvt_field_bounds)

definition mvt_layer_name :: "bytes \<Rightarrow> bytes" where
  "mvt_layer_name data = mvt_layer_name_from data 0"

function mvt_layer_names_from :: "bytes \<Rightarrow> nat \<Rightarrow> bytes list \<Rightarrow> bytes list" where
  "mvt_layer_names_from data pos names =
     (if pos < length data then
        (case read_mvt_varint data pos of
           None \<Rightarrow> names
         | Some (key, pos') \<Rightarrow>
             if key_field key = 3 \<and> key_wire key = 2 then
               (case read_mvt_bytes data pos' of
                  None \<Rightarrow> names
                | Some (layer, pos'') \<Rightarrow>
                    (let name = mvt_layer_name layer in
                     mvt_layer_names_from data pos''
                       (if name \<noteq> [] \<and> name \<notin> set names then names @ [name] else names)))
             else (case skip_mvt_field data pos' (key_wire key) of
                 None \<Rightarrow> names
               | Some pos'' \<Rightarrow> mvt_layer_names_from data pos'' names))
      else names)"
  by auto
termination
  by (relation "measure (\<lambda>(data, pos, names). length data - pos)")
     (auto dest!: mvt.read_advances skip_mvt_field_bounds read_mvt_bytes_range)

declare mvt_layer_name_from.simps [simp del] mvt_layer_names_from.simps [simp del]

definition mvt_layer_names :: "bytes \<Rightarrow> bytes list" where
  "mvt_layer_names data = mvt_layer_names_from data 0 []"

section \<open>Values of the standard library\<close>

datatype json =
  J_Null | J_Bool bool | J_Number string | J_String string
| J_Array "json list" | J_Object "(string \<times> json) list"

text \<open>\<^verbatim>\<open>strconv.ParseFloat\<close> accepts infinities and NaN.\<close>

record map_env = pm_env +
  base64_decode :: "string \<Rightarrow> bytes option"
  json_value :: "string \<Rightarrow> json option"
  parse_float :: "string \<Rightarrow> float_value option"

section \<open>Layer metadata\<close>

type_synonym metadata = "(string \<times> string) list"

definition meta_get :: "metadata \<Rightarrow> string \<Rightarrow> string" where
  "meta_get m k = (case map_of m k of Some v \<Rightarrow> v | None \<Rightarrow> [])"

definition map_metadata_int :: "metadata \<Rightarrow> string \<Rightarrow> nat \<Rightarrow> nat" where
  "map_metadata_int m key fallback =
     (case atoi (trim_space (meta_get m key)) of
        None \<Rightarrow> fallback
      | Some n \<Rightarrow> if n < 0 \<or> n > 30 then fallback else nat n)"

definition out_of_bounds :: "float_value list \<Rightarrow> bool" where
  "out_of_bounds b \<longleftrightarrow>
     float_less (b ! 2) (b ! 0) \<or> float_less (b ! 3) (b ! 1)
     \<or> float_less (b ! 0) (Finite (- 180)) \<or> float_less (Finite 180) (b ! 2)
     \<or> float_less (b ! 1) (Finite (- 90)) \<or> float_less (Finite 90) (b ! 3)"

definition map_metadata_bounds :: "map_env \<Rightarrow> string \<Rightarrow> float_value list option" where
  "map_metadata_bounds env raw =
     (let parts = split_on (CHR '','') raw in
      if length parts \<noteq> 4 then None
      else (let values = map (\<lambda>p. parse_float env (trim_space p)) parts in
        if None \<in> set values then None
        else if out_of_bounds (map the values) then None
        else Some (map the values)))"

definition json_field :: "(string \<times> json) list \<Rightarrow> string \<Rightarrow> json" where
  "json_field obj key = (case map_of obj key of Some v \<Rightarrow> v | None \<Rightarrow> J_Null)"

text \<open>\<^verbatim>\<open>strings.TrimSpace(fmt.Sprint(v)) == ""\<close>: only a blank string prints blank (nil prints \<open><nil>\<close>).\<close>

definition prints_blank :: "json \<Rightarrow> bool" where
  "prints_blank v \<longleftrightarrow> (case v of J_String s \<Rightarrow> trim_space s = [] | _ \<Rightarrow> False)"

definition vector_layers_value :: "map_env \<Rightarrow> metadata \<Rightarrow> string \<Rightarrow> json" where
  "vector_layers_value env m key =
     (let text = trim_space (meta_get m key) in
      if text = [] then J_Null
      else (case json_value env text of
          None \<Rightarrow> J_Null
        | Some v \<Rightarrow>
            (case v of
               J_Object obj \<Rightarrow> if key = ''json'' then json_field obj ''vector_layers'' else v
             | _ \<Rightarrow> v)))"

definition vector_layers_from_tile_metadata :: "map_env \<Rightarrow> metadata \<Rightarrow> (string \<times> json) list list" where
  "vector_layers_from_tile_metadata env m =
     (let first = vector_layers_value env m ''vector_layers'';
          raw = (if first \<noteq> J_Null then first else vector_layers_value env m ''json'');
          items = (case raw of J_Array xs \<Rightarrow> xs | _ \<Rightarrow> []) in
      List.map_filter
        (\<lambda>item. case item of
            J_Object obj \<Rightarrow> if prints_blank (json_field obj ''id'') then None else Some obj
          | _ \<Rightarrow> None) items)"

definition is_map_vector_format :: "string \<Rightarrow> bool" where
  "is_map_vector_format f \<longleftrightarrow>
     to_lower (trim_space f) \<in> {''pbf'', ''mvt'', ''vector'', ''application/x-protobuf''}"

section \<open>Tile payloads\<close>

datatype map_error =
  Invalid_Table | Query_Failed | Not_A_Tile_Layer | No_Tile_Row | Invalid_Base64
| Import_Failed pm_error | Unsupported_Tile_Compression string

definition max_decompressed_tile_bytes :: nat where
  "max_decompressed_tile_bytes = 64 * 2 ^ 20"

definition read_limited_import :: "stream \<Rightarrow> nat \<Rightarrow> map_error + bytes" where
  "read_limited_import r limit =
     (if length (fst r) \<le> limit then
        (case snd r of Some e \<Rightarrow> Inl (Import_Failed (Codec_Error e)) | None \<Rightarrow> Inr (fst r))
      else Inl (Import_Failed (Decompressed_Too_Large limit)))"

definition decompress_map_tile_payload :: "map_env \<Rightarrow> bytes \<Rightarrow> string \<Rightarrow> map_error + bytes" where
  "decompress_map_tile_payload env payload compression =
     (let c = to_lower (trim_space compression) in
      if c = [] \<or> c = ''none'' then Inr payload
      else if c = ''gzip'' then
        (case gzip_open env payload of
           Inl e \<Rightarrow> Inl (Import_Failed (Codec_Error e))
         | Inr (r, close_err) \<Rightarrow>
             bind_res (read_limited_import r max_decompressed_tile_bytes)
               (\<lambda>out. case close_err of
                   Some e \<Rightarrow> Inl (Import_Failed (Codec_Error e)) | None \<Rightarrow> Inr out))
      else if c = ''br'' then read_limited_import (brotli_open env payload) max_decompressed_tile_bytes
      else if c = ''zstd'' then
        (case zstd_open env payload of
           Inl e \<Rightarrow> Inl (Import_Failed (Codec_Error e))
         | Inr r \<Rightarrow> read_limited_import r max_decompressed_tile_bytes)
      else Inl (Unsupported_Tile_Compression compression))"

definition is_png :: "bytes \<Rightarrow> bool" where
  "is_png p \<longleftrightarrow> length p \<ge> 8 \<and> take 8 p = [0x89, 0x50, 0x4E, 0x47, 0x0D, 0x0A, 0x1A, 0x0A]"

definition is_jpeg :: "bytes \<Rightarrow> bool" where
  "is_jpeg p \<longleftrightarrow> length p \<ge> 3 \<and> p ! 0 = 0xFF \<and> p ! 1 = 0xD8 \<and> p ! 2 = 0xFF"

definition is_webp :: "bytes \<Rightarrow> bool" where
  "is_webp p \<longleftrightarrow> length p \<ge> 12 \<and> take 4 p = string_bytes ''RIFF''
     \<and> take 4 (drop 8 p) = string_bytes ''WEBP''"

definition map_tile_content_type :: "string \<Rightarrow> bytes \<Rightarrow> string" where
  "map_tile_content_type format payload =
     (let f = to_lower (trim_space format) in
      if f \<in> {''pbf'', ''mvt'', ''vector'', ''application/x-protobuf''}
      then ''application/vnd.mapbox-vector-tile''
      else if f = ''png'' then ''image/png''
      else if f = ''jpg'' \<or> f = ''jpeg'' then ''image/jpeg''
      else if f = ''webp'' then ''image/webp''
      else if f = ''avif'' then ''image/avif''
      else if is_png payload then ''image/png''
      else if is_jpeg payload then ''image/jpeg''
      else ''application/octet-stream'')"

definition map_tile_content_encoding :: "string \<Rightarrow> string" where
  "map_tile_content_encoding compression =
     (if to_lower (trim_space compression) \<in> {''gzip'', ''br'', ''zstd''} then compression else [])"

section \<open>The tile table\<close>

record tile_layer =
  layer_table :: string
  source_format :: string
  tile_scheme :: string
  layer_format :: string
  layer_compression :: string
  layer_metadata :: metadata
  layer_min_zoom :: nat
  layer_max_zoom :: nat
  layer_bounds :: "float_value list option"
  vector_layers :: "(string \<times> json) list list"

text \<open>\<open>None\<close> is a table the query fails on; the statements are \<^verbatim>\<open>SELECT \<dots> WHERE record_type = ? \<dots>\<close>.\<close>

type_synonym database = "string \<Rightarrow> row list option"

definition metadata_query :: "row list \<Rightarrow> (string \<times> string) list" where
  "metadata_query rows = map (\<lambda>r. (r ! 1, r ! 2)) (filter (\<lambda>r. r ! 0 = ''metadata'') rows)"

definition sample_query :: "row list \<Rightarrow> string option" where
  "sample_query rows = map_option (\<lambda>r. r ! 8) (find (\<lambda>r. r ! 0 = ''tile'') rows)"

definition tile_query :: "row list \<Rightarrow> nat \<Rightarrow> nat \<Rightarrow> nat \<Rightarrow> string option" where
  "tile_query rows z x y =
     map_option (\<lambda>r. r ! 8)
       (find (\<lambda>r. r ! 0 = ''tile'' \<and> r ! 3 = nat_digits z \<and> r ! 4 = nat_digits x
                \<and> r ! 5 = nat_digits y) rows)"

definition sample_map_tile_payload :: "map_env \<Rightarrow> database \<Rightarrow> tile_layer \<Rightarrow> map_error + bytes" where
  "sample_map_tile_payload env db layer =
     (case Option.bind (db (layer_table layer)) sample_query of
        None \<Rightarrow> Inl No_Tile_Row
      | Some encoded \<Rightarrow>
          (case base64_decode env encoded of
             None \<Rightarrow> Inl Invalid_Base64
           | Some payload \<Rightarrow> decompress_map_tile_payload env payload (layer_compression layer)))"

definition bytes_string :: "bytes \<Rightarrow> string" where
  "bytes_string bs = map (\<lambda>b. char_of (unat b)) bs"

definition name_layers :: "bytes list \<Rightarrow> (string \<times> json) list list" where
  "name_layers names = map (\<lambda>n. [(''id'', J_String (bytes_string n))]) names"

definition infer_map_vector_layers :: "map_env \<Rightarrow> database \<Rightarrow> tile_layer \<Rightarrow> (string \<times> json) list list" where
  "infer_map_vector_layers env db layer =
     (case sample_map_tile_payload env db layer of
        Inl _ \<Rightarrow> []
      | Inr payload \<Rightarrow> name_layers (mvt_layer_names payload))"

definition infer_map_tile_format ::
    "map_env \<Rightarrow> database \<Rightarrow> tile_layer \<Rightarrow> string \<times> (string \<times> json) list list" where
  "infer_map_tile_format env db layer =
     (case sample_map_tile_payload env db layer of
        Inl _ \<Rightarrow> ([], [])
      | Inr payload \<Rightarrow>
          (if mvt_layer_names payload \<noteq> [] then (''pbf'', name_layers (mvt_layer_names payload))
           else if is_png payload then (''png'', [])
           else if is_jpeg payload then (''jpg'', [])
           else if is_webp payload then (''webp'', [])
           else ([], [])))"

definition infer_format_step :: "map_env \<Rightarrow> database \<Rightarrow> tile_layer \<Rightarrow> tile_layer" where
  "infer_format_step env db layer =
     (if layer_format layer = [] \<or> layer_format layer = ''unknown'' then
        (let (f, layers) = infer_map_tile_format env db layer in
         layer\<lparr>layer_format := (if f \<noteq> [] then f else layer_format layer),
               vector_layers := (if vector_layers layer = [] then layers else vector_layers layer)\<rparr>)
      else layer)"

definition infer_vector_step :: "map_env \<Rightarrow> database \<Rightarrow> tile_layer \<Rightarrow> tile_layer" where
  "infer_vector_step env db layer =
     (if is_map_vector_format (layer_format layer) \<and> vector_layers layer = []
      then layer\<lparr>vector_layers := infer_map_vector_layers env db layer\<rparr> else layer)"

definition load_map_tile_layer :: "map_env \<Rightarrow> database \<Rightarrow> string \<Rightarrow> map_error + tile_layer" where
  "load_map_tile_layer env db table =
     (if \<not> is_valid_identifier table \<or> is_data_dock_system_object table then Inl Invalid_Table
      else (case db table of
          None \<Rightarrow> Inl Query_Failed
        | Some rows \<Rightarrow>
            (let m = fold (\<lambda>(n, v) m. AList.update (to_lower (trim_space n)) v m) (metadata_query rows) [];
                 src = to_lower (trim_space (meta_get m ''datadock:source_format''));
                 scheme = to_lower (trim_space (meta_get m ''datadock:tile_scheme''));
                 lo = map_metadata_int m ''minzoom'' 0;
                 hi = map_metadata_int m ''maxzoom'' 22 in
             if src \<noteq> ''mbtiles'' \<and> src \<noteq> ''pmtiles'' then Inl Not_A_Tile_Layer
             else Inr (infer_vector_step env db (infer_format_step env db
               \<lparr>layer_table = table, source_format = src,
                tile_scheme = (if scheme = [] then ''tms'' else scheme),
                layer_format = to_lower (trim_space (meta_get m ''format'')),
                layer_compression = to_lower (trim_space (meta_get m ''datadock:tile_compression'')),
                layer_metadata = m, layer_min_zoom = lo,
                layer_max_zoom = (if hi < lo then lo else hi),
                layer_bounds = map_metadata_bounds env (meta_get m ''bounds''),
                vector_layers = vector_layers_from_tile_metadata env m\<rparr>)))))"

definition is_map_tile_table :: "map_env \<Rightarrow> bool \<Rightarrow> database \<Rightarrow> string \<Rightarrow> bool" where
  "is_map_tile_table env on_tinysql db table \<longleftrightarrow>
     on_tinysql \<and> is_ok (load_map_tile_layer env db table)"

definition map_tile_name :: "tile_layer \<Rightarrow> string" where
  "map_tile_name layer =
     (let name = trim_space (meta_get (layer_metadata layer) ''name'') in
      if name \<noteq> [] then name else layer_table layer)"

section \<open>The endpoints\<close>

datatype tile_response =
  Problem nat string
| Tile string string bytes

definition parse_map_tile_coordinates :: "string \<Rightarrow> string \<Rightarrow> string \<Rightarrow> (nat \<times> nat \<times> nat) option" where
  "parse_map_tile_coordinates zs xs ys =
     (case (atoi zs, atoi xs, atoi ys) of
        (Some z, Some x, Some y) \<Rightarrow>
          (if z < 0 \<or> z > 30 \<or> x < 0 \<or> y < 0 then None
           else if x \<ge> 2 ^ nat z \<or> y \<ge> 2 ^ nat z then None
           else Some (nat z, nat x, nat y))
      | _ \<Rightarrow> None)"

definition stored_tile_row :: "string \<Rightarrow> nat \<Rightarrow> nat \<Rightarrow> nat" where
  "stored_tile_row scheme z y = (if scheme = ''tms'' then 2 ^ z - 1 - y else y)"

definition api_map_tile :: "map_env \<Rightarrow> bool \<Rightarrow> database \<Rightarrow> string \<Rightarrow> string \<Rightarrow> string \<Rightarrow> string \<Rightarrow> tile_response" where
  "api_map_tile env on_tinysql db table zs xs ys =
     (if \<not> on_tinysql then Problem 400 ''Unsupported connection''
      else (case parse_map_tile_coordinates zs xs ys of
          None \<Rightarrow> Problem 400 ''Invalid tile coordinates''
        | Some (z, x, y) \<Rightarrow>
            (case load_map_tile_layer env db table of
               Inl _ \<Rightarrow> Problem 404 ''Map layer not found''
             | Inr layer \<Rightarrow>
                 (case Option.bind (db (layer_table layer))
                         (\<lambda>rows. tile_query rows z x (stored_tile_row (tile_scheme layer) z y)) of
                    None \<Rightarrow> Problem 404 ''Tile not found''
                  | Some encoded \<Rightarrow>
                      (case base64_decode env encoded of
                         None \<Rightarrow> Problem 500 ''Invalid tile payload''
                       | Some payload \<Rightarrow>
                           Tile (map_tile_content_type (layer_format layer) payload)
                                (map_tile_content_encoding (layer_compression layer)) payload)))))"

datatype tilejson_response =
  Tilejson_Problem nat string
| Tilejson string nat nat string "float_value list option" "(string \<times> json) list list" string

definition api_map_tilejson :: "map_env \<Rightarrow> bool \<Rightarrow> database \<Rightarrow> string \<Rightarrow> tilejson_response" where
  "api_map_tilejson env on_tinysql db table =
     (if \<not> on_tinysql then Tilejson_Problem 400 ''Unsupported connection''
      else (case load_map_tile_layer env db table of
          Inl _ \<Rightarrow> Tilejson_Problem 404 ''Map layer not found''
        | Inr layer \<Rightarrow>
            Tilejson (map_tile_name layer) (layer_min_zoom layer) (layer_max_zoom layer)
              (layer_format layer) (layer_bounds layer) (vector_layers layer)
              (trim_space (meta_get (layer_metadata layer) ''attribution''))))"

end
