(* ===== verification/MapTilesCorrect.thy ===== *)
theory MapTilesCorrect
  imports MapTiles
begin

text \<open>
  Correctness of the map tile server: the vector-tile scanner finds the layer names of every
  well-formed message and is safe on every other input, accepted metadata is in range, and a tile
  imported from a PMTiles archive is served with its bytes at its coordinates.
\<close>

named_theorems mvt_simps

section \<open>Protobuf messages\<close>

datatype mvt_field =
  Varint_Field nat u64 | Fixed64_Field nat bytes | Bytes_Field nat bytes | Fixed32_Field nat bytes

definition field_key :: "nat \<Rightarrow> nat \<Rightarrow> u64" where
  "field_key num wire = word_of_nat (8 * num + wire)"

fun encode_field :: "mvt_field \<Rightarrow> bytes" where
  "encode_field (Varint_Field n v) = encode_varint (unat (field_key n 0)) @ encode_varint (unat v)"
| "encode_field (Fixed64_Field n bs) = encode_varint (unat (field_key n 1)) @ bs"
| "encode_field (Bytes_Field n bs) =
     encode_varint (unat (field_key n 2)) @ encode_varint (unat (word_of_nat (length bs) :: u64)) @ bs"
| "encode_field (Fixed32_Field n bs) = encode_varint (unat (field_key n 5)) @ bs"

definition encode_message :: "mvt_field list \<Rightarrow> bytes" where
  "encode_message fs = concat (map encode_field fs)"

fun wf_field :: "mvt_field \<Rightarrow> bool" where
  "wf_field (Varint_Field n v) = (n < 2 ^ 61)"
| "wf_field (Fixed64_Field n bs) = (n < 2 ^ 61 \<and> length bs = 8)"
| "wf_field (Bytes_Field n bs) = (n < 2 ^ 61 \<and> length bs < 2 ^ 64)"
| "wf_field (Fixed32_Field n bs) = (n < 2 ^ 61 \<and> length bs = 4)"

text \<open>The payload of a length-delimited field with a given number.\<close>

fun payload_of :: "nat \<Rightarrow> mvt_field \<Rightarrow> bytes option" where
  "payload_of num (Bytes_Field n bs) = (if n = num then Some bs else None)"
| "payload_of num _ = None"

lemma encode_message_simps [simp, mvt_simps]:
  "encode_message [] = []"
  "encode_message (f # fs) = encode_field f @ encode_message fs"
  by (simp_all add: encode_message_def)

lemma field_key_unat:
  assumes "n < 2 ^ 61" "w < 8"
  shows "unat (field_key n w) = 8 * n + w"
proof -
  have "8 * n + w < 2 ^ 64" using assms by simp
  then show ?thesis unfolding field_key_def by (simp only: unat_of_nat) simp
qed

lemma field_key_number [simp, mvt_simps]:
  assumes "n < 2 ^ 61" "w < 8"
  shows "key_field (field_key n w) = n"
proof -
  have "key_field (field_key n w) = unat (field_key n w) div 8"
    by (simp only: key_field_def unat_drop_bit_eq) (simp add: drop_bit_eq_div)
  then show ?thesis using assms by (simp add: field_key_unat)
qed

lemma field_key_wire [simp, mvt_simps]:
  assumes "n < 2 ^ 61" "w < 8"
  shows "key_wire (field_key n w) = w"
proof -
  have "(7 :: u64) = mask 3" by (simp add: mask_eq_exp_minus_1)
  then have "key_wire (field_key n w) = unat (take_bit 3 (field_key n w))"
    unfolding key_wire_def take_bit_eq_mask by simp
  also have "\<dots> = unat (field_key n w) mod 8"
    by (simp only: unsigned_take_bit_eq) (simp add: take_bit_eq_mod)
  finally show ?thesis using assms by (simp add: field_key_unat)
qed

lemma at_pos_length: "at_pos data pos bs \<Longrightarrow> bs \<noteq> [] \<Longrightarrow> pos + length bs \<le> length data"
  by (auto simp: at_pos_def prefix_def) (metis length_append length_drop le_diff_conv2
      append_is_Nil_conv drop_eq_Nil nat_le_linear le_add1 add.commute)

lemma read_mvt_bytes_encoded:
  assumes "at_pos data pos (encode_varint (unat (word_of_nat (length bs) :: u64)) @ bs)"
    and "length bs < 2 ^ 64"
  shows "read_mvt_bytes data pos
    = Some (bs, pos + length (encode_varint (unat (word_of_nat (length bs) :: u64)) @ bs))"
proof -
  let ?l = "word_of_nat (length bs) :: u64"
  have len: "unat ?l = length bs" using assms(2) by (simp only: unat_of_nat) simp
  from assms(1) have v: "at_pos data pos (encode_varint (unat ?l))"
    and b: "at_pos data (pos + length (encode_varint (unat ?l))) bs"
    by (simp_all add: at_pos_append)
  have "pos + length (encode_varint (unat ?l)) + length bs \<le> length data"
    using at_pos_length [OF assms(1)] by simp
  with mvt.read_encoded [OF v] at_pos_take [OF b] show ?thesis
    by (simp add: read_mvt_bytes_def len)
qed

lemma skip_encoded_field:
  assumes "at_pos data pos (encode_field f)" "wf_field f"
  obtains key p where "read_mvt_varint data pos = Some (key, p)"
    "skip_mvt_field data p (key_wire key) = Some (pos + length (encode_field f))"
    "pos < length data"
    "payload_of num f = None \<Longrightarrow> \<not> (key_field key = num \<and> key_wire key = 2)"
    "\<And>bs. payload_of num f = Some bs \<Longrightarrow> key_field key = num \<and> key_wire key = 2
       \<and> read_mvt_bytes data p = Some (bs, pos + length (encode_field f))"
proof -
  have "encode_field f \<noteq> []" by (cases f) simp_all
  then have pos: "pos < length data"
    using at_pos_length [OF assms(1)] by (cases "encode_field f") auto
  show thesis
  proof (cases f)
    case (Varint_Field n v)
    with assms show thesis
      by (intro that [of "field_key n 0" "pos + length (encode_varint (unat (field_key n 0)))"])
         (auto simp: at_pos_append mvt.read_encoded skip_mvt_field_def pos)
  next
    case (Fixed64_Field n bs)
    with assms at_pos_length [OF assms(1)] show thesis
      by (intro that [of "field_key n 1" "pos + length (encode_varint (unat (field_key n 1)))"])
         (auto simp: at_pos_append mvt.read_encoded skip_mvt_field_def pos)
  next
    case (Bytes_Field n bs)
    with assms read_mvt_bytes_encoded [of data _ bs] show thesis
      by (intro that [of "field_key n 2" "pos + length (encode_varint (unat (field_key n 2)))"])
         (auto simp: at_pos_append mvt.read_encoded skip_mvt_field_def pos add.assoc split: if_splits)
  next
    case (Fixed32_Field n bs)
    with assms at_pos_length [OF assms(1)] show thesis
      by (intro that [of "field_key n 5" "pos + length (encode_varint (unat (field_key n 5)))"])
         (auto simp: at_pos_append mvt.read_encoded skip_mvt_field_def pos)
  qed
qed

text \<open>The name of a layer message: its first field 1; the layers of a tile message: its fields 3.\<close>

definition first_payload :: "nat \<Rightarrow> mvt_field list \<Rightarrow> bytes" where
  "first_payload num fs = (case List.map_filter (payload_of num) fs of [] \<Rightarrow> [] | b # _ \<Rightarrow> b)"

definition add_name :: "bytes list \<Rightarrow> bytes \<Rightarrow> bytes list" where
  "add_name names n =
     (if n \<noteq> [] \<and> n \<notin> set names then names @ [n] else names)"

lemma mvt_layer_name_encoded:
  "at_pos data pos (encode_message fs) \<Longrightarrow> pos + length (encode_message fs) = length data \<Longrightarrow>
   list_all wf_field fs \<Longrightarrow> mvt_layer_name_from data pos = first_payload 1 fs"
proof (induction fs arbitrary: pos)
  case Nil
  then show ?case by (subst mvt_layer_name_from.simps) (simp add: first_payload_def)
next
  case (Cons f fs)
  then have at: "at_pos data pos (encode_field f)"
    and rest: "at_pos data (pos + length (encode_field f)) (encode_message fs)" and wf: "wf_field f"
    by (simp_all add: at_pos_append)
  obtain key p where f: "read_mvt_varint data pos = Some (key, p)"
      "skip_mvt_field data p (key_wire key) = Some (pos + length (encode_field f))"
      "pos < length data"
    and none: "payload_of 1 f = None \<Longrightarrow> \<not> (key_field key = 1 \<and> key_wire key = 2)"
    and some: "\<And>bs. payload_of 1 f = Some bs \<Longrightarrow> key_field key = 1 \<and> key_wire key = 2
       \<and> read_mvt_bytes data p = Some (bs, pos + length (encode_field f))"
    by (rule skip_encoded_field [OF at wf, where num = 1]) (rule that)
  show ?case
  proof (cases "payload_of 1 f")
    case None
    have IH: "mvt_layer_name_from data (pos + length (encode_field f)) =
        first_payload 1 fs"
      using Cons.IH [OF rest] Cons.prems(2,3) by simp
    have "mvt_layer_name_from data pos = mvt_layer_name_from data (pos + length (encode_field f))"
      by (subst mvt_layer_name_from.simps) (use none [OF None] f in auto)
    with IH None show ?thesis by (simp add: first_payload_def List.map_filter_simps)
  next
    case (Some bs)
    have "mvt_layer_name_from data pos = bs"
      by (subst mvt_layer_name_from.simps) (use some [OF Some] f in simp)
    with Some show ?thesis by (simp add: first_payload_def List.map_filter_simps)
  qed
qed

lemma mvt_layer_names_encoded:
  "at_pos data pos (encode_message fs) \<Longrightarrow> pos + length (encode_message fs) = length data \<Longrightarrow>
   list_all wf_field fs \<Longrightarrow>
   mvt_layer_names_from data pos names
     = foldl add_name names (map mvt_layer_name (List.map_filter (payload_of 3) fs))"
proof (induction fs arbitrary: pos names)
  case Nil
  then show ?case by (subst mvt_layer_names_from.simps) (simp add: List.map_filter_simps)
next
  case (Cons f fs)
  then have at: "at_pos data pos (encode_field f)"
    and rest: "at_pos data (pos + length (encode_field f)) (encode_message fs)" and wf: "wf_field f"
    by (simp_all add: at_pos_append)
  obtain key p where f: "read_mvt_varint data pos = Some (key, p)"
      "skip_mvt_field data p (key_wire key) = Some (pos + length (encode_field f))"
      "pos < length data"
    and none: "payload_of 3 f = None \<Longrightarrow> \<not> (key_field key = 3 \<and> key_wire key = 2)"
    and some: "\<And>bs. payload_of 3 f = Some bs \<Longrightarrow> key_field key = 3 \<and> key_wire key = 2
       \<and> read_mvt_bytes data p = Some (bs, pos + length (encode_field f))"
    by (rule skip_encoded_field [OF at wf, where num = 3]) (rule that)
  show ?case
  proof (cases "payload_of 3 f")
    case None
    have IH: "mvt_layer_names_from data (pos + length (encode_field f)) names =
        foldl add_name names (map mvt_layer_name (List.map_filter (payload_of 3) fs))"
      using Cons.IH [OF rest] Cons.prems(2,3) by simp
    have "mvt_layer_names_from data pos names = mvt_layer_names_from data (pos + length (encode_field f)) names"
      by (subst mvt_layer_names_from.simps) (use none [OF None] f in auto)
    with IH None show ?thesis by (simp add: List.map_filter_simps)
  next
    case (Some bs)
    have IH: "mvt_layer_names_from data (pos + length (encode_field f)) (add_name names (mvt_layer_name bs))
        = foldl add_name (add_name names (mvt_layer_name bs))
            (map mvt_layer_name (List.map_filter (payload_of 3) fs))"
      using Cons.IH [OF rest] Cons.prems(2,3) by simp
    have "mvt_layer_names_from data pos names =
        mvt_layer_names_from data (pos + length (encode_field f)) (add_name names (mvt_layer_name bs))"
      by (subst mvt_layer_names_from.simps) (use some [OF Some] f in \<open>simp add: Let_def add_name_def\<close>)
    with IH Some show ?thesis by (simp add: List.map_filter_simps)
  qed
qed

section \<open>Imported layers\<close>

definition entry_ids :: "pmtiles_dir_entry \<Rightarrow> u64 list" where
  "entry_ids e = map (\<lambda>i. tile_id e + word_of_nat i) [0 ..< unat (run_length e)]"

definition entry_bytes :: "bytes \<Rightarrow> pmtiles_dir_entry \<Rightarrow> bytes" where
  "entry_bytes tiles e = take (unat (entry_length e)) (drop (unat (entry_offset e)) tiles)"

lemma entry_rows_ids: "entry_rows env tiles e = map (id_row env (entry_bytes tiles e)) (entry_ids e)"
  by (simp add: entry_rows_def entry_ids_def entry_bytes_def)

lemma same_entry:
  "distinct (concat (map f es)) \<Longrightarrow> e \<in> set es \<Longrightarrow> e' \<in> set es \<Longrightarrow> t \<in> set (f e) \<Longrightarrow> t \<in> set (f e') \<Longrightarrow>
   e = e'"
  by (induction es) auto

lemma infer_steps_keep [simp]:
  "layer_table (infer_format_step env db l) = layer_table l"
  "tile_scheme (infer_format_step env db l) = tile_scheme l"
  "layer_compression (infer_format_step env db l) = layer_compression l"
  "layer_table (infer_vector_step env db l) = layer_table l"
  "tile_scheme (infer_vector_step env db l) = tile_scheme l"
  "layer_compression (infer_vector_step env db l) = layer_compression l"
  by (simp_all add: infer_format_step_def infer_vector_step_def split: prod.splits)

lemma complete_metadata_Nil: "complete_metadata env h [] =
  [(''datadock:source_format'', ''pmtiles''), (''datadock:tile_scheme'', ''xyz''),
   (''datadock:tile_compression'', pmtiles_compression_name (tile_compression h)),
   (''format'', pmtiles_tile_type_name (tile_type h)),
   (''minzoom'', nat_digits (unat (min_zoom h))), (''maxzoom'', nat_digits (unat (max_zoom h)))] @
   (if sint (min_lon_e7 h) \<le> sint (max_lon_e7 h) \<and> sint (min_lat_e7 h) \<le> sint (max_lat_e7 h)
    then [(''bounds'', join_comma [format_e7 env (sint (min_lon_e7 h)), format_e7 env (sint (min_lat_e7 h)),
            format_e7 env (sint (max_lon_e7 h)), format_e7 env (sint (max_lat_e7 h))])] else [])"
  by (simp add: complete_metadata_def set_default_def header_bounds_def)

text \<open>The metadata a layer reads back: looked up by normalised name, a later row wins.\<close>

definition read_metadata :: "(string \<times> string) list \<Rightarrow> metadata" where
  "read_metadata kvs = fold (\<lambda>(n, v) m. AList.update (to_lower (trim_space n)) v m) kvs []"

lemma map_of_read_metadata:
  assumes "\<forall>(n, v)\<in>set kvs. to_lower (trim_space n) = n"
  shows "map_of (read_metadata kvs) = map_of (rev kvs)"
proof -
  have "map_of (fold (\<lambda>(n, v) m. AList.update (to_lower (trim_space n)) v m) kvs m) = map_of m ++ map_of (rev kvs)"
    for m
    using assms
  proof (induction kvs arbitrary: m)
    case (Cons kv kvs)
    then show ?case by (auto simp: AList.update_conv' map_add_def split: option.splits)
  qed simp
  from this [of "[]"] show ?thesis by (simp add: read_metadata_def)
qed

lemma metadata_query_rows:
  assumes "\<forall>r\<in>set ts. r ! 0 = ''tile''"
  shows "metadata_query (metadata_rows m @ ts) = map (\<lambda>k. (k, the (map_of m k))) (sort (map fst m))"
proof -
  have "filter (\<lambda>r. r ! 0 = ''metadata'') ts = []" using assms by (auto simp: filter_empty_conv)
  then show ?thesis by (simp add: metadata_query_def metadata_rows_def comp_def)
qed

lemma read_back_metadata:
  assumes "\<forall>r\<in>set ts. r ! 0 = ''tile''" and "\<forall>k\<in>fst ` set m. to_lower (trim_space k) = k"
  shows "map_of (read_metadata (metadata_query (metadata_rows m @ ts))) = map_of m"
proof -
  let ?kvs = "metadata_query (metadata_rows m @ ts)"
  have kvs: "?kvs = map (\<lambda>k. (k, the (map_of m k))) (sort (map fst m))"
    using assms(1) by (rule metadata_query_rows)
  then have "map_of (read_metadata ?kvs) = map_of (rev ?kvs)"
    using assms(2) by (intro map_of_read_metadata) auto
  also have "map_of (rev ?kvs) = map_of m"
  proof
    fix k
    have "map_of (rev ?kvs) k = (if k \<in> fst ` set m then Some (the (map_of m k)) else None)"
      by (simp add: kvs rev_map map_of_map_restrict restrict_map_def)
    with map_of_eq_None_iff [of m k] show "map_of (rev ?kvs) k = map_of m k" by (cases "map_of m k") auto
  qed
  finally show ?thesis by blast
qed

lemma normalised_keys:
  "map (\<lambda>s. to_lower (trim_space s)) [''datadock:source_format'', ''datadock:tile_scheme'',
     ''datadock:tile_compression'', ''format'', ''minzoom'', ''maxzoom'', ''bounds'', ''pmtiles'', ''xyz'']
   = [''datadock:source_format'', ''datadock:tile_scheme'', ''datadock:tile_compression'', ''format'',
      ''minzoom'', ''maxzoom'', ''bounds'', ''pmtiles'', ''xyz'']"
  by code_simp

lemma compression_name_normalised:
  "to_lower (trim_space (pmtiles_compression_name c)) = pmtiles_compression_name c"
proof -
  have "map (\<lambda>s. to_lower (trim_space s)) [''none'', ''gzip'', ''br'', ''zstd'', ''unknown'']
      = [''none'', ''gzip'', ''br'', ''zstd'', ''unknown'']" by code_simp
  then show ?thesis by (simp add: pmtiles_compression_name_def)
qed

lemma entry_row_cases:
  assumes ok: "entry_ok tiles e" and r: "r \<in> set (entry_rows env tiles e)"
  obtains t z x y where "t \<in> set (entry_ids e)" "pmtiles_id_to_zxy t = Some (z, x, y)"
    "r = tile_row_of env (entry_bytes tiles e) z x y"
proof -
  from r obtain i where i: "i < unat (run_length e)"
    and req: "r = id_row env (entry_bytes tiles e) (tile_id e + word_of_nat i)"
    unfolding entry_rows_ids by (auto simp: entry_ids_def)
  let ?t = "tile_id e + word_of_nat i"
  have sum: "unat (tile_id e) + i < level_base 31" using ok i by (simp add: entry_ok_def)
  then have "unat (word_of_nat i :: u64) = i"
    using level_base_31 by (simp only: unat_of_nat) simp
  with sum level_base_31 have "unat ?t < level_base 31" by (simp add: unat_plus_if')
  then obtain z x y where "pmtiles_id_to_zxy ?t = Some (z, x, y)"
    using id_to_zxy_None_iff [of ?t] by (cases "pmtiles_id_to_zxy ?t") auto
  with i req show thesis by (intro that [of ?t z x y]) (auto simp: entry_ids_def id_row_def)
qed

lemma load_imported_layer:
  assumes "is_valid_identifier table" "\<not> is_data_dock_system_object table"
    and db: "db table = Some (metadata_rows (complete_metadata penv h []) @ ts)"
    and ts: "\<forall>r\<in>set ts. r ! 0 = ''tile''"
  shows "\<exists>layer. load_map_tile_layer env db table = Inr layer \<and> layer_table layer = table
    \<and> tile_scheme layer = ''xyz'' \<and> layer_compression layer = pmtiles_compression_name (tile_compression h)"
proof -
  let ?m = "complete_metadata penv h []"
  let ?r = "read_metadata (metadata_query (metadata_rows ?m @ ts))"
  have "\<forall>k\<in>fst ` set ?m. to_lower (trim_space k) = k"
    using normalised_keys by (simp add: complete_metadata_Nil)
  then have r: "map_of ?r = map_of ?m" by (rule read_back_metadata [OF ts])
  have "meta_get ?r ''datadock:source_format'' = ''pmtiles''"
    "meta_get ?r ''datadock:tile_scheme'' = ''xyz''"
    "meta_get ?r ''datadock:tile_compression'' = pmtiles_compression_name (tile_compression h)"
    unfolding meta_get_def r by (simp_all add: complete_metadata_Nil)
  moreover note defs = read_metadata_def [symmetric] compression_name_normalised
  ultimately show ?thesis
    using assms(1,2) db normalised_keys
    by (simp add: load_map_tile_layer_def defs Let_def)
qed

lemma find_match:
  assumes "r \<in> set xs" "P r" and "\<And>r'. r' \<in> set xs \<Longrightarrow> P r' \<Longrightarrow> f r' = v"
  shows "map_option f (find P xs) = Some v"
proof (cases "find P xs")
  case None
  with assms show ?thesis by (simp add: find_None_iff)
next
  case (Some r')
  then have "P r'" "r' \<in> set xs" by (auto simp: find_Some_iff)
  with Some assms(3) show ?thesis by simp
qed

lemma parse_tile_coordinates:
  assumes "z \<le> 30" "x < 2 ^ z" "y < 2 ^ z"
  shows "parse_map_tile_coordinates (nat_digits z) (nat_digits x) (nat_digits y) = Some (z, x, y)"
proof -
  have "(2 :: nat) ^ z \<le> 2 ^ 30" using assms(1) by (intro power_increasing) auto
  then have "int z \<le> max_int64" "int x \<le> max_int64" "int y \<le> max_int64"
    using assms by (auto simp: max_int64_def)
  moreover have "int x < 2 ^ z" "int y < 2 ^ z"
    using assms(2,3) by (metis of_nat_less_iff of_nat_numeral of_nat_power)+
  ultimately show ?thesis
    using assms by (simp add: parse_map_tile_coordinates_def atoi_nat_digits)
qed

lemma served_archive:
  assumes "es \<noteq> []" "\<forall>e\<in>set es. entry_ok tiles e"
    "sum_list (map (\<lambda>e. unat (run_length e)) es) \<le> max_total_tiles"
    "length (write_archive h es tiles) < 2 ^ 64"
    and dist: "distinct (concat (map entry_ids es))"
    and b64: "\<And>bs. base64_decode env (base64_encode env bs) = Some bs"
    and table: "is_valid_identifier table" "\<not> is_data_dock_system_object table"
    and imported: "map_option tl (case pmtiles_records (pm_env.truncate env) (write_archive h es tiles) of
        Inr records \<Rightarrow> Some records | Inl _ \<Rightarrow> None) = db table"
    and e: "e \<in> set es" "i < unat (run_length e)"
    and zxy: "pmtiles_id_to_zxy (tile_id e + word_of_nat i) = Some (z, x, y)"
  shows "\<exists>format. api_map_tile env True db table
      (nat_digits z) (nat_digits (unat x)) (nat_digits (unat y))
    = Tile (map_tile_content_type format (entry_bytes tiles e))
        (map_tile_content_encoding (pmtiles_compression_name (tile_compression h)))
        (entry_bytes tiles e)"
proof -
  let ?penv = "pm_env.truncate env" and ?tid = "tile_id e + word_of_nat i"
  let ?ts = "concat (map (entry_rows ?penv tiles) es)"
  let ?rows = "metadata_rows (complete_metadata ?penv h []) @ ?ts"
  let ?P = "\<lambda>r. r ! 0 = ''tile'' \<and> r ! 3 = nat_digits z \<and> r ! 4 = nat_digits (unat x)
      \<and> r ! 5 = nat_digits (unat y)"
  have db: "db table = Some ?rows"
    using imported pmtiles_records_write_archive [OF assms(1-4), of ?penv] by simp
  have row: "\<exists>e'\<in>set es. \<exists>t\<in>set (entry_ids e'). \<exists>z' x' y'. pmtiles_id_to_zxy t = Some (z', x', y')
      \<and> r = tile_row_of ?penv (entry_bytes tiles e') z' x' y'" if "r \<in> set ?ts" for r
  proof -
    from that obtain e' where e': "e' \<in> set es" "r \<in> set (entry_rows ?penv tiles e')" by auto
    with assms(2) have "entry_ok tiles e'" by blast
    from entry_row_cases [OF this e'(2)] e'(1) show ?thesis by metis
  qed
  have tile_rows: "\<forall>r\<in>set ?ts. r ! 0 = ''tile''"
    using row by (fastforce simp: tile_row_of_def)
  obtain layer where layer: "load_map_tile_layer env db table = Inr layer"
    "layer_table layer = table" "tile_scheme layer = ''xyz''"
    "layer_compression layer = pmtiles_compression_name (tile_compression h)"
    using load_imported_layer [of table db ?penv h ?ts env, OF table db tile_rows] by blast
  have tid: "?tid \<in> set (entry_ids e)" using e(2) by (auto simp: entry_ids_def)
  have "map_option (\<lambda>r. r ! 8) (find ?P ?rows)
      = Some (base64_encode env (entry_bytes tiles e))"
  proof (rule find_match)
    show "tile_row_of ?penv (entry_bytes tiles e) z x y \<in> set ?rows"
      using e(1) tid zxy by (auto simp: entry_rows_ids id_row_def intro!: bexI [of _ e] image_eqI)
    show "?P (tile_row_of ?penv (entry_bytes tiles e) z x y)" by (simp add: tile_row_of_def)
    fix r assume r: "r \<in> set ?rows" and P: "?P r"
    from r P have "r \<in> set ?ts" by (auto simp: metadata_rows_def)
    from row [OF this] obtain e' t z' x' y' where e': "e' \<in> set es" "t \<in> set (entry_ids e')"
      and t: "pmtiles_id_to_zxy t = Some (z', x', y')"
      and req: "r = tile_row_of ?penv (entry_bytes tiles e') z' x' y'" by blast
    from P req have "z' = z" "x' = x" "y' = y"
      by (simp_all add: tile_row_of_def nat_digits_inj word_unat_eq_iff)
    with t zxy have "t = ?tid" by (auto intro: id_to_zxy_inj)
    then have "e' = e" using same_entry [OF dist e'(1) e(1)] e'(2) tid by blast
    with req show "r ! 8 = base64_encode env (entry_bytes tiles e)"
      by (simp add: tile_row_of_def pm_env.truncate_def)
  qed
  moreover have "parse_map_tile_coordinates (nat_digits z) (nat_digits (unat x)) (nat_digits (unat y))
      = Some (z, unat x, unat y)"
    using id_to_zxy_Some(1,5,6) [OF zxy] by (rule parse_tile_coordinates)
  ultimately show ?thesis
    using layer db b64
    by (auto simp: api_map_tile_def tile_query_def stored_tile_row_def)
qed

section \<open>Arbitrary input\<close>

lemma mvt_layer_name_sublist: "sublist (mvt_layer_name_from data pos) data"
proof (induction data pos rule: mvt_layer_name_from.induct)
  case (1 data pos)
  then show ?case
    by (subst mvt_layer_name_from.simps)
       (auto split: option.splits dest: read_mvt_bytes_bounds(3))
qed

definition good_names :: "bytes \<Rightarrow> bytes list \<Rightarrow> bool" where
  "good_names data names \<longleftrightarrow> distinct names \<and> (\<forall>n\<in>set names. n \<noteq> [] \<and> sublist n data)"

lemma mvt_layer_names_good:
  "good_names data names \<Longrightarrow> good_names data (mvt_layer_names_from data pos names)"
proof (induction data pos names rule: mvt_layer_names_from.induct)
  case (1 data pos names)
  have add: "good_names data (if mvt_layer_name layer \<noteq> [] \<and> mvt_layer_name layer \<notin> set names
      then names @ [mvt_layer_name layer] else names)"
    if "read_mvt_bytes data p = Some (layer, p')" for layer p p'
    using "1.prems" read_mvt_bytes_bounds(3) [OF that] mvt_layer_name_sublist [of layer 0]
    by (auto simp: good_names_def mvt_layer_name_def intro: sublist_order.order_trans)
  show ?case
    using 1 add by (subst mvt_layer_names_from.simps) (auto split: option.splits simp: Let_def)
qed

lemma bounds_values:
  "map_metadata_bounds env raw = Some b \<Longrightarrow> length b = 4"
  "map_metadata_bounds env raw = Some b \<Longrightarrow> \<not> out_of_bounds b"
  by (auto simp: map_metadata_bounds_def Let_def comp_def split: if_splits)

lemma checked_interval:
  "\<not> float_less hi lo \<Longrightarrow> \<not> float_less lo (Finite (- c)) \<Longrightarrow> \<not> float_less (Finite c) hi \<Longrightarrow>
   lo \<noteq> Not_A_Number \<Longrightarrow> hi \<noteq> Not_A_Number \<Longrightarrow>
   \<exists>l h. lo = Finite l \<and> hi = Finite h \<and> - c \<le> l \<and> l \<le> h \<and> h \<le> c"
  by (cases lo; cases hi) auto

section \<open>Properties\<close>


definition sample_map_env :: map_env where
  "sample_map_env =
     \<lparr>gzip_open = \<lambda>_. Inl ''gzip: invalid header'', brotli_open = \<lambda>_. ([], None),
      zstd_open = \<lambda>_. Inl ''invalid input: magic number mismatch'',
      json_object = \<lambda>_. Inr [], sha256_hex = \<lambda>bs. nat_digits (length bs),
      base64_encode = bytes_string, format_e7 = \<lambda>i. nat_digits (nat i),
      base64_decode = \<lambda>s. Some (string_bytes s), json_value = \<lambda>_. None,
      parse_float = \<lambda>s. map_option (\<lambda>n. Finite (of_nat n)) (unsigned_digits s)\<rparr>"

definition sample_db :: database where
  "sample_db t =
     map_option tl (case pmtiles_records (pm_env.truncate sample_map_env)
        (write_archive sample_header sample_entries [1, 2, 3, 4, 5]) of
        Inr records \<Rightarrow> Some records | Inl _ \<Rightarrow> None)"

lemma string_bytes_inverse: "string_bytes (bytes_string bs) = bs"
proof -
  have "word_of_nat (of_char (char_of (unat b))) = b" for b :: u8
    using unsigned_less [of b, where ?'a = nat] by simp
  then show ?thesis by (simp add: string_bytes_def bytes_string_def comp_def)
qed


text \<open>
  the layer names of a vector tile are found in every well-formed message, whatever
  other fields of whatever wire type stand between them: they are the distinct non-empty names of
  its layers in the order of their first occurrence, where the name of a layer is the first
  field 1 of its message.
\<close>

theorem mvt_layer_names_round_trip:
  assumes "list_all wf_field fs"
  shows "mvt_layer_names (encode_message fs)
      = foldl add_name [] (map mvt_layer_name (List.map_filter (payload_of 3) fs))
    \<and> mvt_layer_name (encode_message fs) = first_payload 1 fs"
  using mvt_layer_names_encoded [of "encode_message fs" 0 fs "[]"]
    mvt_layer_name_encoded [of "encode_message fs" 0 fs] assms
  by (simp_all add: mvt_layer_names_def mvt_layer_name_def at_pos_def)

definition sample_layers :: "mvt_field list" where
  "sample_layers =
     [Varint_Field 15 2, Bytes_Field 3 (encode_message [Varint_Field 15 2, Bytes_Field 1 [119, 97]]),
      Fixed32_Field 4 [0, 0, 0, 0], Bytes_Field 3 (encode_message [Bytes_Field 1 [114]]),
      Bytes_Field 3 (encode_message [Bytes_Field 1 [119, 97], Fixed64_Field 2 [0, 0, 0, 0, 0, 0, 0, 0]])]"

theorem mvt_layer_names_round_trip_witness:
  "mvt_layer_names (encode_message sample_layers) = [[119, 97], [114]]"
proof -
  have "list_all wf_field sample_layers"
    by (simp add: sample_layers_def field_key_unat encode_varint.simps)
  from mvt_layer_names_round_trip [OF this]
  have "mvt_layer_names (encode_message sample_layers)
    = foldl add_name [] (map mvt_layer_name (List.map_filter (payload_of 3) sample_layers))" by blast
  also have "\<dots> = [[119, 97], [114]]"
    by (simp add: sample_layers_def List.map_filter_simps first_payload_def add_name_def
        mvt_layer_names_round_trip [THEN conjunct2] del: encode_message_simps)
  finally show ?thesis .
qed

text \<open>
  on any bytes at all the layer scanner ends and returns distinct, non-empty names, each
  a part of the tile: no read leaves the buffer.
\<close>

theorem mvt_layer_names_safe:
  "distinct (mvt_layer_names data)
   \<and> list_all (\<lambda>name. name \<noteq> [] \<and> sublist name data) (mvt_layer_names data)"
  using mvt_layer_names_good [of data "[]" 0]
  by (simp add: good_names_def mvt_layer_names_def list_all_iff)

text \<open>
  bounds from the layer's metadata that the server accepts, when none of them is NaN, are
  a real box: four finite numbers, west to east within 180 degrees, south to north within 90.
\<close>

theorem map_bounds_in_range:
  assumes "map_metadata_bounds env raw = Some b" and "Not_A_Number \<notin> set b"
  shows "\<exists>w s e n. b = [Finite w, Finite s, Finite e, Finite n]
    \<and> - 180 \<le> w \<and> w \<le> e \<and> e \<le> 180 \<and> - 90 \<le> s \<and> s \<le> n \<and> n \<le> 90"
proof -
  from bounds_values(1) [OF assms(1)] obtain w s e n where four: "b = [w, s, e, n]"
    by (auto simp: numeral_eq_Suc length_Suc_conv)
  from bounds_values(2) [OF assms(1)] assms(2) checked_interval [of e w 180] checked_interval [of n s 90]
  have "\<exists>l h. w = Finite l \<and> e = Finite h \<and> - 180 \<le> l \<and> l \<le> h \<and> h \<le> 180"
    and "\<exists>l h. s = Finite l \<and> n = Finite h \<and> - 90 \<le> l \<and> l \<le> h \<and> h \<le> 90"
    by (auto simp: four out_of_bounds_def)
  then show ?thesis by (auto simp: four)
qed

theorem map_bounds_in_range_witness:
  "map_metadata_bounds sample_map_env ''1,2, 30,40'' = Some (map Finite [1, 2, 30, 40])
   \<and> (\<exists>w s e n. map Finite [1, 2, 30, 40] = [Finite w, Finite s, Finite e, Finite n]
    \<and> - 180 \<le> w \<and> w \<le> e \<and> e \<le> 180 \<and> - 90 \<le> s \<and> s \<le> n \<and> n \<le> 90)"
proof -
  have "map_metadata_bounds sample_map_env ''1,2, 30,40'' = Some (map Finite [1, 2, 30, 40])"
    by code_simp
  with map_bounds_in_range [OF this] show ?thesis by simp
qed

text \<open>NaN passes every comparison of the check: \<^verbatim>\<open>NaN,NaN,NaN,NaN\<close> is accepted as a box.\<close>

lemma map_bounds_accept_nan:
  assumes "parse_float env ''NaN'' = Some Not_A_Number"
  shows "map_metadata_bounds env ''NaN,NaN,NaN,NaN'' = Some (replicate 4 Not_A_Number)"
proof -
  have "split_on (CHR '','') ''NaN,NaN,NaN,NaN'' = replicate 4 ''NaN''" by code_simp
  moreover have "trim_space ''NaN'' = ''NaN''" by code_simp
  ultimately show ?thesis
    using assms by (simp add: map_metadata_bounds_def Let_def out_of_bounds_def numeral_eq_Suc)
qed

end
