(* ===== verification/NamedStore.thy ===== *)
theory NamedStore
  imports GoText "HOL-Library.Multiset"
begin

text \<open>
  DataDock's own metadata tables (settings, row policies, schedules, saved queries) have no unique
  constraint: a row is overwritten by \<^verbatim>\<open>DELETE \<dots> WHERE name = ?\<close> followed by \<^verbatim>\<open>INSERT\<close>.  A table is the
  list of its rows.  Each statement may fail; the oracle \<open>fails label key\<close> says whether the
  statement with that operation label does.  The result of an operation is the error, if any, with
  the table as it is left.

  The locale \<open>named_rows\<close> is the contract of such an upsert; the components interpret it on their
  own save operations.
\<close>

datatype app_error =
  Message string
| Exec_Failed string

type_synonym exec_env = "string \<Rightarrow> string \<Rightarrow> bool"

definition no_failures :: exec_env where
  "no_failures label key = False"

text \<open>Delete the rows of a key, then insert one.\<close>

definition delete_rows :: "('r \<Rightarrow> string) \<Rightarrow> string \<Rightarrow> 'r list \<Rightarrow> 'r list" where
  "delete_rows key k t = filter (\<lambda>r. key r \<noteq> k) t"

definition rows_of :: "('r \<Rightarrow> string) \<Rightarrow> string \<Rightarrow> 'r list \<Rightarrow> 'r list" where
  "rows_of key k t = filter (\<lambda>r. key r = k) t"

definition upsert_row :: "('r \<Rightarrow> string) \<Rightarrow> 'r \<Rightarrow> 'r list \<Rightarrow> 'r list" where
  "upsert_row key r t = delete_rows key (key r) t @ [r]"

named_theorems store_simps

lemma rows_of_delete [simp, store_simps]:
  "rows_of key k (delete_rows key k' t) = (if k = k' then [] else rows_of key k t)"
  by (auto simp: rows_of_def delete_rows_def filter_empty_conv intro: filter_cong)

lemma rows_of_append [simp, store_simps]: "rows_of key k (t @ u) = rows_of key k t @ rows_of key k u"
  by (simp add: rows_of_def)

lemma rows_of_single [simp, store_simps]: "rows_of key k [r] = (if key r = k then [r] else [])"
  by (simp add: rows_of_def)

lemma rows_of_Nil [simp, store_simps]: "rows_of key k [] = []"
  by (simp add: rows_of_def)

lemma rows_of_upsert [store_simps]:
  "rows_of key k (upsert_row key r t) = (if k = key r then [r] else rows_of key k t)"
  by (simp add: upsert_row_def)

text \<open>Saving a batch of rows: stop at the first error.\<close>

fun save_all :: "('r \<Rightarrow> 'r list \<Rightarrow> 'e option \<times> 'r list) \<Rightarrow> 'r list \<Rightarrow> 'r list \<Rightarrow> 'e option \<times> 'r list" where
  "save_all save [] t = (None, t)"
| "save_all save (r # rs) t =
     (case save r t of (Some e, t') \<Rightarrow> (Some e, t') | (None, t') \<Rightarrow> save_all save rs t')"

section \<open>The contract of a save operation\<close>

text \<open>
  \<open>save row table\<close> yields the error and the new table; \<open>can_fail\<close> says whether any of its
  statements may fail for that row.
\<close>

locale named_rows =
  fixes save :: "'r \<Rightarrow> 'r list \<Rightarrow> 'e option \<times> 'r list"
    and key :: "'r \<Rightarrow> string"
    and accepted :: "'r \<Rightarrow> bool"
  assumes save_ok: "accepted r \<Longrightarrow> fst (save r t) = None"
    and save_hits: "accepted r \<Longrightarrow> rows_of key (key r) (snd (save r t)) = [r]"
    and save_others: "k \<noteq> key r \<Longrightarrow> rows_of key k (snd (save r t)) = rows_of key k t"
begin

text \<open>At most one row per name, whatever is saved in whatever order.\<close>

definition unique_keys :: "'r list \<Rightarrow> bool" where
  "unique_keys t \<longleftrightarrow> (\<forall>k. length (rows_of key k t) \<le> 1)"

lemma save_unique:
  assumes "unique_keys t" "accepted r"
  shows "unique_keys (snd (save r t))"
  unfolding unique_keys_def
proof
  fix k
  show "length (rows_of key k (snd (save r t))) \<le> 1"
    using assms save_hits [of r t] save_others [of k r t]
    by (cases "k = key r") (auto simp: unique_keys_def)
qed

lemma save_saves_last:
  "accepted r \<Longrightarrow> accepted r' \<Longrightarrow> key r = key r' \<Longrightarrow>
   rows_of key (key r') (snd (save r' (snd (save r t)))) = [r']"
  by (rule save_hits)

lemma saves_commute:
  "accepted r \<Longrightarrow> accepted r' \<Longrightarrow> key r \<noteq> key r' \<Longrightarrow>
   rows_of key k (snd (save r' (snd (save r t)))) = rows_of key k (snd (save r (snd (save r' t))))"
  using save_hits [of r] save_hits [of r'] save_others [of k r] save_others [of k r']
  by (cases "k = key r"; cases "k = key r'") auto

lemma save_all_rows:
  assumes "\<forall>r\<in>set rs. accepted r" "distinct (map key rs)"
  shows "fst (save_all save rs t) = None
    \<and> rows_of key k (snd (save_all save rs t))
        = (if k \<in> key ` set rs then rows_of key k rs else rows_of key k t)"
  using assms
proof (induction rs arbitrary: t)
  case (Cons r rs)
  obtain t' where t': "save r t = (None, t')"
    using save_ok [of r t] Cons.prems by (cases "save r t") auto
  have hit: "rows_of key (key r) t' = [r]" and other: "k' \<noteq> key r \<Longrightarrow> rows_of key k' t' = rows_of key k' t" for k'
    using save_hits [of r t] save_others [of k' r t] t' Cons.prems by simp_all
  have none: "key r \<notin> key ` set rs" using Cons.prems(2) by simp
  then have "rows_of key (key r) rs = []" by (metis (mono_tags, lifting) filter_False image_eqI rows_of_def)
  with Cons.IH [of t'] Cons.prems t' hit other none show ?case
    by (cases "k = key r") (auto simp: rows_of_def)
qed simp

end

end
