(* ===== verification/Settings.thy ===== *)
theory Settings
  imports NamedStore
begin

text \<open>
  Runtime settings (\<^verbatim>\<open>settings.go\<close>), the authentication mode (\<^verbatim>\<open>auth_mode.go\<close>) and the dialect
  profiles (\<^verbatim>\<open>dialect.go\<close>): validation and application of a settings record, its storage in the
  key/value table and its reload at start-up.

  Durations are integers (nanoseconds).  The environment carries \<^verbatim>\<open>time.Duration.String\<close> with
  \<^verbatim>\<open>time.ParseDuration\<close>, \<^verbatim>\<open>net.SplitHostPort\<close> and \<^verbatim>\<open>net.ParseIP\<close> with \<^verbatim>\<open>IsLoopback\<close>, and the order in
  which Go iterates over the map of values to store.
\<close>

record settings_env =
  format_duration :: "int \<Rightarrow> string"
  parse_duration :: "string \<Rightarrow> int option"
  split_host :: "string \<Rightarrow> string option"
  ip_is_loopback :: "string \<Rightarrow> bool option"
  iteration :: "(string \<times> string) list \<Rightarrow> (string \<times> string) list"
  exec_fails :: exec_env

section \<open>Authentication mode\<close>

datatype auth_mode = Auth_Mode_Local | Auth_Mode_None

definition auth_mode_text :: "auth_mode \<Rightarrow> string" where
  "auth_mode_text mode = (case mode of Auth_Mode_Local \<Rightarrow> ''local'' | Auth_Mode_None \<Rightarrow> ''none'')"

definition normalize_auth_mode :: "string \<Rightarrow> app_error + auth_mode" where
  "normalize_auth_mode raw =
     (let mode = to_lower (trim_space raw) in
      if mode = [] then Inr Auth_Mode_Local
      else if mode = ''local'' then Inr Auth_Mode_Local
      else if mode = ''none'' then Inr Auth_Mode_None
      else if mode = ''trusted-header'' \<or> mode = ''oidc''
      then Inl (Message ''auth-mode is not implemented yet'')
      else Inl (Message ''unknown auth-mode''))"

definition is_loopback_addr :: "settings_env \<Rightarrow> string \<Rightarrow> bool" where
  "is_loopback_addr env addr =
     (let host = trim_space (case split_host env addr of None \<Rightarrow> addr | Some h \<Rightarrow> h) in
      if host = [] then False
      else if equal_fold host ''localhost'' then True
      else (case ip_is_loopback env host of None \<Rightarrow> False | Some b \<Rightarrow> b))"

section \<open>Dialects\<close>

text \<open>A profile: its name and aliases; the remaining fields only feed prompts.\<close>

definition dialect_profiles :: "(string \<times> string list) list" where
  "dialect_profiles =
     [(''tinySQL'', [''tiny'', ''tinysql'']), (''SQLite'', [''sqlite3'']),
      (''PostgreSQL'', [''postgres'', ''pg'']), (''MariaDB/MySQL'', [''mysql'', ''mariadb'']),
      (''Microsoft SQL Server'', [''mssql'', ''sqlserver'', ''sql-server''])]"

definition dialect_profile_for_name :: "string \<Rightarrow> string" where
  "dialect_profile_for_name raw =
     (let trimmed = to_lower (trim_space raw);
          name = (if trimmed = [] then ''tinysql'' else trimmed) in
      case find (\<lambda>(p, aliases). equal_fold name p \<or> name \<in> set (map to_lower aliases)) dialect_profiles of
        Some (p, _) \<Rightarrow> p
      | None \<Rightarrow> ''tinySQL'')"

definition default_blocked_auto_words :: "string list" where
  "default_blocked_auto_words =
     [''DROP'', ''DELETE'', ''UPDATE'', ''ALTER'', ''TRUNCATE'', ''ATTACH'', ''PRAGMA'', ''INSERT'',
      ''CREATE'', ''MERGE'', ''EXEC'', ''CALL'']"

definition tinysql_blocked_auto_words :: "string list" where
  "tinysql_blocked_auto_words =
     [''DROP'', ''DELETE'', ''UPDATE'', ''ALTER'', ''TRUNCATE'', ''ATTACH'', ''INSERT'', ''CREATE'',
      ''MERGE'', ''EXEC'', ''CALL'']"

definition blocked_auto_words :: "string \<Rightarrow> string list" where
  "blocked_auto_words profile =
     (if profile = ''tinySQL'' then tinysql_blocked_auto_words else default_blocked_auto_words)"

section \<open>Settings\<close>

record runtime_settings =
  rs_dialect :: string
  rs_connect_timeout :: int
  rs_query_timeout :: int
  rs_llm_base_url :: string
  rs_llm_api_key :: string
  rs_llm_model :: string
  rs_llm_timeout :: int
  rs_embedding_base_url :: string
  rs_embedding_api_key :: string
  rs_embedding_model :: string
  rs_vector_index :: string
  rs_vector_warm :: bool
  rs_read_only_mode :: bool
  rs_require_login_for_reads :: bool
  rs_page_size :: int
  rs_match_max_rows :: int
  rs_default_theme :: string
  rs_default_density :: string
  rs_port :: int
  rs_admin_password_hash :: string
  rs_auth_mode :: string
  rs_native_mirror :: bool

text \<open>The fields of \<^verbatim>\<open>App\<close> that \<^verbatim>\<open>applyRuntimeSettings\<close> writes, and the two it reads.\<close>

record app_settings =
  as_dialect :: string
  as_connect_timeout :: int
  as_query_timeout :: int
  as_llm_base_url :: string
  as_llm_api_key :: string
  as_llm_model :: string
  as_llm_timeout :: int
  as_llm_client :: bool
  as_embedding_base_url :: string
  as_embedding_api_key :: string
  as_embedding_model :: string
  as_embedding_client :: "(string \<times> string) option"
  as_vector_index :: string
  as_vector_warm :: bool
  as_read_only_mode :: bool
  as_require_login_for_reads :: bool
  as_page_size :: int
  as_match_max_rows :: int
  as_default_theme :: string
  as_default_density :: string
  as_port :: int
  as_admin_password_hash :: string
  as_auth_mode :: auth_mode
  as_native_mirror :: bool
  as_listen_addr :: string
  as_allow_insecure_remote :: bool

definition default_page_size :: int where "default_page_size = 50"
definition default_match_max_rows :: int where "default_match_max_rows = 2000000"
definition max_match_max_rows :: int where "max_match_max_rows = 50000000"
definition default_ui_theme :: string where "default_ui_theme = ''workbench''"
definition default_ui_density :: string where "default_ui_density = ''comfortable''"

definition allowed_ui_themes :: "string list" where
  "allowed_ui_themes =
     [''workbench'', ''midnight'', ''forest'', ''contrast'', ''solaris'', ''xp'', ''classic2000'', ''kde'']"

definition allowed_ui_densities :: "string list" where
  "allowed_ui_densities = [''comfortable'', ''compact'']"

definition is_allowed_value :: "string \<Rightarrow> string list \<Rightarrow> bool" where
  "is_allowed_value v allowed = (v \<in> set allowed)"

definition first_non_empty :: "string list \<Rightarrow> string" where
  "first_non_empty vs = (case filter (\<lambda>v. trim_space v \<noteq> []) vs of [] \<Rightarrow> [] | v # _ \<Rightarrow> v)"

definition seconds :: "int \<Rightarrow> int" where "seconds n = n * 1000000000"

text \<open>The checks, in the order of the code; the first that fails is the error.\<close>

definition check_settings :: "settings_env \<Rightarrow> app_settings \<Rightarrow> runtime_settings \<Rightarrow> app_error option" where
  "check_settings env a s =
     (let vector_index = to_lower (trim_space (rs_vector_index s)) in
      if rs_connect_timeout s < 0 then Some (Message ''connect timeout must not be negative'')
      else if rs_query_timeout s < 0 then Some (Message ''query timeout must not be negative'')
      else if rs_llm_timeout s < 0 then Some (Message ''llm timeout must not be negative'')
      else if rs_page_size s < 0 then Some (Message ''page size must not be negative'')
      else if rs_page_size s > 1000 then Some (Message ''page size must not exceed 1000'')
      else if rs_match_max_rows s < 0 then Some (Message ''match max rows must not be negative'')
      else if rs_match_max_rows s > max_match_max_rows then Some (Message ''match max rows must not exceed the limit'')
      else if trim_space (rs_default_theme s) \<noteq> [] \<and> \<not> is_allowed_value (rs_default_theme s) allowed_ui_themes
      then Some (Message ''unknown default theme'')
      else if trim_space (rs_default_density s) \<noteq> [] \<and> \<not> is_allowed_value (rs_default_density s) allowed_ui_densities
      then Some (Message ''unknown default density'')
      else if rs_port s < 0 \<or> rs_port s > 65535 then Some (Message ''port must be between 0 and 65535'')
      else if vector_index \<noteq> [] \<and> vector_index \<noteq> ''flat'' \<and> vector_index \<noteq> ''hnsw''
      then Some (Message ''vector index must be flat or hnsw'')
      else (case normalize_auth_mode (rs_auth_mode s) of
          Inl e \<Rightarrow> Some e
        | Inr mode \<Rightarrow>
            if mode = Auth_Mode_None \<and> as_listen_addr a \<noteq> [] \<and> \<not> is_loopback_addr env (as_listen_addr a)
               \<and> \<not> as_allow_insecure_remote a
            then Some (Message ''cannot use auth-mode=none on a non-loopback address'') else None))"

text \<open>\<open>or_default\<close> is the \<^verbatim>\<open>if x == 0 { x = default }\<close> of the code.\<close>

definition or_default :: "int \<Rightarrow> int \<Rightarrow> int" where
  "or_default n d = (if n = 0 then d else n)"

definition embedding_client_of :: "string \<Rightarrow> string \<Rightarrow> string \<Rightarrow> string \<Rightarrow> string \<Rightarrow> (string \<times> string) option" where
  "embedding_client_of base key model llm_base llm_key =
     (if model = [] then None
      else (let url = first_non_empty [base, llm_base] in
        if url = [] then None else Some (url, first_non_empty [key, llm_key])))"

definition apply_runtime_settings ::
    "settings_env \<Rightarrow> runtime_settings \<Rightarrow> app_settings \<Rightarrow> app_error + app_settings" where
  "apply_runtime_settings env s a =
     (case check_settings env a s of
        Some e \<Rightarrow> Inl e
      | None \<Rightarrow>
          (let dialect = (if trim_space (rs_dialect s) = [] then ''tinysql'' else trim_space (rs_dialect s));
               vi = to_lower (trim_space (rs_vector_index s));
               vector_index = (if vi = [] then ''flat'' else vi);
               llm_base = trim_space (rs_llm_base_url s);
               llm_key = trim_space (rs_llm_api_key s);
               llm_model = trim_space (rs_llm_model s);
               llm_timeout = or_default (rs_llm_timeout s) (seconds 45);
               e_base = trim_space (rs_embedding_base_url s);
               e_key = trim_space (rs_embedding_api_key s);
               e_model = trim_space (rs_embedding_model s) in
           bind_res (normalize_auth_mode (rs_auth_mode s)) (\<lambda>mode. Inr
             \<lparr>as_dialect = dialect_profile_for_name dialect,
              as_connect_timeout = or_default (rs_connect_timeout s) (seconds 10),
              as_query_timeout = or_default (rs_query_timeout s) (seconds 60),
              as_llm_base_url = llm_base, as_llm_api_key = llm_key, as_llm_model = llm_model,
              as_llm_timeout = llm_timeout,
              as_llm_client = (llm_base \<noteq> [] \<and> llm_model \<noteq> []),
              as_embedding_base_url = e_base, as_embedding_api_key = e_key,
              as_embedding_model = e_model,
              as_embedding_client = embedding_client_of e_base e_key e_model llm_base llm_key,
              as_vector_index = vector_index,
              as_vector_warm = (rs_vector_warm s \<and> vector_index = ''hnsw''),
              as_read_only_mode = rs_read_only_mode s,
              as_require_login_for_reads = rs_require_login_for_reads s,
              as_page_size = or_default (rs_page_size s) default_page_size,
              as_match_max_rows = or_default (rs_match_max_rows s) default_match_max_rows,
              as_default_theme =
                (if trim_space (rs_default_theme s) = [] then default_ui_theme else rs_default_theme s),
              as_default_density =
                (if trim_space (rs_default_density s) = [] then default_ui_density else rs_default_density s),
              as_port = rs_port s, as_admin_password_hash = rs_admin_password_hash s,
              as_auth_mode = mode, as_native_mirror = rs_native_mirror s,
              as_listen_addr = as_listen_addr a,
              as_allow_insecure_remote = as_allow_insecure_remote a\<rparr>)))"

definition current_runtime_settings :: "app_settings \<Rightarrow> runtime_settings" where
  "current_runtime_settings a =
     \<lparr>rs_dialect = as_dialect a, rs_connect_timeout = as_connect_timeout a,
      rs_query_timeout = as_query_timeout a, rs_llm_base_url = as_llm_base_url a,
      rs_llm_api_key = as_llm_api_key a, rs_llm_model = as_llm_model a,
      rs_llm_timeout = as_llm_timeout a, rs_embedding_base_url = as_embedding_base_url a,
      rs_embedding_api_key = as_embedding_api_key a, rs_embedding_model = as_embedding_model a,
      rs_vector_index = as_vector_index a, rs_vector_warm = as_vector_warm a,
      rs_read_only_mode = as_read_only_mode a,
      rs_require_login_for_reads = as_require_login_for_reads a,
      rs_page_size = as_page_size a, rs_match_max_rows = as_match_max_rows a,
      rs_default_theme = as_default_theme a, rs_default_density = as_default_density a,
      rs_port = as_port a, rs_admin_password_hash = as_admin_password_hash a,
      rs_auth_mode = auth_mode_text (as_auth_mode a), rs_native_mirror = as_native_mirror a\<rparr>"

definition current_page_size :: "app_settings \<Rightarrow> int" where
  "current_page_size a = (if as_page_size a \<le> 0 then default_page_size else as_page_size a)"

definition current_match_max_rows :: "app_settings \<Rightarrow> int" where
  "current_match_max_rows a =
     (if as_match_max_rows a \<le> 0 then default_match_max_rows else as_match_max_rows a)"

definition current_default_theme :: "app_settings \<Rightarrow> string" where
  "current_default_theme a = (if as_default_theme a = [] then default_ui_theme else as_default_theme a)"

definition current_default_density :: "app_settings \<Rightarrow> string" where
  "current_default_density a =
     (if as_default_density a = [] then default_ui_density else as_default_density a)"

definition current_vector_warm_enabled :: "app_settings \<Rightarrow> bool" where
  "current_vector_warm_enabled a = (as_vector_index a = ''hnsw'' \<and> as_vector_warm a)"

definition current_vector_index :: "app_settings \<Rightarrow> string" where
  "current_vector_index a = (if as_vector_index a = ''hnsw'' then ''hnsw'' else ''flat'')"

definition admin_password_is_set :: "app_settings \<Rightarrow> bool" where
  "admin_password_is_set a \<longleftrightarrow> trim_space (as_admin_password_hash a) \<noteq> []"

definition masked_secret :: "string \<Rightarrow> string" where
  "masked_secret raw =
     (let s = trim_space raw in
      if s = [] then [] else if length s \<le> 6 then ''******''
      else take 3 s @ ''...'' @ drop (length s - 3) s)"

section \<open>Storage\<close>

type_synonym settings_table = "(string \<times> string) list"

definition ensure_runtime_settings_table :: "settings_env \<Rightarrow> app_error option" where
  "ensure_runtime_settings_table env =
     (if exec_fails env ''settings.ensure_table'' [] then Some (Exec_Failed ''settings.ensure_table'') else None)"

definition save_setting ::
    "settings_env \<Rightarrow> string \<times> string \<Rightarrow> settings_table \<Rightarrow> app_error option \<times> settings_table" where
  "save_setting env kv t =
     (case ensure_runtime_settings_table env of
        Some e \<Rightarrow> (Some e, t)
      | None \<Rightarrow>
          if exec_fails env ''settings.delete'' (fst kv) then (Some (Exec_Failed ''settings.delete''), t)
          else (let t' = delete_rows fst (fst kv) t in
            if exec_fails env ''settings.insert'' (fst kv) then (Some (Exec_Failed ''settings.insert''), t')
            else (None, t' @ [kv])))"

definition format_bool :: "bool \<Rightarrow> string" where
  "format_bool b = (if b then ''true'' else ''false'')"

definition format_int :: "int \<Rightarrow> string" where
  "format_int i = (if i < 0 then ''-'' @ nat_digits (nat (- i)) else nat_digits (nat i))"

definition setting_values :: "settings_env \<Rightarrow> runtime_settings \<Rightarrow> (string \<times> string) list" where
  "setting_values env s =
     [(''dialect'', rs_dialect s),
      (''connect_timeout'', format_duration env (rs_connect_timeout s)),
      (''query_timeout'', format_duration env (rs_query_timeout s)),
      (''llm_base_url'', rs_llm_base_url s),
      (''llm_api_key'', rs_llm_api_key s),
      (''llm_model'', rs_llm_model s),
      (''llm_timeout'', format_duration env (rs_llm_timeout s)),
      (''embedding_base_url'', rs_embedding_base_url s),
      (''embedding_api_key'', rs_embedding_api_key s),
      (''embedding_model'', rs_embedding_model s),
      (''vector_index'', rs_vector_index s),
      (''vector_warm'', format_bool (rs_vector_warm s)),
      (''read_only_mode'', format_bool (rs_read_only_mode s)),
      (''require_login_for_reads'', format_bool (rs_require_login_for_reads s)),
      (''page_size'', format_int (rs_page_size s)),
      (''match_max_rows'', format_int (rs_match_max_rows s)),
      (''default_theme'', rs_default_theme s),
      (''default_density'', rs_default_density s),
      (''port'', format_int (rs_port s)),
      (''admin_password_hash'', rs_admin_password_hash s),
      (''auth_mode'', rs_auth_mode s),
      (''native_permission_mirror_enabled'', format_bool (rs_native_mirror s))]"

definition save_runtime_settings ::
    "settings_env \<Rightarrow> app_settings \<Rightarrow> settings_table \<Rightarrow> app_error option \<times> settings_table" where
  "save_runtime_settings env a t =
     (case ensure_runtime_settings_table env of
        Some e \<Rightarrow> (Some e, t)
      | None \<Rightarrow> save_all (save_setting env) (iteration env (setting_values env (current_runtime_settings a))) t)"

text \<open>Loading collects the rows into a map, a later row of a key winning.\<close>

definition stored_value :: "settings_table \<Rightarrow> string \<Rightarrow> string" where
  "stored_value t k = (case rows_of fst k t of [] \<Rightarrow> [] | kv # kvs \<Rightarrow> snd (last (kv # kvs)))"

definition parse_bool :: "string \<Rightarrow> bool" where
  "parse_bool s \<longleftrightarrow> s \<in> {''1'', ''t'', ''T'', ''true'', ''TRUE'', ''True''}"

definition parse_stored_duration :: "settings_env \<Rightarrow> string \<Rightarrow> app_error + int" where
  "parse_stored_duration env v =
     (let s = trim_space v in
      if s = [] then Inr 0
      else (case parse_duration env s of None \<Rightarrow> Inl (Message ''invalid duration'') | Some d \<Rightarrow> Inr d))"

definition stored_positive :: "string \<Rightarrow> int \<Rightarrow> int" where
  "stored_positive raw fallback =
     (let s = trim_space raw in
      if s = [] then fallback
      else (case atoi s of Some n \<Rightarrow> if n > 0 then n else fallback | None \<Rightarrow> fallback))"

definition stored_port :: "string \<Rightarrow> int" where
  "stored_port raw =
     (let s = trim_space raw in
      if s = [] then 0
      else (case atoi s of Some n \<Rightarrow> if n > 0 \<and> n \<le> 65535 then n else 0 | None \<Rightarrow> 0))"

definition trim_or :: "string \<Rightarrow> string \<Rightarrow> string" where
  "trim_or raw fallback = (if trim_space raw = [] then fallback else trim_space raw)"

definition runtime_settings_from_stored_values ::
    "settings_env \<Rightarrow> (string \<Rightarrow> string) \<Rightarrow> app_error + runtime_settings" where
  "runtime_settings_from_stored_values env v =
     bind_res (parse_stored_duration env (v ''connect_timeout'')) (\<lambda>ct.
     bind_res (parse_stored_duration env (v ''query_timeout'')) (\<lambda>qt.
     bind_res (parse_stored_duration env (v ''llm_timeout'')) (\<lambda>lt. Inr
       \<lparr>rs_dialect = v ''dialect'', rs_connect_timeout = ct, rs_query_timeout = qt,
        rs_llm_base_url = v ''llm_base_url'', rs_llm_api_key = v ''llm_api_key'',
        rs_llm_model = v ''llm_model'', rs_llm_timeout = lt,
        rs_embedding_base_url = v ''embedding_base_url'',
        rs_embedding_api_key = v ''embedding_api_key'',
        rs_embedding_model = v ''embedding_model'', rs_vector_index = v ''vector_index'',
        rs_vector_warm = equal_fold (v ''vector_warm'') ''true'',
        rs_read_only_mode = parse_bool (v ''read_only_mode''),
        rs_require_login_for_reads = parse_bool (v ''require_login_for_reads''),
        rs_page_size = stored_positive (v ''page_size'') default_page_size,
        rs_match_max_rows = stored_positive (v ''match_max_rows'') default_match_max_rows,
        rs_default_theme = trim_or (v ''default_theme'') default_ui_theme,
        rs_default_density = trim_or (v ''default_density'') default_ui_density,
        rs_port = stored_port (v ''port''), rs_admin_password_hash = v ''admin_password_hash'',
        rs_auth_mode = v ''auth_mode'',
        rs_native_mirror = equal_fold (v ''native_permission_mirror_enabled'') ''true''\<rparr>)))"

text \<open>\<open>Inr None\<close>: nothing stored yet.\<close>

definition load_runtime_settings ::
    "settings_env \<Rightarrow> settings_table \<Rightarrow> app_error + runtime_settings option" where
  "load_runtime_settings env t =
     (case ensure_runtime_settings_table env of
        Some e \<Rightarrow> Inl e
      | None \<Rightarrow>
          if exec_fails env ''settings.load'' [] then Inl (Exec_Failed ''settings.load'')
          else if t = [] then Inr None
          else bind_res (runtime_settings_from_stored_values env (stored_value t)) (\<lambda>s. Inr (Some s)))"

definition load_setting :: "settings_env \<Rightarrow> string \<Rightarrow> settings_table \<Rightarrow> app_error + string option" where
  "load_setting env k t =
     (case ensure_runtime_settings_table env of
        Some e \<Rightarrow> Inl e
      | None \<Rightarrow>
          if exec_fails env ''settings.load_one'' k then Inl (Exec_Failed ''settings.load_one'')
          else Inr (map_option snd (find (\<lambda>kv. fst kv = k) t)))"

text \<open>Flipping maintenance mode: the memory first, then the store.\<close>

definition admin_toggle_maintenance ::
    "settings_env \<Rightarrow> app_settings \<Rightarrow> settings_table \<Rightarrow> app_error option \<times> app_settings \<times> settings_table" where
  "admin_toggle_maintenance env a t =
     (let s = current_runtime_settings a in
      case apply_runtime_settings env (s\<lparr>rs_read_only_mode := \<not> rs_read_only_mode s\<rparr>) a of
        Inl e \<Rightarrow> (Some e, a, t)
      | Inr a' \<Rightarrow> (case save_runtime_settings env a' t of (err, t') \<Rightarrow> (err, a', t')))"

end
