(* ===== verification/SettingsCorrect.thy ===== *)
theory SettingsCorrect
  imports Settings
begin

text \<open>
  Correctness of the runtime settings: what an accepted record establishes, that the store brings it
  back after a restart, that \<^verbatim>\<open>auth-mode=none\<close> never takes effect on a reachable address, and what a
  failing statement leaves behind.
\<close>

section \<open>The store\<close>

definition saves_cleanly :: "settings_env \<Rightarrow> string \<times> string \<Rightarrow> bool" where
  "saves_cleanly env kv \<longleftrightarrow>
     \<not> exec_fails env ''settings.ensure_table'' [] \<and> \<not> exec_fails env ''settings.delete'' (fst kv)
     \<and> \<not> exec_fails env ''settings.insert'' (fst kv)"

interpretation settings_store: named_rows "save_setting env" fst "saves_cleanly env" for env
  by unfold_locales
     (auto simp: save_setting_def ensure_runtime_settings_table_def saves_cleanly_def Let_def)

lemma setting_keys_distinct: "distinct (map fst (setting_values env s))"
  by (simp add: setting_values_def)

lemma rows_of_key_unique:
  "distinct (map fst kvs) \<Longrightarrow> (k, v) \<in> set kvs \<Longrightarrow> rows_of fst k kvs = [(k, v)]"
proof (induction kvs)
  case (Cons kv kvs)
  have "rows_of fst k kvs = []" if "k \<notin> fst ` set kvs"
    using that by (metis (mono_tags, lifting) filter_False image_eqI rows_of_def)
  with Cons show ?case by (cases "kv = (k, v)") (force simp: rows_of_def)+
qed simp

lemma stored_after_save:
  assumes clean: "\<And>label key. \<not> exec_fails env label key"
    and perm: "mset (iteration env (setting_values env s)) = mset (setting_values env s)"
    and s: "s = current_runtime_settings a"
  obtains t' where "save_runtime_settings env a t = (None, t')" "t' \<noteq> []"
    "\<And>k v. (k, v) \<in> set (setting_values env s) \<Longrightarrow> stored_value t' k = v"
proof -
  let ?kvs = "iteration env (setting_values env s)"
  have set: "set ?kvs = set (setting_values env s)" using perm by (rule mset_eq_setD)
  have dist: "distinct (map fst ?kvs)"
  proof -
    have "mset (map fst ?kvs) = mset (map fst (setting_values env s))" using perm by simp
    then show ?thesis using setting_keys_distinct [of env s] mset_eq_imp_distinct_iff by blast
  qed
  have "saves_cleanly env kv" for kv using clean by (simp add: saves_cleanly_def)
  note all = settings_store.save_all_rows [of ?kvs env, OF _ dist]
  define t' where "t' = snd (save_all (save_setting env) ?kvs t)"
  from all clean have rows: "fst (save_all (save_setting env) ?kvs t) = None"
    "k \<in> fst ` set ?kvs \<Longrightarrow> rows_of fst k t' = rows_of fst k ?kvs" for k
    by (simp_all add: saves_cleanly_def t'_def)
  have stored: "rows_of fst k t' = [(k, v)]" if "(k, v) \<in> set (setting_values env s)" for k v
    using that rows(2) [of k] rows_of_key_unique [OF dist] set by force
  have "(''dialect'', rs_dialect s) \<in> set (setting_values env s)" by (simp add: setting_values_def)
  from stored [OF this] have "t' \<noteq> []" by auto
  moreover have "save_runtime_settings env a t = (None, t')"
    using rows(1) clean
    by (simp add: save_runtime_settings_def ensure_runtime_settings_table_def s [symmetric]
        t'_def prod_eq_iff)
  moreover have "stored_value t' k = v" if "(k, v) \<in> set (setting_values env s)" for k v
    using stored [OF that] by (simp add: stored_value_def)
  ultimately show thesis using that by blast
qed

section \<open>What an accepted record establishes\<close>

definition settings_wf :: "app_settings \<Rightarrow> bool" where
  "settings_wf a \<longleftrightarrow>
     as_dialect a \<in> set (map fst dialect_profiles)
     \<and> 0 < as_connect_timeout a \<and> 0 < as_query_timeout a \<and> 0 < as_llm_timeout a
     \<and> trim_space (as_llm_base_url a) = as_llm_base_url a
     \<and> trim_space (as_llm_api_key a) = as_llm_api_key a
     \<and> trim_space (as_llm_model a) = as_llm_model a
     \<and> as_llm_client a = (as_llm_base_url a \<noteq> [] \<and> as_llm_model a \<noteq> [])
     \<and> trim_space (as_embedding_base_url a) = as_embedding_base_url a
     \<and> trim_space (as_embedding_api_key a) = as_embedding_api_key a
     \<and> trim_space (as_embedding_model a) = as_embedding_model a
     \<and> as_embedding_client a = embedding_client_of (as_embedding_base_url a) (as_embedding_api_key a)
          (as_embedding_model a) (as_llm_base_url a) (as_llm_api_key a)
     \<and> as_vector_index a \<in> {''flat'', ''hnsw''}
     \<and> (as_vector_warm a \<longrightarrow> as_vector_index a = ''hnsw'')
     \<and> 1 \<le> as_page_size a \<and> as_page_size a \<le> 1000
     \<and> 1 \<le> as_match_max_rows a \<and> as_match_max_rows a \<le> max_match_max_rows
     \<and> as_default_theme a \<in> set allowed_ui_themes
     \<and> as_default_density a \<in> set allowed_ui_densities
     \<and> 0 \<le> as_port a \<and> as_port a \<le> 65535"

definition auth_exposure_ok :: "settings_env \<Rightarrow> app_settings \<Rightarrow> bool" where
  "auth_exposure_ok env a \<longleftrightarrow>
     as_auth_mode a = Auth_Mode_Local \<or> as_listen_addr a = [] \<or> is_loopback_addr env (as_listen_addr a)
     \<or> as_allow_insecure_remote a"

lemma profile_name_member: "dialect_profile_for_name n \<in> set (map fst dialect_profiles)"
proof -
  let ?P = "\<lambda>(p, aliases). equal_fold (if to_lower (trim_space n) = [] then ''tinysql'' else to_lower (trim_space n)) p
      \<or> (if to_lower (trim_space n) = [] then ''tinysql'' else to_lower (trim_space n)) \<in> set (map to_lower aliases)"
  have "''tinySQL'' \<in> set (map fst dialect_profiles)" by (simp add: dialect_profiles_def)
  moreover have "fst q \<in> set (map fst dialect_profiles)" if "find ?P dialect_profiles = Some q" for q
    using find_SomeD [OF that] by simp
  ultimately show ?thesis
    by (auto simp: dialect_profile_for_name_def Let_def split: option.splits)
qed

lemma profile_names_fixed:
  "list_all (\<lambda>p. dialect_profile_for_name p = p \<and> trim_space p = p \<and> p \<noteq> []) (map fst dialect_profiles)"
proof -
  have "map trim_space (map fst dialect_profiles) = map fst dialect_profiles" by code_simp
  moreover have "map (map to_lower) (map snd dialect_profiles) = map snd dialect_profiles"
    "map to_lower (map fst dialect_profiles)
      = [''tinysql'', ''sqlite'', ''postgresql'', ''mariadb/mysql'', ''microsoft sql server'']"
    "map to_lower [''tinysql'', ''sqlite'', ''postgresql'', ''mariadb/mysql'', ''microsoft sql server'']
      = [''tinysql'', ''sqlite'', ''postgresql'', ''mariadb/mysql'', ''microsoft sql server'']"
    by code_simp+
  ultimately show ?thesis
    by (simp add: dialect_profiles_def dialect_profile_for_name_def equal_fold_def Let_def)
qed

lemma default_look_allowed:
  "default_ui_theme \<in> set allowed_ui_themes" "default_ui_density \<in> set allowed_ui_densities"
  by (simp_all add: default_ui_theme_def default_ui_density_def allowed_ui_themes_def
      allowed_ui_densities_def)

lemma apply_settings_wf:
  assumes "apply_runtime_settings env s a = Inr a'"
  shows "settings_wf a' \<and> auth_exposure_ok env a' \<and> as_listen_addr a' = as_listen_addr a
    \<and> as_allow_insecure_remote a' = as_allow_insecure_remote a"
proof -
  from assms have ok: "check_settings env a s = None"
    by (auto simp: apply_runtime_settings_def split: option.splits)
  then obtain mode where mode: "normalize_auth_mode (rs_auth_mode s) = Inr mode"
    by (auto simp: check_settings_def Let_def split: if_splits sum.splits)
  note a' = assms [unfolded apply_runtime_settings_def ok, simplified, unfolded Let_def mode, simplified]
  have num: "0 \<le> rs_connect_timeout s" "0 \<le> rs_query_timeout s" "0 \<le> rs_llm_timeout s"
    "0 \<le> rs_page_size s" "rs_page_size s \<le> 1000" "0 \<le> rs_match_max_rows s"
    "rs_match_max_rows s \<le> max_match_max_rows" "0 \<le> rs_port s" "rs_port s \<le> 65535"
    using ok by (auto simp: check_settings_def Let_def split: if_splits)
  have look: "trim_space (rs_default_theme s) = [] \<or> rs_default_theme s \<in> set allowed_ui_themes"
    "trim_space (rs_default_density s) = [] \<or> rs_default_density s \<in> set allowed_ui_densities"
    using ok by (auto simp: check_settings_def is_allowed_value_def Let_def split: if_splits)
  have vi: "to_lower (trim_space (rs_vector_index s)) \<in> {[], ''flat'', ''hnsw''}"
    using ok by (auto simp: check_settings_def Let_def split: if_splits)
  have exposure: "mode = Auth_Mode_Local \<or> as_listen_addr a = [] \<or> is_loopback_addr env (as_listen_addr a)
     \<or> as_allow_insecure_remote a"
    using ok mode by (cases mode) (auto simp: check_settings_def Let_def split: if_splits)
  show ?thesis
    unfolding a' [symmetric] settings_wf_def auth_exposure_ok_def
    using num look vi exposure default_look_allowed profile_name_member
    by (auto simp: or_default_def seconds_def default_page_size_def default_match_max_rows_def
        max_match_max_rows_def simp del: list.set)
qed

lemma looks_trimmed:
  "x \<in> set allowed_ui_themes \<union> set allowed_ui_densities \<Longrightarrow> trim_space x = x \<and> x \<noteq> []"
proof -
  have "list_all (\<lambda>x. list_all is_graphic_byte x \<and> x \<noteq> []) (allowed_ui_themes @ allowed_ui_densities)"
    by code_simp
  then show "x \<in> set allowed_ui_themes \<union> set allowed_ui_densities \<Longrightarrow> trim_space x = x \<and> x \<noteq> []"
    by (auto simp: list_all_iff trim_space_graphic)
qed

lemma apply_current:
  assumes "settings_wf a" "auth_exposure_ok env a"
  shows "apply_runtime_settings env (current_runtime_settings a) a = Inr a"
proof -
  have mode: "normalize_auth_mode (auth_mode_text m) = Inr m" for m
  proof -
    have "map (\<lambda>s. to_lower (trim_space s)) [''local'', ''none''] = [''local'', ''none'']" by code_simp
    then show ?thesis by (cases m) (simp_all add: auth_mode_text_def normalize_auth_mode_def Let_def)
  qed
  have vi: "to_lower (trim_space (as_vector_index a)) = as_vector_index a"
  proof -
    have "map (\<lambda>s. to_lower (trim_space s)) [''flat'', ''hnsw''] = [''flat'', ''hnsw'']" by code_simp
    then show ?thesis using assms(1) by (auto simp: settings_wf_def)
  qed
  have dialect: "dialect_profile_for_name (trim_space (as_dialect a)) = as_dialect a"
    "trim_space (as_dialect a) \<noteq> []"
    using assms(1) profile_names_fixed by (auto simp: settings_wf_def list_all_iff)
  have look: "trim_space (as_default_theme a) = as_default_theme a" "as_default_theme a \<noteq> []"
    "trim_space (as_default_density a) = as_default_density a" "as_default_density a \<noteq> []"
    using assms(1) looks_trimmed by (auto simp: settings_wf_def)
  have ok: "check_settings env a (current_runtime_settings a) = None"
    using assms mode vi look
    by (auto simp: check_settings_def current_runtime_settings_def Let_def settings_wf_def
        is_allowed_value_def auth_exposure_ok_def)
  have warm: "as_vector_index a \<noteq> []" "(as_vector_warm a \<and> as_vector_index a = ''hnsw'') = as_vector_warm a"
    using assms(1) by (auto simp: settings_wf_def)
  have llm: "(as_llm_base_url a \<noteq> [] \<and> as_llm_model a \<noteq> []) = as_llm_client a"
    "embedding_client_of (as_embedding_base_url a) (as_embedding_api_key a)
      (as_embedding_model a) (as_llm_base_url a) (as_llm_api_key a) = as_embedding_client a"
    "trim_space (as_llm_base_url a) = as_llm_base_url a" "trim_space (as_llm_api_key a) = as_llm_api_key a"
    "trim_space (as_llm_model a) = as_llm_model a"
    "trim_space (as_embedding_base_url a) = as_embedding_base_url a"
    "trim_space (as_embedding_api_key a) = as_embedding_api_key a"
    "trim_space (as_embedding_model a) = as_embedding_model a"
    using assms(1) by (simp_all add: settings_wf_def)
  have nonzero: "or_default (as_connect_timeout a) d = as_connect_timeout a"
    "or_default (as_query_timeout a) d = as_query_timeout a"
    "or_default (as_llm_timeout a) d = as_llm_timeout a"
    "or_default (as_page_size a) d = as_page_size a"
    "or_default (as_match_max_rows a) d = as_match_max_rows a" for d
    using assms(1) by (simp_all add: settings_wf_def or_default_def)
  show ?thesis
    unfolding apply_runtime_settings_def ok
    by (simp add: current_runtime_settings_def Let_def mode vi look dialect warm llm nonzero)
qed

section \<open>Reading the values back\<close>

lemma atoi_format_int: "0 \<le> i \<Longrightarrow> i \<le> max_int64 \<Longrightarrow> atoi (format_int i) = Some i"
  using atoi_nat_digits [of "nat i"] by (simp add: format_int_def)

lemma trim_format_int: "0 \<le> i \<Longrightarrow> trim_space (format_int i) = format_int i"
  by (simp add: format_int_def)

lemma format_bool_simps [simp]:
  "parse_bool (format_bool b) = b" "equal_fold (format_bool b) ''true'' = b"
proof -
  show "parse_bool (format_bool b) = b" by (simp add: parse_bool_def format_bool_def)
  have "map to_lower [''true'', ''false''] = [''true'', ''false'']" by code_simp
  then show "equal_fold (format_bool b) ''true'' = b"
    by (simp add: equal_fold_def format_bool_def)
qed

lemma format_int_nonempty [simp]: "format_int i \<noteq> []"
  by (simp add: format_int_def)

lemma load_stored:
  assumes wf: "settings_wf a"
    and dtext: "\<And>d. trim_space (format_duration env d) = format_duration env d \<and> format_duration env d \<noteq> []
       \<and> parse_duration env (format_duration env d) = Some d"
    and v: "\<And>k x. (k, x) \<in> set (setting_values env (current_runtime_settings a)) \<Longrightarrow> v k = x"
  shows "runtime_settings_from_stored_values env v = Inr (current_runtime_settings a)"
proof -
  have vals: "list_all (\<lambda>(k, x). v k = x) (setting_values env (current_runtime_settings a))"
    using v by (auto simp: list_all_iff)
  have look: "trim_or (as_default_theme a) default_ui_theme = as_default_theme a"
    "trim_or (as_default_density a) default_ui_density = as_default_density a"
    using wf looks_trimmed by (auto simp: settings_wf_def trim_or_def)
  have nums: "stored_positive (format_int (as_page_size a)) default_page_size = as_page_size a"
    "stored_positive (format_int (as_match_max_rows a)) default_match_max_rows = as_match_max_rows a"
    "stored_port (format_int (as_port a)) = as_port a"
    using wf by (auto simp: settings_wf_def stored_positive_def stored_port_def trim_format_int
        atoi_format_int max_int64_def max_match_max_rows_def Let_def)
  have dur: "parse_stored_duration env (format_duration env d) = Inr d" for d
    using dtext [of d] by (simp add: parse_stored_duration_def)
  show ?thesis
    using vals
    by (simp add: setting_values_def runtime_settings_from_stored_values_def
        current_runtime_settings_def dur nums look)
qed

section \<open>Properties\<close>

text \<open>
  Claim C12: settings survive a restart.  Whatever record was accepted and applied, saving it (in
  whatever order Go iterates over the map of values) and loading the table again gives back the
  settings in force, and applying what was loaded changes nothing, given that the text form of a
  duration parses back and no statement fails.
\<close>

theorem settings_survive_restart:
  assumes "apply_runtime_settings env s a0 = Inr a"
    and "\<And>label key. \<not> exec_fails env label key"
    and "\<And>kvs. mset (iteration env kvs) = mset kvs"
    and "\<And>d. trim_space (format_duration env d) = format_duration env d \<and> format_duration env d \<noteq> []
       \<and> parse_duration env (format_duration env d) = Some d"
  shows "\<exists>t'. save_runtime_settings env a t = (None, t')
    \<and> load_runtime_settings env t' = Inr (Some (current_runtime_settings a))
    \<and> apply_runtime_settings env (current_runtime_settings a) a = Inr a"
proof -
  note wf = apply_settings_wf [OF assms(1)]
  obtain t' where t': "save_runtime_settings env a t = (None, t')" "t' \<noteq> []"
    "\<And>k v. (k, v) \<in> set (setting_values env (current_runtime_settings a)) \<Longrightarrow> stored_value t' k = v"
    by (rule stored_after_save [OF assms(2,3) refl, of a t]) (rule that)
  have "runtime_settings_from_stored_values env (stored_value t') = Inr (current_runtime_settings a)"
    using wf assms(4) t'(3) by (intro load_stored) auto
  then have "load_runtime_settings env t' = Inr (Some (current_runtime_settings a))"
    using assms(2) t'(2) by (simp add: load_runtime_settings_def ensure_runtime_settings_table_def)
  with t'(1) apply_current wf show ?thesis by blast
qed

text \<open>
  Claim C13: an accepted settings record leaves the application in a valid state: a known dialect,
  positive timeouts, page size between 1 and 1000, match limit up to 50 million, an allowed theme
  and density, a port of 16 bits, an index kind that exists, pre-warming only with that kind; and
  \<^verbatim>\<open>auth-mode=none\<close> is in force only if the server is not listening, listens on a loopback address,
  or the operator has allowed insecure remote access.
\<close>

theorem applied_settings_valid:
  assumes "apply_runtime_settings env s a = Inr a'"
  shows "settings_wf a' \<and> auth_exposure_ok env a'"
  using apply_settings_wf [OF assms] by blast

text \<open>
  a save of one setting that fails never touches another setting; it leaves the setting
  itself unchanged when the \<^verbatim>\<open>DELETE\<close> fails, but drops it when the \<^verbatim>\<open>INSERT\<close> behind it fails.
\<close>

theorem failed_save_keeps_others:
  assumes "fst (save_setting env kv t) \<noteq> None"
  shows "\<forall>k. rows_of fst k (snd (save_setting env kv t)) =
    (if k = fst kv \<and> \<not> exec_fails env ''settings.ensure_table'' []
        \<and> \<not> exec_fails env ''settings.delete'' (fst kv) then [] else rows_of fst k t)"
  using assms
  by (auto simp: save_setting_def ensure_runtime_settings_table_def Let_def split: if_splits)

section \<open>Witnesses\<close>

definition sample_settings_env :: settings_env where
  "sample_settings_env =
     \<lparr>format_duration = format_int,
      parse_duration = \<lambda>s. Some (if hd s = CHR ''-'' then - int (parse_digits (tl s)) else int (parse_digits s)),
      split_host = \<lambda>s. Some (takeWhile (\<lambda>c. c \<noteq> CHR '':'') s),
      ip_is_loopback = \<lambda>s. Some (s = ''127.0.0.1''),
      iteration = rev, exec_fails = no_failures\<rparr>"

definition sample_app :: app_settings where
  "sample_app =
     \<lparr>as_dialect = ''tinySQL'', as_connect_timeout = 1, as_query_timeout = 1, as_llm_base_url = [],
      as_llm_api_key = [], as_llm_model = [], as_llm_timeout = 1, as_llm_client = False,
      as_embedding_base_url = [], as_embedding_api_key = [], as_embedding_model = [],
      as_embedding_client = None, as_vector_index = ''flat'', as_vector_warm = False,
      as_read_only_mode = False, as_require_login_for_reads = False, as_page_size = 50,
      as_match_max_rows = 100, as_default_theme = ''workbench'', as_default_density = ''compact'',
      as_port = 0, as_admin_password_hash = [], as_auth_mode = Auth_Mode_None,
      as_native_mirror = False, as_listen_addr = ''127.0.0.1:8080'', as_allow_insecure_remote = False\<rparr>"

lemma sample_app_ok: "settings_wf sample_app" "auth_exposure_ok sample_settings_env sample_app"
proof -
  show "settings_wf sample_app"
    by (simp add: sample_app_def settings_wf_def dialect_profiles_def embedding_client_of_def
        max_match_max_rows_def allowed_ui_themes_def allowed_ui_densities_def)
  have "is_loopback_addr sample_settings_env ''127.0.0.1:8080''" by code_simp
  then show "auth_exposure_ok sample_settings_env sample_app"
    by (simp add: sample_app_def auth_exposure_ok_def)
qed

lemma sample_durations:
  "trim_space (format_int d) = format_int d \<and> format_int d \<noteq> []
   \<and> (if hd (format_int d) = CHR ''-'' then - int (parse_digits (tl (format_int d)))
      else int (parse_digits (format_int d))) = d"
proof -
  have "is_graphic_byte CHR ''-''" by code_simp
  then have "list_all is_graphic_byte (format_int d)" by (simp add: format_int_def)
  then show ?thesis
    using hd_nat_digits_not_sign(1) by (simp add: trim_space_graphic) (simp add: format_int_def)
qed

theorem settings_survive_restart_witness:
  "\<exists>t'. save_runtime_settings sample_settings_env sample_app [(''port'', ''1'')] = (None, t')
    \<and> load_runtime_settings sample_settings_env t' = Inr (Some (current_runtime_settings sample_app))
    \<and> apply_runtime_settings sample_settings_env (current_runtime_settings sample_app) sample_app
        = Inr sample_app"
proof (rule settings_survive_restart)
  show "apply_runtime_settings sample_settings_env (current_runtime_settings sample_app) sample_app
      = Inr sample_app"
    using sample_app_ok by (rule apply_current)
qed (use sample_durations in \<open>simp_all add: sample_settings_env_def no_failures_def\<close>)

theorem applied_settings_valid_witness:
  "settings_wf sample_app \<and> auth_exposure_ok sample_settings_env sample_app"
  using applied_settings_valid [OF apply_current [OF sample_app_ok]] .

theorem failed_save_keeps_others_witness:
  "\<forall>k. rows_of fst k (snd (save_setting
        (sample_settings_env\<lparr>exec_fails := \<lambda>label key. label = ''settings.insert''\<rparr>)
        (''port'', ''8080'') [(''port'', ''1''), (''theme'', ''xp'')]))
    = (if k = ''port'' then [] else rows_of fst k [(''port'', ''1''), (''theme'', ''xp'')])"
  using failed_save_keeps_others [of "sample_settings_env\<lparr>exec_fails := \<lambda>label key. label = ''settings.insert''\<rparr>"
      "(''port'', ''8080'')" "[(''port'', ''1''), (''theme'', ''xp'')]"]
  by (simp add: save_setting_def ensure_runtime_settings_table_def)

end
