(* ===== verification/Accounts.thy ===== *)
theory Accounts
  imports SettingsCorrect "HOL-Library.List_Lexorder"
begin

text \<open>
  Local user accounts (\<^verbatim>\<open>users.go\<close>) and their mirror in tinySQL's own catalog (\<^verbatim>\<open>native_rbac.go\<close>).

  The accounts table is the list of its text rows; \<^verbatim>\<open>UPDATE\<close> and \<^verbatim>\<open>DELETE\<close> with
  \<^verbatim>\<open>WHERE username = ?\<close> act on the rows with exactly that name.  tinySQL's catalog is third-party:
  its state \<open>'c\<close> and its operations are a parameter (\<open>catalog_ops\<close>).
\<close>

section \<open>Data\<close>

datatype role = Role_Admin | Role_User | Role_Read_Only

definition role_text :: "role \<Rightarrow> string" where
  "role_text r = (case r of Role_Admin \<Rightarrow> ''admin'' | Role_User \<Rightarrow> ''user'' | Role_Read_Only \<Rightarrow> ''readonly'')"

definition normalize_role :: "string \<Rightarrow> role option" where
  "normalize_role raw =
     (let r = to_lower (trim_space raw) in
      if r = ''admin'' then Some Role_Admin
      else if r = ''user'' then Some Role_User
      else if r = ''readonly'' then Some Role_Read_Only
      else None)"

record user_row =
  ur_username :: string
  ur_hash :: string
  ur_role :: string
  ur_created :: string
  ur_disabled :: string

record user =
  u_username :: string
  u_hash :: string
  u_role :: role
  u_disabled :: bool

datatype account_error =
  User_Exists
| Last_Admin string
| Bad_Role string
| Db_Error string

text \<open>Operations of the catalog answer whether they succeeded, with the catalog after them.\<close>

record 'c catalog_ops =
  create_role :: "string \<Rightarrow> 'c \<Rightarrow> bool \<times> 'c"
  grant_permission :: "string \<Rightarrow> string \<Rightarrow> 'c \<Rightarrow> bool \<times> 'c"
  get_user :: "string \<Rightarrow> 'c \<Rightarrow> bool"
  create_user_with_role :: "string \<Rightarrow> string \<Rightarrow> string \<Rightarrow> 'c \<Rightarrow> bool \<times> 'c"
  revoke_role_from_user :: "string \<Rightarrow> string \<Rightarrow> 'c \<Rightarrow> bool \<times> 'c"
  grant_role_to_user :: "string \<Rightarrow> string \<Rightarrow> 'c \<Rightarrow> bool \<times> 'c"
  set_catalog_disabled :: "string \<Rightarrow> bool \<Rightarrow> 'c \<Rightarrow> bool \<times> 'c"
  drop_user :: "string \<Rightarrow> 'c \<Rightarrow> bool \<times> 'c"
  has_insert_permission :: "string \<Rightarrow> 'c \<Rightarrow> bool"
  random_password :: "string option"

text \<open>The accounts table and the catalog; \<open>db_fails label\<close> says which statements fail.\<close>

record 'c accounts =
  user_rows :: "user_row list"
  catalog :: 'c

record 'c account_env =
  db_fails :: "string \<Rightarrow> bool"
  catalog_operations :: "'c catalog_ops"
  timestamp :: string

section \<open>The native mirror\<close>

definition native_role_write :: string where "native_role_write = ''datadock_write''"
definition native_role_read_only :: string where "native_role_read_only = ''datadock_readonly''"

text \<open>\<open>and_then\<close> stops at the first operation that fails.\<close>

definition and_then :: "bool \<times> 'c \<Rightarrow> ('c \<Rightarrow> bool \<times> 'c) \<Rightarrow> bool \<times> 'c" where
  "and_then r f = (if fst r then f (snd r) else r)"

text \<open>A role that is new gets its grant; one that exists is left alone.\<close>

definition ensure_native_role :: "'c catalog_ops \<Rightarrow> string \<Rightarrow> string \<Rightarrow> 'c \<Rightarrow> bool \<times> 'c" where
  "ensure_native_role ops name perm c =
     (case create_role ops name c of
        (True, c') \<Rightarrow> grant_permission ops name perm c'
      | (False, c') \<Rightarrow> (True, c'))"

definition ensure_native_rbac_roles :: "'c catalog_ops \<Rightarrow> 'c \<Rightarrow> bool \<times> 'c" where
  "ensure_native_rbac_roles ops c =
     and_then (ensure_native_role ops native_role_write ''all'' c)
       (ensure_native_role ops native_role_read_only ''select'')"

definition native_role_for :: "role \<Rightarrow> string" where
  "native_role_for r = (if r = Role_Read_Only then native_role_read_only else native_role_write)"

definition mirror_native_rbac_user :: "'c catalog_ops \<Rightarrow> string \<Rightarrow> role \<Rightarrow> 'c \<Rightarrow> bool \<times> 'c" where
  "mirror_native_rbac_user ops username r c0 =
     and_then (ensure_native_rbac_roles ops c0) (\<lambda>c.
       let target = native_role_for r;
           other = (if target = native_role_read_only then native_role_write else native_role_read_only) in
       if \<not> get_user ops username c then
         (case random_password ops of
            None \<Rightarrow> (False, c)
          | Some pw \<Rightarrow> create_user_with_role ops username pw target c)
       else and_then (and_then (revoke_role_from_user ops username other c)
              (grant_role_to_user ops username target))
            (set_catalog_disabled ops username False))"

definition mirror_native_rbac_user_disabled :: "'c catalog_ops \<Rightarrow> string \<Rightarrow> bool \<Rightarrow> 'c \<Rightarrow> bool \<times> 'c" where
  "mirror_native_rbac_user_disabled ops username disabled c =
     (if \<not> get_user ops username c then (True, c) else set_catalog_disabled ops username disabled c)"

definition mirror_native_rbac_user_deleted :: "'c catalog_ops \<Rightarrow> string \<Rightarrow> 'c \<Rightarrow> bool \<times> 'c" where
  "mirror_native_rbac_user_deleted ops username c =
     (if \<not> get_user ops username c then (True, c) else drop_user ops username c)"

section \<open>Reading accounts\<close>

definition ensure_users_table :: "'c account_env \<Rightarrow> account_error option" where
  "ensure_users_table env =
     (if db_fails env ''users.ensure_table'' then Some (Db_Error ''users.ensure_table'') else None)"

definition user_of_row :: "user_row \<Rightarrow> account_error + user" where
  "user_of_row r =
     (case normalize_role (ur_role r) of
        None \<Rightarrow> Inl (Bad_Role (ur_username r))
      | Some ro \<Rightarrow> Inr \<lparr>u_username = ur_username r, u_hash = ur_hash r, u_role = ro,
                     u_disabled = parse_bool (ur_disabled r)\<rparr>)"

fun users_of_rows :: "user_row list \<Rightarrow> account_error + user list" where
  "users_of_rows [] = Inr []"
| "users_of_rows (r # rs) =
     bind_res (user_of_row r) (\<lambda>u. bind_res (users_of_rows rs) (\<lambda>us. Inr (u # us)))"

definition list_users :: "'c account_env \<Rightarrow> 'c accounts \<Rightarrow> account_error + user list" where
  "list_users env a =
     (case ensure_users_table env of
        Some e \<Rightarrow> Inl e
      | None \<Rightarrow>
          if db_fails env ''users.list'' then Inl (Db_Error ''users.list'')
          else bind_res (users_of_rows (user_rows a))
                 (\<lambda>us. Inr (sort_key (\<lambda>u. to_lower (u_username u)) us)))"

definition get_user_by_username :: "'c account_env \<Rightarrow> string \<Rightarrow> 'c accounts \<Rightarrow> account_error + user option" where
  "get_user_by_username env name a =
     bind_res (list_users env a)
       (\<lambda>us. Inr (find (\<lambda>u. equal_fold (u_username u) (trim_space name)) us))"

definition users_configured :: "'c account_env \<Rightarrow> 'c accounts \<Rightarrow> account_error + bool" where
  "users_configured env a = bind_res (list_users env a) (\<lambda>us. Inr (us \<noteq> []))"

definition auth_configured :: "'c account_env \<Rightarrow> app_settings \<Rightarrow> 'c accounts \<Rightarrow> account_error + bool" where
  "auth_configured env s a =
     bind_res (users_configured env a) (\<lambda>c. Inr (c \<or> admin_password_is_set s))"

definition enabled_admin :: "user \<Rightarrow> bool" where
  "enabled_admin u \<longleftrightarrow> u_role u = Role_Admin \<and> \<not> u_disabled u"

definition count_enabled_admins :: "'c account_env \<Rightarrow> 'c accounts \<Rightarrow> account_error + nat" where
  "count_enabled_admins env a =
     bind_res (list_users env a) (\<lambda>us. Inr (length (filter enabled_admin us)))"

definition assert_not_last_enabled_admin ::
    "'c account_env \<Rightarrow> user \<Rightarrow> 'c accounts \<Rightarrow> account_error option" where
  "assert_not_last_enabled_admin env target a =
     (if \<not> enabled_admin target then None
      else (case count_enabled_admins env a of
          Inl e \<Rightarrow> Some e
        | Inr n \<Rightarrow> if n \<le> 1 then Some (Last_Admin (u_username target)) else None))"

section \<open>Changing accounts\<close>

definition create_user ::
    "'c account_env \<Rightarrow> string \<Rightarrow> string \<Rightarrow> role \<Rightarrow> 'c accounts \<Rightarrow> account_error option \<times> 'c accounts" where
  "create_user env name hash r a =
     (case ensure_users_table env of
        Some e \<Rightarrow> (Some e, a)
      | None \<Rightarrow>
          (case get_user_by_username env (trim_space name) a of
             Inl e \<Rightarrow> (Some e, a)
           | Inr (Some _) \<Rightarrow> (Some User_Exists, a)
           | Inr None \<Rightarrow>
               if db_fails env ''users.insert'' then (Some (Db_Error ''users.insert''), a)
               else (None,
                 \<lparr>user_rows = user_rows a @
                    [\<lparr>ur_username = trim_space name, ur_hash = hash, ur_role = role_text r,
                      ur_created = timestamp env, ur_disabled = format_bool False\<rparr>],
                  catalog = snd (mirror_native_rbac_user (catalog_operations env) (trim_space name) r (catalog a))\<rparr>)))"

definition update_rows :: "string \<Rightarrow> (user_row \<Rightarrow> user_row) \<Rightarrow> user_row list \<Rightarrow> user_row list" where
  "update_rows name f rows = map (\<lambda>r. if ur_username r = name then f r else r) rows"

definition update_user_role ::
    "'c account_env \<Rightarrow> string \<Rightarrow> role \<Rightarrow> 'c accounts \<Rightarrow> account_error option \<times> 'c accounts" where
  "update_user_role env name r a =
     (if db_fails env ''users.update_role'' then (Some (Db_Error ''users.update_role''), a)
      else (None,
        \<lparr>user_rows = update_rows name (\<lambda>row. row\<lparr>ur_role := role_text r\<rparr>) (user_rows a),
         catalog = snd (mirror_native_rbac_user (catalog_operations env) name r (catalog a))\<rparr>))"

definition set_user_disabled ::
    "'c account_env \<Rightarrow> string \<Rightarrow> bool \<Rightarrow> 'c accounts \<Rightarrow> account_error option \<times> 'c accounts" where
  "set_user_disabled env name disabled a =
     (if db_fails env ''users.update_disabled'' then (Some (Db_Error ''users.update_disabled''), a)
      else (None,
        \<lparr>user_rows = update_rows name (\<lambda>row. row\<lparr>ur_disabled := format_bool disabled\<rparr>) (user_rows a),
         catalog = snd (mirror_native_rbac_user_disabled (catalog_operations env) name disabled (catalog a))\<rparr>))"

definition set_user_password_hash ::
    "'c account_env \<Rightarrow> string \<Rightarrow> string \<Rightarrow> 'c accounts \<Rightarrow> account_error option \<times> 'c accounts" where
  "set_user_password_hash env name hash a =
     (if db_fails env ''users.update_password'' then (Some (Db_Error ''users.update_password''), a)
      else (None, a\<lparr>user_rows := update_rows name (\<lambda>row. row\<lparr>ur_hash := hash\<rparr>) (user_rows a)\<rparr>))"

definition delete_user :: "'c account_env \<Rightarrow> string \<Rightarrow> 'c accounts \<Rightarrow> account_error option \<times> 'c accounts" where
  "delete_user env name a =
     (if db_fails env ''users.delete'' then (Some (Db_Error ''users.delete''), a)
      else (None,
        \<lparr>user_rows = filter (\<lambda>r. ur_username r \<noteq> name) (user_rows a),
         catalog = snd (mirror_native_rbac_user_deleted (catalog_operations env) name (catalog a))\<rparr>))"

definition migrate_legacy_admin_password ::
    "'c account_env \<Rightarrow> app_settings \<Rightarrow> 'c accounts \<Rightarrow> account_error option \<times> 'c accounts" where
  "migrate_legacy_admin_password env s a =
     (case ensure_users_table env of
        Some e \<Rightarrow> (Some e, a)
      | None \<Rightarrow>
          (case users_configured env a of
             Inl e \<Rightarrow> (Some e, a)
           | Inr True \<Rightarrow> (None, a)
           | Inr False \<Rightarrow>
               (let hash = trim_space (as_admin_password_hash s) in
                if hash = [] then (None, a)
                else (case create_user env ''admin'' hash Role_Admin a of
                    (Some User_Exists, a') \<Rightarrow> (None, a')
                  | r \<Rightarrow> r))))"

text \<open>At start-up every account is mirrored, in the order of the list.\<close>

fun mirror_users :: "'c catalog_ops \<Rightarrow> user list \<Rightarrow> 'c \<Rightarrow> bool \<times> 'c" where
  "mirror_users ops [] c = (True, c)"
| "mirror_users ops (u # us) c =
     and_then (and_then (mirror_native_rbac_user ops (u_username u) (u_role u) c)
       (mirror_native_rbac_user_disabled ops (u_username u) (u_disabled u))) (mirror_users ops us)"

definition bootstrap_native_rbac_mirror :: "'c account_env \<Rightarrow> 'c accounts \<Rightarrow> bool \<times> 'c accounts" where
  "bootstrap_native_rbac_mirror env a =
     (let r = ensure_native_rbac_roles (catalog_operations env) (catalog a) in
      if \<not> fst r then (False, a\<lparr>catalog := snd r\<rparr>)
      else (case list_users env a of
          Inl _ \<Rightarrow> (False, a\<lparr>catalog := snd r\<rparr>)
        | Inr us \<Rightarrow>
            (let r' = mirror_users (catalog_operations env) us (snd r) in
             (fst r', a\<lparr>catalog := snd r'\<rparr>))))"

section \<open>The account table\<close>

text \<open>
  Well-formed: every role is one that \<open>normalize_role\<close> accepts (otherwise nothing can be listed) and
  no two names agree under case folding.
\<close>

definition rows_wf :: "user_row list \<Rightarrow> bool" where
  "rows_wf rows \<longleftrightarrow>
     list_all (\<lambda>r. normalize_role (ur_role r) \<noteq> None) rows
     \<and> distinct (map (\<lambda>r. to_lower (ur_username r)) rows)
     \<and> list_all (\<lambda>r. trim_space (ur_username r) = ur_username r) rows"

definition row_enabled_admin :: "user_row \<Rightarrow> bool" where
  "row_enabled_admin r \<longleftrightarrow> normalize_role (ur_role r) = Some Role_Admin \<and> \<not> parse_bool (ur_disabled r)"

definition has_enabled_admin :: "user_row list \<Rightarrow> bool" where
  "has_enabled_admin rows \<longleftrightarrow> list_ex row_enabled_admin rows"

lemma normalize_role_text [simp]: "normalize_role (role_text r) = Some r"
proof -
  have "map (\<lambda>s. to_lower (trim_space s)) [''admin'', ''user'', ''readonly''] = [''admin'', ''user'', ''readonly'']"
    by code_simp
  then show ?thesis by (cases r) (simp_all add: role_text_def normalize_role_def)
qed

definition user_of :: "user_row \<Rightarrow> user" where
  "user_of r = \<lparr>u_username = ur_username r, u_hash = ur_hash r,
     u_role = the (normalize_role (ur_role r)), u_disabled = parse_bool (ur_disabled r)\<rparr>"

lemma users_of_rows_wf: "list_all (\<lambda>r. normalize_role (ur_role r) \<noteq> None) rows \<Longrightarrow> users_of_rows rows = Inr (map user_of rows)"
  by (induction rows) (auto simp: user_of_row_def user_of_def)

lemma list_users_rows:
  assumes "list_users env a = Inr us" "rows_wf (user_rows a)"
  shows "mset us = mset (map user_of (user_rows a))"
  using assms users_of_rows_wf [of "user_rows a"]
  by (auto simp: list_users_def rows_wf_def split: option.splits if_splits)

lemma enabled_admin_user_of:
  "normalize_role (ur_role r) \<noteq> None \<Longrightarrow> enabled_admin (user_of r) = row_enabled_admin r"
  by (auto simp: enabled_admin_def user_of_def row_enabled_admin_def)

lemma count_enabled_admins_rows:
  assumes "count_enabled_admins env a = Inr n" "rows_wf (user_rows a)"
  shows "n = length (filter row_enabled_admin (user_rows a))"
proof -
  from assms(1) obtain us where us: "list_users env a = Inr us" "n = length (filter enabled_admin us)"
    by (auto simp: count_enabled_admins_def bind_res_Inr_iff)
  have "n = size (filter_mset enabled_admin (mset us))" by (simp add: us(2) flip: mset_filter)
  also have "\<dots> = length (filter enabled_admin (map user_of (user_rows a)))"
    by (simp only: list_users_rows [OF us(1) assms(2)] mset_filter [symmetric] size_mset)
  also have "\<dots> = length (filter row_enabled_admin (user_rows a))"
    unfolding filter_map length_map
    using assms(2) by (intro arg_cong [where f = length] filter_cong)
      (auto simp: rows_wf_def list_all_iff enabled_admin_user_of)
  finally show ?thesis .
qed

lemma get_user_row:
  assumes "get_user_by_username env name a = Inr (Some u)" "rows_wf (user_rows a)"
  obtains r where "r \<in> set (user_rows a)" "u = user_of r" "equal_fold (ur_username r) (trim_space name)"
proof -
  from assms(1) obtain us where us: "list_users env a = Inr us"
    and f: "find (\<lambda>u. equal_fold (u_username u) (trim_space name)) us = Some u"
    by (auto simp: get_user_by_username_def bind_res_Inr_iff)
  have "u \<in> set (map user_of (user_rows a))"
    using find_SomeD [OF f] list_users_rows [OF us assms(2)] by (metis set_mset_mset)
  then obtain r where "r \<in> set (user_rows a)" "u = user_of r" by auto
  with find_SomeD [OF f] that [of r] show thesis by (simp add: user_of_def)
qed

lemma get_user_none:
  assumes "get_user_by_username env name a = Inr None" "rows_wf (user_rows a)" "r \<in> set (user_rows a)"
  shows "\<not> equal_fold (ur_username r) (trim_space name)"
proof -
  from assms(1) obtain us where us: "list_users env a = Inr us"
    and f: "find (\<lambda>u. equal_fold (u_username u) (trim_space name)) us = None"
    by (auto simp: get_user_by_username_def bind_res_Inr_iff)
  have "user_of r \<in> set us"
    using list_users_rows [OF us assms(2)] assms(3) by (metis image_eqI list.set_map set_mset_mset)
  with f show ?thesis by (auto simp: find_None_iff user_of_def)
qed

end
