(* ===== verification/Connections.thy ===== *)
theory Connections
  imports Settings Varint "HOL-Library.AList" "HOL-Library.List_Lexorder" "HOL-Library.Char_ord"
begin

text \<open>
  The connection manager and the DSN helpers of \<^verbatim>\<open>connections.go\<close>, with the handler that adds a
  connection (\<^verbatim>\<open>addConnectionHandler\<close>).

  Go's map of connections is an association list by connection cid.  A connection's \<^verbatim>\<open>*sql.DB\<close> is an
  opaque handle (a number); the manager records which handles it has closed.  \<^verbatim>\<open>net/url\<close>, the MySQL
  driver's \<^verbatim>\<open>FormatDSN\<close>, the secret-redaction patterns and the environment are parameters
  (\<open>dsn_env\<close>).
\<close>

section \<open>Data\<close>

record connection =
  c_id :: string
  c_name :: string
  c_kind :: string
  c_dsn :: string
  c_dialect :: string
  c_owner :: string
  c_handle :: "nat option"

record manager =
  m_active :: string
  m_default :: string
  m_sessions :: "(string \<times> string) list"
  m_conns :: "(string \<times> connection) list"
  m_persisted :: "string list"
  m_closed :: "nat list"

definition default_connection_id :: string where "default_connection_id = ''default''"

definition new_connection_manager :: "connection \<Rightarrow> manager" where
  "new_connection_manager c =
     \<lparr>m_active = c_id c, m_default = c_id c, m_sessions = [], m_conns = [(c_id c, c)],
      m_persisted = [], m_closed = []\<rparr>"

section \<open>Operations\<close>

definition visible_to :: "connection option \<Rightarrow> string \<Rightarrow> bool" where
  "visible_to c session =
     (case c of None \<Rightarrow> False | Some c \<Rightarrow> c_owner c = [] \<or> c_owner c = session)"

definition mark_persisted :: "string \<Rightarrow> manager \<Rightarrow> manager" where
  "mark_persisted cid m =
     (case map_of (m_conns m) cid of
        None \<Rightarrow> m
      | Some c \<Rightarrow> m\<lparr>m_persisted := List.insert cid (m_persisted m),
                    m_conns := AList.update cid (c\<lparr>c_owner := []\<rparr>) (m_conns m)\<rparr>)"

definition unmark_persisted :: "string \<Rightarrow> manager \<Rightarrow> manager" where
  "unmark_persisted cid m = m\<lparr>m_persisted := removeAll cid (m_persisted m)\<rparr>"

definition remove_connection :: "string \<Rightarrow> manager \<Rightarrow> app_error option \<times> manager" where
  "remove_connection cid m =
     (if cid = default_connection_id then (Some (Message ''cannot remove the built-in tinySQL connection''), m)
      else (case map_of (m_conns m) cid of
          None \<Rightarrow> (Some (Message ''connection not found''), m)
        | Some c \<Rightarrow>
            (None, m\<lparr>m_closed := (case c_handle c of None \<Rightarrow> m_closed m | Some h \<Rightarrow> h # m_closed m),
                     m_conns := AList.delete cid (m_conns m),
                     m_persisted := removeAll cid (m_persisted m),
                     m_active := (if m_active m = cid then default_connection_id else m_active m),
                     m_default := (if m_default m = cid then default_connection_id else m_default m),
                     m_sessions := filter (\<lambda>(s, a). a \<noteq> cid) (m_sessions m)\<rparr>)))"

definition active_connection :: "manager \<Rightarrow> connection option" where
  "active_connection m = map_of (m_conns m) (m_active m)"

definition rebind_session :: "string \<Rightarrow> string \<Rightarrow> manager \<Rightarrow> manager" where
  "rebind_session old_raw new_raw m =
     (let old = trim_space old_raw; new = trim_space new_raw in
      if old = [] \<or> new = [] \<or> old = new then m
      else m\<lparr>m_sessions := (case map_of (m_sessions m) old of
                 None \<Rightarrow> m_sessions m
               | Some a \<Rightarrow> AList.delete old (AList.update new a (m_sessions m))),
             m_conns := map (\<lambda>(k, c). (k, if c_owner c = old then c\<lparr>c_owner := new\<rparr> else c)) (m_conns m)\<rparr>)"

text \<open>A missing entry of \<^verbatim>\<open>activeBySession\<close> reads as the empty string.\<close>

definition session_choice :: "manager \<Rightarrow> string \<Rightarrow> string" where
  "session_choice m s = (case map_of (m_sessions m) s of Some a \<Rightarrow> a | None \<Rightarrow> [])"

definition active_for :: "manager \<Rightarrow> string \<Rightarrow> connection option" where
  "active_for m session =
     (let s = trim_space session in
      if s \<noteq> [] \<and> map_of (m_conns m) (session_choice m s) \<noteq> None
      then map_of (m_conns m) (session_choice m s)
      else map_of (m_conns m) (m_active m))"

definition get_connection :: "manager \<Rightarrow> string \<Rightarrow> connection option" where
  "get_connection m cid = map_of (m_conns m) (trim_space cid)"

definition get_for :: "manager \<Rightarrow> string \<Rightarrow> string \<Rightarrow> connection option" where
  "get_for m session cid =
     (let c = map_of (m_conns m) (trim_space cid) in if visible_to c session then c else None)"

text \<open>FNV-1a of the session id, and its last 24 bits in hexadecimal.\<close>

definition fnv32a :: "string \<Rightarrow> u32" where
  "fnv32a s = foldl (\<lambda>h c. (h XOR word_of_nat (of_char c)) * 16777619) 2166136261 s"

definition hex_digit :: "nat \<Rightarrow> char" where
  "hex_digit n = (if n < 10 then char_of (48 + n) else char_of (87 + n))"

fun hex_digits :: "nat \<Rightarrow> nat \<Rightarrow> string" where
  "hex_digits 0 n = []"
| "hex_digits (Suc k) n = hex_digits k (n div 16) @ [hex_digit (n mod 16)]"

definition short_session_suffix :: "string \<Rightarrow> string" where
  "short_session_suffix session = hex_digits 6 (unat (fnv32a session AND 0xFFFFFF))"

definition candidate_id :: "string \<Rightarrow> string \<Rightarrow> nat \<Rightarrow> string" where
  "candidate_id cid sfx i =
     (if i < 2 then cid @ ''-'' @ sfx else cid @ ''-'' @ sfx @ ''-'' @ nat_digits i)"

definition id_free :: "manager \<Rightarrow> string \<Rightarrow> string \<Rightarrow> bool" where
  "id_free m session cid \<longleftrightarrow>
     map_of (m_conns m) cid = None \<or> visible_to (map_of (m_conns m) cid) session"

text \<open>
  The loop tries the suffixed id, then numbered ones; \<open>fuel\<close> bounds the attempts and the loop
  answers \<open>None\<close> when it is used up, which \<open>disambiguate_enough\<close> excludes.
\<close>

fun disambiguate_loop :: "manager \<Rightarrow> string \<Rightarrow> string \<Rightarrow> nat \<Rightarrow> nat \<Rightarrow> string option" where
  "disambiguate_loop m session cid i 0 = None"
| "disambiguate_loop m session cid i (Suc fuel) =
     (let cand = candidate_id cid (short_session_suffix session) i in
      if id_free m session cand then Some cand else disambiguate_loop m session cid (Suc i) fuel)"

definition disambiguate_id :: "manager \<Rightarrow> string \<Rightarrow> string \<Rightarrow> string option" where
  "disambiguate_id m session cid =
     (if id_free m session cid then Some cid
      else disambiguate_loop m session cid 1 (Suc (length (m_conns m))))"

definition add_connection :: "connection \<Rightarrow> manager \<Rightarrow> app_error option \<times> manager" where
  "add_connection c0 m =
     (if trim_space (c_id c0) = [] then (Some (Message ''connection id is required''), m)
      else (case (if c_owner c0 \<noteq> [] then disambiguate_id m (c_owner c0) (c_id c0) else Some (c_id c0)) of
          None \<Rightarrow> (Some (Message ''out of fuel''), m)
        | Some cid \<Rightarrow>
            (let c = c0\<lparr>c_id := cid\<rparr> in
             (None, m\<lparr>m_closed :=
                        (case map_of (m_conns m) cid of
                           None \<Rightarrow> m_closed m
                         | Some old \<Rightarrow>
                             (case c_handle old of
                                None \<Rightarrow> m_closed m
                              | Some h \<Rightarrow> if c_id old \<noteq> default_connection_id then h # m_closed m else m_closed m)),
                      m_conns := AList.update cid c (m_conns m)\<rparr>))))"

definition set_active :: "string \<Rightarrow> manager \<Rightarrow> app_error option \<times> manager" where
  "set_active cid m =
     (if map_of (m_conns m) cid = None then (Some (Message ''connection not found''), m)
      else (None, m\<lparr>m_active := cid\<rparr>))"

definition set_default_connection :: "string \<Rightarrow> manager \<Rightarrow> app_error option \<times> manager" where
  "set_default_connection cid m =
     (case map_of (m_conns m) cid of
        None \<Rightarrow> (Some (Message ''connection not found''), m)
      | Some c \<Rightarrow>
          if c_owner c \<noteq> [] then (Some (Message ''connection is private to one session''), m)
          else (None, m\<lparr>m_default := cid, m_active := cid\<rparr>))"

definition set_active_for :: "string \<Rightarrow> string \<Rightarrow> manager \<Rightarrow> app_error option \<times> manager" where
  "set_active_for session cid m =
     (if \<not> visible_to (map_of (m_conns m) cid) session then (Some (Message ''connection not found''), m)
      else if trim_space session = [] then (None, m\<lparr>m_active := cid\<rparr>)
      else (None, m\<lparr>m_sessions := AList.update session cid (m_sessions m)\<rparr>))"

section \<open>DSNs\<close>

record dsn_env =
  redact_inline_secrets :: "string \<Rightarrow> string"
  url_string :: "string \<Rightarrow> string \<Rightarrow> (string \<times> string) option \<Rightarrow> string \<Rightarrow> (string \<times> string) list \<Rightarrow> string"
  mysql_format_dsn :: "string \<Rightarrow> string \<Rightarrow> string \<Rightarrow> string \<Rightarrow> string"
  env_var :: "string \<Rightarrow> string"

fun index_sub :: "string \<Rightarrow> string \<Rightarrow> nat option" where
  "index_sub sub [] = (if sub = [] then Some 0 else None)"
| "index_sub sub (x # xs) =
     (if prefix sub (x # xs) then Some 0 else map_option Suc (index_sub sub xs))"

text \<open>What stands behind the last \<open>@\<close>, if there is one.\<close>

definition after_last_at :: "string \<Rightarrow> string option" where
  "after_last_at s =
     (if CHR ''@'' \<in> set s then Some (rev (takeWhile (\<lambda>c. c \<noteq> CHR ''@'') (rev s))) else None)"

definition masked_dsn :: "dsn_env \<Rightarrow> string \<Rightarrow> string" where
  "masked_dsn env raw =
     (let dsn = trim_space raw in
      if dsn = [] then []
      else (case index_sub ''://'' dsn of
          None \<Rightarrow> redact_inline_secrets env dsn
        | Some i \<Rightarrow>
            (case after_last_at (drop (i + 3) dsn) of
               None \<Rightarrow> redact_inline_secrets env dsn
             | Some host \<Rightarrow> take (i + 3) dsn @ ''******@'' @ host)))"

definition sanitize_connection_id :: "string \<Rightarrow> string" where
  "sanitize_connection_id s =
     List.map_filter
       (\<lambda>c. if is_lower_byte c \<or> is_digit_byte c \<or> c = CHR ''_'' \<or> c = CHR ''-'' then Some c
            else if c = CHR '' '' then Some CHR ''-'' else None)
       (trim_space (to_lower s))"

definition looks_like_ado_connection_string :: "string \<Rightarrow> bool" where
  "looks_like_ado_connection_string s \<longleftrightarrow>
     list_ex (\<lambda>k. contains_sub k s) [''server='', ''data source='', ''addr='']
     \<and> list_ex (\<lambda>k. contains_sub k s)
         [''user id='', ''uid='', ''initial catalog='', ''integrated security='', ''trustservercertificate='']"

definition has_any_prefix :: "string list \<Rightarrow> string \<Rightarrow> bool" where
  "has_any_prefix ps s \<longleftrightarrow> list_ex (\<lambda>p. prefix p s) ps"

definition has_any_suffix :: "string list \<Rightarrow> string \<Rightarrow> bool" where
  "has_any_suffix ps s \<longleftrightarrow> list_ex (\<lambda>p. suffix p s) ps"

definition detect_connection_kind :: "string \<Rightarrow> string" where
  "detect_connection_kind dsn =
     (let lower = to_lower (trim_space dsn) in
      if has_any_prefix [''postgres://'', ''postgresql://''] lower then ''postgres''
      else if prefix ''mysql://'' lower \<or> contains_sub ''@tcp('' lower then ''mysql''
      else if has_any_prefix [''mssql://'', ''sqlserver://''] lower then ''mssql''
      else if prefix ''sqlite://'' lower \<or> has_any_suffix [''.db'', ''.sqlite'', ''.sqlite3''] lower
           \<or> lower = '':memory:'' then ''sqlite''
      else if looks_like_ado_connection_string lower then ''mssql''
      else if contains_sub ''dbname='' lower then ''postgres''
      else ''sqlite'')"

text \<open>Kind, driver, connection string and dialect for a kind that is not \<open>auto\<close>.\<close>

definition parse_known_dsn :: "string \<Rightarrow> string \<Rightarrow> string \<times> string \<times> string \<times> string" where
  "parse_known_dsn kind dsn =
     (let k = to_lower (trim_space kind); d = to_lower (trim_space dsn) in
      if k = ''postgres'' \<or> k = ''postgresql'' \<or> has_any_prefix [''postgres://'', ''postgresql://''] d
      then (''postgres'', ''postgres'', dsn, dialect_profile_for_name ''postgres'')
      else if k = ''mysql'' \<or> k = ''mariadb'' \<or> prefix ''mysql://'' d
      then (''mysql'', ''mysql'', (if prefix ''mysql://'' d then drop 8 dsn else dsn), dialect_profile_for_name ''mysql'')
      else if k = ''mssql'' \<or> k = ''sqlserver'' \<or> has_any_prefix [''mssql://'', ''sqlserver://''] d
      then (''mssql'', ''sqlserver'', (if prefix ''mssql://'' d then ''sqlserver://'' @ drop 8 dsn else dsn),
            dialect_profile_for_name ''mssql'')
      else if k = ''sqlite'' \<or> prefix ''sqlite://'' d \<or> has_any_suffix [''.db'', ''.sqlite'', ''.sqlite3''] d
      then (''sqlite'', ''sqlite'', (if prefix ''sqlite://'' d then drop 9 dsn else dsn), dialect_profile_for_name ''sqlite'')
      else (''sqlite'', ''sqlite'', dsn, dialect_profile_for_name ''sqlite''))"

definition parse_connection_dsn :: "string \<Rightarrow> string \<Rightarrow> string \<times> string \<times> string \<times> string" where
  "parse_connection_dsn kind dsn =
     (let k = to_lower (trim_space kind) in
      if k = [] \<or> k = ''auto'' then parse_known_dsn (detect_connection_kind dsn) dsn
      else parse_known_dsn kind dsn)"

record quick_connect_fields =
  qc_kind :: string
  qc_host :: string
  qc_port :: string
  qc_database :: string
  qc_user :: string
  qc_password :: string
  qc_instance :: string
  qc_ssl_mode :: string
  qc_encrypt :: string
  qc_trust_cert :: bool
  qc_params :: string
  qc_auth_mode :: string

definition mssql_auth_mode :: "string \<Rightarrow> string" where
  "mssql_auth_mode raw =
     (let m = to_lower (trim_space raw) in
      if m = ''windows-current'' then ''windows-current''
      else if m = ''windows-account'' then ''windows-account'' else ''sql'')"

definition port_or :: "string \<Rightarrow> string \<Rightarrow> string" where
  "port_or raw fallback = (if trim_space raw = [] then fallback else trim_space raw)"

definition mssql_credentials :: "quick_connect_fields \<Rightarrow> app_error + (string \<times> string) option" where
  "mssql_credentials f =
     (let user = trim_space (qc_user f); mode = mssql_auth_mode (qc_auth_mode f) in
      if mode = ''windows-current'' then
        (if user \<noteq> [] \<or> qc_password f \<noteq> []
         then Inl (Message ''windows authentication (current user) does not take a username or password'')
         else Inr None)
      else if mode = ''windows-account'' then
        (if CHR 0x5C \<notin> set user then Inl (Message ''windows authentication needs a domain user name'')
         else Inr (Some (user, qc_password f)))
      else if user = [] then Inl (Message ''user is required for SQL Server authentication'')
      else Inr (Some (user, qc_password f)))"

definition build_dsn_from_fields :: "dsn_env \<Rightarrow> quick_connect_fields \<Rightarrow> app_error + string" where
  "build_dsn_from_fields env f =
     (let host = trim_space (qc_host f); user = trim_space (qc_user f); database = trim_space (qc_database f);
          kind = to_lower (trim_space (qc_kind f)) in
      if host = [] then Inl (Message ''host is required'')
      else if kind = ''mssql'' \<or> kind = ''sqlserver'' then
        bind_res (mssql_credentials f) (\<lambda>credentials.
          Inr (url_string env ''sqlserver'' (host @ '':'' @ port_or (qc_port f) ''1433'') credentials
            (let inst = trim_space (qc_instance f) in if inst \<noteq> [] then ''/'' @ inst else [])
            ((if database \<noteq> [] then [(''database'', database)] else [])
             @ [(''encrypt'', port_or (qc_encrypt f) ''disable'')]
             @ (if qc_trust_cert f then [(''TrustServerCertificate'', ''true'')] else []))))
      else if kind = ''postgres'' \<or> kind = ''postgresql'' then
        Inr (url_string env ''postgres'' (host @ '':'' @ port_or (qc_port f) ''5432'')
          (if user \<noteq> [] then Some (user, qc_password f) else None) (''/'' @ database)
          [(''sslmode'', port_or (qc_ssl_mode f) ''disable'')])
      else if kind = ''mysql'' \<or> kind = ''mariadb'' then
        (let dsn = mysql_format_dsn env user (qc_password f) (host @ '':'' @ port_or (qc_port f) ''3306'') database;
             params = trim_space (qc_params f) in
         Inr (if params = [] then dsn
              else dsn @ (if contains_sub ''?'' dsn then ''&'' else ''?'') @ params))
      else if kind = ''sqlite'' then
        (if database = [] then Inl (Message ''database (file path) is required for SQLite'') else Inr database)
      else Inl (Message ''quick connect does not support this kind''))"

section \<open>Saved configurations\<close>

record managed_config =
  mc_id :: string
  mc_name :: string
  mc_kind :: string
  mc_dsn :: string
  mc_default :: bool

definition stored_configs :: "manager \<Rightarrow> managed_config list" where
  "stored_configs m =
     sort_key mc_id
       (map (\<lambda>(k, c). \<lparr>mc_id = c_id c, mc_name = c_name c, mc_kind = c_kind c, mc_dsn = c_dsn c,
                       mc_default = (c_id c = m_default m)\<rparr>)
         (filter (\<lambda>(k, c). c_id c \<noteq> default_connection_id \<and> trim_space (c_dsn c) \<noteq> []
                    \<and> c_id c \<in> set (m_persisted m)) (m_conns m)))"

record connection_info =
  ci_id :: string
  ci_name :: string
  ci_kind :: string
  ci_dialect :: string
  ci_dsn_display :: string
  ci_active :: bool
  ci_default :: bool
  ci_persisted :: bool
  ci_private :: bool

definition list_for :: "dsn_env \<Rightarrow> manager \<Rightarrow> string \<Rightarrow> connection_info list" where
  "list_for env m session =
     (let s = trim_space session;
          active = (if s = [] then m_active m
                    else (case map_of (m_conns m) (session_choice m s) of
                        Some c \<Rightarrow> c_id c | None \<Rightarrow> m_active m)) in
      sort_key (\<lambda>i. (if ci_id i = default_connection_id then ''0'' else ''1'') @ to_lower (ci_name i))
        (map (\<lambda>(k, c).
            \<lparr>ci_id = c_id c, ci_name = c_name c, ci_kind = c_kind c, ci_dialect = c_dialect c,
             ci_dsn_display = masked_dsn env (c_dsn c), ci_active = (c_id c = active),
             ci_default = (c_id c = m_default m), ci_persisted = (c_id c \<in> set (m_persisted m)),
             ci_private = (c_owner c \<noteq> [])\<rparr>)
          (filter (\<lambda>(k, c). visible_to (Some c) session) (m_conns m))))"

fun dedupe_from :: "string list \<Rightarrow> managed_config list \<Rightarrow> managed_config list" where
  "dedupe_from seen [] = []"
| "dedupe_from seen (cfg # cfgs) =
     (let cid = sanitize_connection_id (mc_id cfg) in
      if cid = [] \<or> trim_space (mc_dsn cfg) = [] \<or> cid \<in> set seen then dedupe_from seen cfgs
      else cfg\<lparr>mc_id := cid,
               mc_kind := (if trim_space (mc_kind cfg) = [] then ''auto'' else mc_kind cfg),
               mc_name := (if trim_space (mc_name cfg) = [] then cid else mc_name cfg)\<rparr>
             # dedupe_from (cid # seen) cfgs)"

definition dedupe_connection_configs :: "managed_config list \<Rightarrow> managed_config list" where
  "dedupe_connection_configs cfgs = dedupe_from [] cfgs"

definition first_env :: "dsn_env \<Rightarrow> string list \<Rightarrow> string" where
  "first_env env keys =
     (case filter (\<lambda>v. v \<noteq> []) (map (\<lambda>k. trim_space (env_var env k)) keys) of [] \<Rightarrow> [] | v # _ \<Rightarrow> v)"

definition env_config :: "string \<Rightarrow> string \<Rightarrow> string \<Rightarrow> string \<Rightarrow> managed_config list" where
  "env_config cid name kind raw =
     (let dsn = trim_space raw; i = sanitize_connection_id cid in
      if dsn = [] then []
      else [\<lparr>mc_id = (if i = [] then sanitize_connection_id name else i), mc_name = name, mc_kind = kind,
             mc_dsn = dsn, mc_default = False\<rparr>])"

text \<open>\<open>decoded\<close> is \<^verbatim>\<open>DATADOCK_CONNECTIONS\<close> decoded from JSON, empty where it is unset or invalid.\<close>

definition discover_environment_connections :: "dsn_env \<Rightarrow> managed_config list \<Rightarrow> managed_config list" where
  "discover_environment_connections env decoded =
     dedupe_connection_configs
       (env_config ''database-url'' ''DATABASE_URL'' ''auto'' (env_var env ''DATABASE_URL'')
        @ env_config ''postgres-url'' ''PostgreSQL'' ''postgres''
            (first_env env [''POSTGRES_URL'', ''POSTGRES_DSN'', ''DATABASE_POSTGRES_URL''])
        @ env_config ''mysql-url'' ''MySQL'' ''mysql''
            (first_env env [''MYSQL_URL'', ''MYSQL_DSN'', ''MARIADB_URL'', ''MARIADB_DSN''])
        @ env_config ''mssql-url'' ''Microsoft SQL Server'' ''mssql''
            (first_env env [''MSSQL_URL'', ''MSSQL_DSN'', ''SQLSERVER_URL'', ''SQLSERVER_DSN''])
        @ env_config ''sqlite-path'' ''SQLite'' ''sqlite''
            (first_env env [''SQLITE_PATH'', ''SQLITE_DSN'', ''DATADOCK_SQLITE_PATH''])
        @ decoded)"

section \<open>Handlers\<close>

text \<open>\<open>opened\<close> is the handle \<^verbatim>\<open>sql.Open\<close> with \<^verbatim>\<open>Ping\<close> gave, or the failure.\<close>

definition open_managed_connection ::
    "(string \<Rightarrow> string \<Rightarrow> nat option) \<Rightarrow> string \<Rightarrow> string \<Rightarrow> string \<Rightarrow> string \<Rightarrow> app_error + connection" where
  "open_managed_connection opened raw_id name kind dsn =
     (let cid = sanitize_connection_id raw_id in
      if cid = [] then Inl (Message ''connection id is required'')
      else (case parse_connection_dsn kind dsn of (k, driver, conn_str, dialect) \<Rightarrow>
          (case opened driver conn_str of
             None \<Rightarrow> Inl (Message ''cannot connect'')
           | Some h \<Rightarrow> Inr \<lparr>c_id = cid, c_name = (if trim_space name = [] then cid else name), c_kind = k,
                           c_dsn = dsn, c_dialect = dialect, c_owner = [], c_handle = Some h\<rparr>)))"

definition add_connection_handler ::
    "dsn_env \<Rightarrow> (string \<Rightarrow> string \<Rightarrow> nat option) \<Rightarrow> string \<Rightarrow> string \<Rightarrow> string \<Rightarrow> string \<Rightarrow>
     quick_connect_fields \<Rightarrow> manager \<Rightarrow> app_error option \<times> manager" where
  "add_connection_handler env opened session cid name raw_dsn form m =
     (let dsn = trim_space raw_dsn in
      case (if dsn = [] \<and> trim_space (qc_host form) \<noteq> [] then build_dsn_from_fields env form else Inr dsn) of
        Inl e \<Rightarrow> (Some e, m)
      | Inr dsn' \<Rightarrow>
          (case open_managed_connection opened cid name (qc_kind form) dsn' of
             Inl e \<Rightarrow> (Some e, m)
           | Inr c \<Rightarrow>
               (case add_connection (c\<lparr>c_owner := session\<rparr>) m of
                  (Some e, m') \<Rightarrow> (Some e, m')
                | (None, m') \<Rightarrow>
                    (let cid' = (if session \<noteq> [] then the (disambiguate_id m session (c_id c)) else c_id c) in
                     (None, snd (set_active_for session cid' m'))))))"

text \<open>Loading saved or discovered configurations at start-up: the first failure ends it.\<close>

fun open_managed_configs ::
    "(string \<Rightarrow> string \<Rightarrow> nat option) \<Rightarrow> bool \<Rightarrow> managed_config list \<Rightarrow> manager \<Rightarrow> app_error option \<times> manager" where
  "open_managed_configs opened skip [] m = (None, m)"
| "open_managed_configs opened skip (cfg # cfgs) m =
     (let cid = sanitize_connection_id (mc_id cfg) in
      if cid = [] \<or> trim_space (mc_dsn cfg) = [] then open_managed_configs opened skip cfgs m
      else if skip \<and> get_connection m cid \<noteq> None then open_managed_configs opened skip cfgs m
      else (case open_managed_connection opened cid (mc_name cfg) (mc_kind cfg) (mc_dsn cfg) of
          Inl e \<Rightarrow> (Some e, m)
        | Inr c \<Rightarrow>
            (case add_connection c m of
               (Some e, m') \<Rightarrow> (Some e, m')
             | (None, m') \<Rightarrow>
                 (let m'' = mark_persisted (c_id c) m' in
                  if mc_default cfg then
                    (case set_default_connection (c_id c) m'' of
                       (Some e, m3) \<Rightarrow> (Some e, m3)
                     | (None, m3) \<Rightarrow> open_managed_configs opened skip cfgs m3)
                  else open_managed_configs opened skip cfgs m''))))"

end
