(* ===== verification/SqlUtil.thy ===== *)
theory SqlUtil
  imports GoPrelude
begin

text \<open>
  The statement classifier of \<^verbatim>\<open>internal/sqlutil/sqlutil.go\<close>: the tokenizer \<open>sql_tokens\<close>, the
  scanner \<open>contains_statement_separator\<close> and \<open>classify\<close>, which read-only roles, maintenance
  mode and pipelines rest on.  A loop over a byte index is a recursion over the bytes still to
  come; the bytes already consumed are kept, last first, because \<open>is_e_prefixed_string\<close> looks
  back at them.  The second half relates both scanners to a list of lexemes.
\<close>

datatype statement_class =
  StatementUnknown | StatementReadQuery | StatementWriteDML | StatementDDL
| StatementProcedureCall | StatementScript

section \<open>Bytes\<close>

definition is_space :: "char \<Rightarrow> bool" where
  "is_space c \<longleftrightarrow> c = CHR '' '' \<or> c = CHR 0x09 \<or> c = CHR 0x0A \<or> c = CHR 0x0D \<or> c = CHR 0x0C"

definition is_ident_byte :: "char \<Rightarrow> bool" where
  "is_ident_byte c \<longleftrightarrow> c = CHR ''_'' \<or> is_digit_byte c \<or> is_upper_byte c \<or> is_lower_byte c"

definition is_newline :: "char \<Rightarrow> bool" where
  "is_newline c \<longleftrightarrow> c = CHR 0x0A \<or> c = CHR 0x0D"

text \<open>\<open>next\<close> in the source: the byte after the current one, or 0 at the end.\<close>

definition next_byte :: "string \<Rightarrow> char" where
  "next_byte r = (case r of [] \<Rightarrow> CHR 0x00 | d # _ \<Rightarrow> d)"

text \<open>\<open>pre\<close> holds the bytes before the quote, last first.\<close>

definition is_e_prefixed_string :: "string \<Rightarrow> bool" where
  "is_e_prefixed_string pre =
     (case pre of
        [] \<Rightarrow> False
      | prev # before \<Rightarrow>
          if prev \<noteq> CHR ''E'' \<and> prev \<noteq> CHR ''e'' then False
          else (case before of [] \<Rightarrow> True | b # _ \<Rightarrow> \<not> is_ident_byte b))"

section \<open>The separator scanner\<close>

text \<open>
  The five flags of the loop are exclusive, so the scanner is in one of five modes;
  \<open>In_Single\<close> carries \<^verbatim>\<open>singleEscaped\<close>.
\<close>

datatype scan_mode = In_Code | In_Line_Comment | In_Block_Comment | In_Single bool | In_Double

function sep_scan :: "scan_mode \<Rightarrow> string \<Rightarrow> string \<Rightarrow> bool" where
  "sep_scan m pre [] = False"
| "sep_scan In_Line_Comment pre (c # r) =
     (if is_newline c then sep_scan In_Code (c # pre) r
      else sep_scan In_Line_Comment (c # pre) r)"
| "sep_scan In_Block_Comment pre (c # r) =
     (if c = CHR ''*'' \<and> next_byte r = CHR ''/''
      then sep_scan In_Code (next_byte r # c # pre) (tl r)
      else sep_scan In_Block_Comment (c # pre) r)"
| "sep_scan (In_Single escaped) pre (c # r) =
     (if escaped \<and> c = CHR 0x5C then sep_scan (In_Single escaped) (next_byte r # c # pre) (tl r)
      else if c = CHR 0x27 then
        (if next_byte r = CHR 0x27
         then sep_scan (In_Single escaped) (next_byte r # c # pre) (tl r)
         else sep_scan In_Code (c # pre) r)
      else sep_scan (In_Single escaped) (c # pre) r)"
| "sep_scan In_Double pre (c # r) =
     (if c = CHR 0x22 then
        (if next_byte r = CHR 0x22 then sep_scan In_Double (next_byte r # c # pre) (tl r)
         else sep_scan In_Code (c # pre) r)
      else sep_scan In_Double (c # pre) r)"
| "sep_scan In_Code pre (c # r) =
     (if c = CHR ''-'' \<and> next_byte r = CHR ''-''
      then sep_scan In_Line_Comment (next_byte r # c # pre) (tl r)
      else if c = CHR ''/'' \<and> next_byte r = CHR ''*''
      then sep_scan In_Block_Comment (next_byte r # c # pre) (tl r)
      else if c = CHR 0x27 then sep_scan (In_Single (is_e_prefixed_string pre)) (c # pre) r
      else if c = CHR 0x22 then sep_scan In_Double (c # pre) r
      else if c = CHR '';'' \<and> trim_space r \<noteq> [] then True
      else sep_scan In_Code (c # pre) r)"
  by pat_completeness auto
termination
  by (relation "measure (\<lambda>(m, pre, r). length r)") auto

definition contains_statement_separator :: "string \<Rightarrow> bool" where
  "contains_statement_separator query = sep_scan In_Code [] query"

section \<open>The tokenizer\<close>

text \<open>The inner loops; each returns the consumed bytes (last first) and the rest.\<close>

fun skip_line_comment :: "string \<Rightarrow> string \<Rightarrow> string \<times> string" where
  "skip_line_comment pre [] = (pre, [])"
| "skip_line_comment pre (c # r) =
     (if is_newline c then (pre, c # r) else skip_line_comment (c # pre) r)"

fun skip_block_comment :: "string \<Rightarrow> string \<Rightarrow> string \<times> string" where
  "skip_block_comment pre (c # d # r) =
     (if c = CHR ''*'' \<and> d = CHR ''/'' then (d # c # pre, r)
      else skip_block_comment (c # pre) (d # r))"
| "skip_block_comment pre rest = (pre, rest)"

function skip_quoted :: "bool \<Rightarrow> char \<Rightarrow> string \<Rightarrow> string \<Rightarrow> string \<times> string" where
  "skip_quoted escaped quote pre [] = (pre, [])"
| "skip_quoted escaped quote pre (c # r) =
     (if escaped \<and> c = CHR 0x5C then skip_quoted escaped quote (next_byte r # c # pre) (tl r)
      else if c = quote then
        (if r \<noteq> [] \<and> hd r = quote then skip_quoted escaped quote (hd r # c # pre) (tl r)
         else (c # pre, r))
      else skip_quoted escaped quote (c # pre) r)"
  by pat_completeness auto
termination
  by (relation "measure (\<lambda>(escaped, quote, pre, r). length r)") auto

lemma skip_line_comment_shorter: "length (snd (skip_line_comment pre r)) \<le> length r"
  by (induction pre r rule: skip_line_comment.induct) auto

lemma skip_block_comment_shorter: "length (snd (skip_block_comment pre r)) \<le> length r"
  by (induction pre r rule: skip_block_comment.induct) auto

lemma skip_quoted_shorter: "length (snd (skip_quoted e q pre r)) \<le> length r"
  by (induction e q pre r rule: skip_quoted.induct) (auto simp: le_diff_conv)

lemma scanners_shrink:
  "length (snd (skip_line_comment p (tl r))) < Suc (length r)"
  "length (snd (skip_block_comment p (tl r))) < Suc (length r)"
  "length (snd (skip_quoted e q p r)) < Suc (length r)"
  "length (dropWhile f r) < Suc (length r)"
  using skip_line_comment_shorter [of p "tl r"] skip_block_comment_shorter [of p "tl r"]
    skip_quoted_shorter [of e q p r] length_dropWhile_le [of f r]
  by (simp_all add: less_Suc_eq_le)

function tokens_from :: "string \<Rightarrow> string \<Rightarrow> string list" where
  "tokens_from pre [] = []"
| "tokens_from pre (c # r) =
     (if is_space c \<or> c = CHR '','' then tokens_from (c # pre) r
      else if c = CHR ''-'' \<and> r \<noteq> [] \<and> hd r = CHR ''-'' then
        (let rest = skip_line_comment (hd r # c # pre) (tl r)
         in tokens_from (fst rest) (snd rest))
      else if c = CHR ''/'' \<and> r \<noteq> [] \<and> hd r = CHR ''*'' then
        (let rest = skip_block_comment (hd r # c # pre) (tl r)
         in tokens_from (fst rest) (snd rest))
      else if c = CHR 0x27 \<or> c = CHR 0x22 then
        (let rest = skip_quoted (c = CHR 0x27 \<and> is_e_prefixed_string pre) c (c # pre) r
         in tokens_from (fst rest) (snd rest))
      else if c = CHR ''('' \<or> c = CHR '')'' \<or> c = CHR '';'' then
        [c] # tokens_from (c # pre) r
      else if is_ident_byte c then
        to_upper (c # takeWhile is_ident_byte r)
        # tokens_from (rev (takeWhile is_ident_byte r) @ c # pre) (dropWhile is_ident_byte r)
      else tokens_from (c # pre) r)"
  by pat_completeness auto
termination
  by (relation "measure (\<lambda>x. length (snd x))") (simp_all add: scanners_shrink)

declare tokens_from.simps [simp del]

text \<open>\<^verbatim>\<open>strings.TrimLeft(query, "(\ufeff")\<close> drops leading parentheses and byte-order marks.\<close>

definition leading_cutset :: "string list" where
  "leading_cutset = [''('', [CHR 0xEF, CHR 0xBB, CHR 0xBF]]"

definition sql_tokens :: "string \<Rightarrow> string list" where
  "sql_tokens query = tokens_from [] (trim_space (strip leading_cutset query))"

section \<open>Classification\<close>

definition pragma_side_effect_names :: "string list" where
  "pragma_side_effect_names =
     [''FOREIGN_KEYS'', ''JOURNAL_MODE'', ''SYNCHRONOUS'', ''LOCKING_MODE'', ''WRITABLE_SCHEMA'',
      ''AUTO_VACUUM'', ''CACHE_SIZE'', ''APPLICATION_ID'', ''USER_VERSION'', ''SCHEMA_VERSION'',
      ''WAL_CHECKPOINT'', ''OPTIMIZE'']"

definition pragma_has_side_effect :: "string list \<Rightarrow> bool" where
  "pragma_has_side_effect tokens =
     list_ex (\<lambda>tok. tok \<in> set pragma_side_effect_names) (tl tokens)"

definition volatile_function_names :: "string list" where
  "volatile_function_names =
     [''PG_TERMINATE_BACKEND'', ''PG_CANCEL_BACKEND'', ''PG_RELOAD_CONF'', ''SETVAL'', ''NEXTVAL'',
      ''SLEEP'', ''BENCHMARK'', ''LOAD_FILE'']"

fun contains_volatile_call :: "string list \<Rightarrow> bool" where
  "contains_volatile_call (t # u # ts) =
     ((t \<in> set volatile_function_names \<and> u = ''('') \<or> contains_volatile_call (u # ts))"
| "contains_volatile_call ts = False"

text \<open>The option loop of \<^verbatim>\<open>explainWrappedStatement\<close>: depth, the \<^verbatim>\<open>analyzing\<close> flag, the tokens left.\<close>

fun explain_options :: "nat \<Rightarrow> bool \<Rightarrow> string list \<Rightarrow> bool \<times> string list" where
  "explain_options 0 analyzing ts = (analyzing, ts)"
| "explain_options (Suc d) analyzing [] = (analyzing, [])"
| "explain_options (Suc d) analyzing (t # ts) =
     (if t = ''('' then explain_options (Suc (Suc d)) analyzing ts
      else if t = '')'' then explain_options d analyzing ts
      else if t = ''ANALYZE'' then explain_options (Suc d) True ts
      else explain_options (Suc d) analyzing ts)"

definition explain_wrapped_statement :: "string list \<Rightarrow> string list option" where
  "explain_wrapped_statement tokens =
     (let (analyzing, rest) =
        (case tl tokens of
           [] \<Rightarrow> (False, [])
         | t # ts \<Rightarrow>
             if t = ''('' then explain_options 1 False ts
             else if t = ''ANALYZE'' then (True, ts)
             else (False, t # ts))
      in if \<not> analyzing \<or> rest = [] then None else Some rest)"

definition cte_dml_verbs :: "string list" where
  "cte_dml_verbs = [''INSERT'', ''UPDATE'', ''DELETE'', ''MERGE'', ''REPLACE'']"

fun cte_scan :: "nat \<Rightarrow> string list \<Rightarrow> string" where
  "cte_scan depth [] = ''WITH''"
| "cte_scan depth (t # ts) =
     (let tok = to_upper t in
      if tok = ''('' then cte_scan (Suc depth) ts
      else if tok = '')'' then cte_scan (depth - 1) ts
      else if tok \<in> set cte_dml_verbs then tok
      else if tok = ''SELECT'' \<and> depth = 0 then tok
      else cte_scan depth ts)"

definition cte_main_verb :: "string list \<Rightarrow> string" where
  "cte_main_verb tokens = cte_scan 0 (tl tokens)"

lemma explain_options_shorter: "length (snd (explain_options d a ts)) \<le> length ts"
  by (induction d a ts rule: explain_options.induct) auto

lemma explain_wrapped_shorter:
  "explain_wrapped_statement tokens = Some ts \<Longrightarrow> length ts < length tokens"
  using explain_options_shorter [of 1 False "tl (tl tokens)"]
  by (cases tokens)
     (auto simp: explain_wrapped_statement_def less_Suc_eq_le
           split: list.splits if_splits prod.splits)

text \<open>
  The leading verb, with \<^verbatim>\<open>WITH\<close> resolved to the verb of its main statement.  Both callers
  pass a non-empty token list, as \<^verbatim>\<open>tokens[0]\<close> requires.
\<close>

definition leading_verb :: "string list \<Rightarrow> string" where
  "leading_verb tokens =
     (let first = to_upper (hd tokens)
      in if first = ''WITH'' then cte_main_verb tokens else first)"

function classify_tokens :: "string list \<Rightarrow> statement_class" where
  "classify_tokens tokens =
     (let first = leading_verb tokens in
      if first = ''EXPLAIN'' then
        (case explain_wrapped_statement tokens of
           Some wrapped \<Rightarrow> classify_tokens wrapped
         | None \<Rightarrow> StatementReadQuery)
      else if first = ''PRAGMA'' then
        (if pragma_has_side_effect tokens then StatementWriteDML else StatementReadQuery)
      else if first \<in> set [''SELECT'', ''SHOW'', ''DESCRIBE'', ''DESC''] then
        (if contains_volatile_call tokens then StatementWriteDML else StatementReadQuery)
      else if first \<in> set [''INSERT'', ''UPDATE'', ''DELETE'', ''MERGE'', ''REPLACE'', ''TRUNCATE'']
        then StatementWriteDML
      else if first \<in> set [''CREATE'', ''DROP'', ''ALTER'', ''REFRESH'', ''GRANT'', ''REVOKE'']
        then StatementDDL
      else if first \<in> set [''CALL'', ''EXEC'', ''EXECUTE''] then StatementProcedureCall
      else StatementUnknown)"
  by pat_completeness auto
termination
  by (relation "measure length") (auto dest: explain_wrapped_shorter)

declare classify_tokens.simps [simp del]

definition classify :: "string \<Rightarrow> statement_class" where
  "classify query =
     (let tokens = sql_tokens query in
      if tokens = [] then StatementUnknown
      else if contains_statement_separator query then StatementScript
      else classify_tokens tokens)"

definition is_result_producing :: "string \<Rightarrow> bool" where
  "is_result_producing query \<longleftrightarrow> classify query = StatementReadQuery"

end
