(* ===== verification/SqlLexemes.thy ===== *)
theory SqlLexemes
  imports SqlUtil
begin

text \<open>
  What the two scanners of \<^verbatim>\<open>sqlutil.go\<close> must agree on.  A query is described as a list of
  lexemes; \<open>render\<close> gives its text and \<open>wf_lex\<close> says that no two lexemes run together and
  that every comment and literal is closed.  On such a text the tokenizer returns exactly the
  words and punctuation outside comments and literals, and the separator scanner answers
  whether a semicolon outside them has a non-blank rest.  The classifier lemmas follow.
\<close>

datatype lexeme =
  Blank char | Word string | Punct char | Junk char
| Line_Comment string | Block_Comment string | Single_Quoted string | Double_Quoted string

fun text_of :: "lexeme \<Rightarrow> string" where
  "text_of (Blank c) = [c]"
| "text_of (Word w) = w"
| "text_of (Punct c) = [c]"
| "text_of (Junk c) = [c]"
| "text_of (Line_Comment b) = ''--'' @ b"
| "text_of (Block_Comment b) = ''/*'' @ b @ ''*/''"
| "text_of (Single_Quoted b) = [CHR 0x27] @ b @ [CHR 0x27]"
| "text_of (Double_Quoted b) = [CHR 0x22] @ b @ [CHR 0x22]"

definition render :: "lexeme list \<Rightarrow> string" where
  "render ls = concat (map text_of ls)"

fun tokens_of :: "lexeme \<Rightarrow> string list" where
  "tokens_of (Word w) = [to_upper w]"
| "tokens_of (Punct c) = [[c]]"
| "tokens_of _ = []"

text \<open>No \<open>*/\<close> inside a block comment; every quote of a literal doubled (or escaped).\<close>

fun block_body :: "string \<Rightarrow> bool" where
  "block_body (c # d # r) = (\<not> (c = CHR ''*'' \<and> d = CHR ''/'') \<and> block_body (d # r))"
| "block_body _ = True"

function quoted_body :: "bool \<Rightarrow> char \<Rightarrow> string \<Rightarrow> bool" where
  "quoted_body escaped q [] = True"
| "quoted_body escaped q (c # r) =
     (if escaped \<and> c = CHR 0x5C then r \<noteq> [] \<and> quoted_body escaped q (tl r)
      else if c = q then r \<noteq> [] \<and> hd r = q \<and> quoted_body escaped q (tl r)
      else quoted_body escaped q r)"
  by pat_completeness auto
termination
  by (relation "measure (\<lambda>(e, q, r). length r)") auto

definition starts_with :: "(char \<Rightarrow> bool) \<Rightarrow> string \<Rightarrow> bool" where
  "starts_with f s \<longleftrightarrow> s \<noteq> [] \<and> f (hd s)"

lemma starts_with_simps [simp]:
  "\<not> starts_with f []" "starts_with f (c # s) = f c"
  by (simp_all add: starts_with_def)

definition is_punct :: "char \<Rightarrow> bool" where
  "is_punct c \<longleftrightarrow> c = CHR ''('' \<or> c = CHR '')'' \<or> c = CHR '';''"

definition is_quote :: "char \<Rightarrow> bool" where
  "is_quote c \<longleftrightarrow> c = CHR 0x27 \<or> c = CHR 0x22"

definition is_blank :: "char \<Rightarrow> bool" where
  "is_blank c \<longleftrightarrow> is_space c \<or> c = CHR '',''"

fun lex_ok :: "string \<Rightarrow> lexeme \<Rightarrow> string \<Rightarrow> bool" where
  "lex_ok pre (Blank c) nxt = is_blank c"
| "lex_ok pre (Word w) nxt =
     (w \<noteq> [] \<and> list_all is_ident_byte w \<and> \<not> starts_with is_ident_byte nxt)"
| "lex_ok pre (Punct c) nxt = is_punct c"
| "lex_ok pre (Junk c) nxt =
     (\<not> is_blank c \<and> \<not> is_ident_byte c \<and> \<not> is_punct c \<and> \<not> is_quote c
      \<and> \<not> (c = CHR ''-'' \<and> starts_with ((=) CHR ''-'') nxt)
      \<and> \<not> (c = CHR ''/'' \<and> starts_with ((=) CHR ''*'') nxt))"
| "lex_ok pre (Line_Comment b) nxt =
     (list_all (\<lambda>c. \<not> is_newline c) b \<and> (nxt \<noteq> [] \<longrightarrow> starts_with is_newline nxt))"
| "lex_ok pre (Block_Comment b) nxt = block_body b"
| "lex_ok pre (Single_Quoted b) nxt =
     (quoted_body (is_e_prefixed_string pre) CHR 0x27 b \<and> \<not> starts_with ((=) CHR 0x27) nxt)"
| "lex_ok pre (Double_Quoted b) nxt =
     (quoted_body False CHR 0x22 b \<and> \<not> starts_with ((=) CHR 0x22) nxt)"

fun wf_lex :: "string \<Rightarrow> lexeme list \<Rightarrow> bool" where
  "wf_lex pre [] = True"
| "wf_lex pre (l # ls) = (lex_ok pre l (render ls) \<and> wf_lex (rev (text_of l) @ pre) ls)"

lemma render_simps [simp]: "render [] = []" "render (l # ls) = text_of l @ render ls"
  by (simp_all add: render_def)

section \<open>Character classes\<close>

named_theorems byte_class

lemma ident_not_special [byte_class]:
  "is_ident_byte c \<Longrightarrow> \<not> is_space c \<and> \<not> is_blank c \<and> \<not> is_punct c \<and> \<not> is_quote c
     \<and> c \<noteq> CHR '','' \<and> c \<noteq> CHR ''-'' \<and> c \<noteq> CHR ''/'' \<and> c \<noteq> CHR '';'' \<and> c \<noteq> CHR 0x27 \<and> c \<noteq> CHR 0x22
     \<and> c \<noteq> CHR ''('' \<and> c \<noteq> CHR '')''"
  by (auto simp: is_ident_byte_def is_space_def is_blank_def is_punct_def is_quote_def
      is_digit_byte_def is_upper_byte_def is_lower_byte_def in_range_def)

lemma blank_not_special [byte_class]:
  "is_blank c \<Longrightarrow> c \<noteq> CHR ''-'' \<and> c \<noteq> CHR ''/'' \<and> c \<noteq> CHR '';'' \<and> c \<noteq> CHR 0x27 \<and> c \<noteq> CHR 0x22"
  by (auto simp: is_blank_def is_space_def)

lemma newline_blank [byte_class]: "is_newline c \<Longrightarrow> is_blank c"
  by (auto simp: is_newline_def is_blank_def is_space_def)

lemma punct_not_special [byte_class]:
  "is_punct c \<Longrightarrow> \<not> is_space c \<and> c \<noteq> CHR '','' \<and> c \<noteq> CHR ''-'' \<and> c \<noteq> CHR ''/''
     \<and> c \<noteq> CHR 0x27 \<and> c \<noteq> CHR 0x22"
  by (auto simp: is_punct_def is_space_def)

lemma next_byte_eq_iff: "c \<noteq> CHR 0x00 \<Longrightarrow> next_byte s = c \<longleftrightarrow> starts_with ((=) c) s"
  by (auto simp: next_byte_def split: list.splits)

section \<open>The inner loops on closed comments and literals\<close>

lemma skip_line_comment_body:
  "list_all (\<lambda>c. \<not> is_newline c) b \<Longrightarrow> (nxt \<noteq> [] \<longrightarrow> starts_with is_newline nxt) \<Longrightarrow>
   skip_line_comment pre (b @ nxt) = (rev b @ pre, nxt)"
  by (induction b arbitrary: pre) (cases nxt, auto)+

lemma skip_block_comment_body:
  "block_body b \<Longrightarrow>
   skip_block_comment pre (b @ CHR ''*'' # CHR ''/'' # nxt)
     = (CHR ''/'' # CHR ''*'' # rev b @ pre, nxt)"
proof (induction b arbitrary: pre rule: block_body.induct)
  case (1 c d r)
  then show ?case by auto
qed simp_all

lemma skip_quoted_body:
  "quoted_body e q b \<Longrightarrow> q \<noteq> CHR 0x5C \<Longrightarrow> \<not> starts_with ((=) q) nxt \<Longrightarrow>
    skip_quoted e q pre (b @ q # nxt) = (q # rev b @ pre, nxt)"
proof (induction e q b arbitrary: pre rule: quoted_body.induct)
  case (1 e q)
  then show ?case by (cases nxt) auto
next
  case (2 e q c r)
  show ?case
  proof (cases r)
    case Nil
    with 2 show ?thesis by (auto split: if_splits)
  next
    case (Cons d r')
    with 2 show ?thesis by (auto simp: next_byte_def split: if_splits)
  qed
qed

section \<open>The separator scanner on lexemes\<close>

lemma sep_scan_line_comment:
  "list_all (\<lambda>c. \<not> is_newline c) b \<Longrightarrow> (nxt \<noteq> [] \<longrightarrow> starts_with is_newline nxt) \<Longrightarrow>
   sep_scan In_Line_Comment pre (b @ nxt) = sep_scan In_Code (rev b @ pre) nxt"
proof (induction b arbitrary: pre)
  case Nil
  then show ?case
  proof (cases nxt)
    case (Cons c r)
    with Nil have "is_newline c" by simp
    with Cons show ?thesis
      using blank_not_special [OF newline_blank [of c]] by simp
  qed simp
qed simp

lemma sep_scan_block_comment:
  "block_body b \<Longrightarrow>
   sep_scan In_Block_Comment pre (b @ CHR ''*'' # CHR ''/'' # nxt)
     = sep_scan In_Code (CHR ''/'' # CHR ''*'' # rev b @ pre) nxt"
proof (induction b arbitrary: pre rule: block_body.induct)
  case (1 c d r)
  then show ?case by (auto simp: next_byte_def)
qed (auto simp: next_byte_def)

lemma sep_scan_single:
  "quoted_body e CHR 0x27 b \<Longrightarrow> \<not> starts_with ((=) CHR 0x27) nxt \<Longrightarrow>
   sep_scan (In_Single e) pre (b @ CHR 0x27 # nxt) = sep_scan In_Code (CHR 0x27 # rev b @ pre) nxt"
proof (induction e "CHR 0x27" b arbitrary: pre rule: quoted_body.induct)
  case (1 e)
  then show ?case by (simp add: next_byte_eq_iff)
next
  case (2 e c r)
  consider (esc) "e" "c = CHR 0x5C" | (quote) "c = CHR 0x27"
    | (plain) "\<not> (e \<and> c = CHR 0x5C)" "c \<noteq> CHR 0x27" by blast
  then show ?case
  proof cases
    case esc
    with 2 obtain d r' where "r = d # r'" by (cases r) auto
    with esc 2 show ?thesis by (simp add: next_byte_def)
  next
    case quote
    with 2 obtain r' where "r = CHR 0x27 # r'" by (cases r) auto
    with quote 2 show ?thesis by (simp add: next_byte_def)
  next
    case plain
    with 2 show ?thesis by (cases e) simp_all
  qed
qed

lemma sep_scan_double:
  "quoted_body e CHR 0x22 b \<Longrightarrow> \<not> e \<Longrightarrow> \<not> starts_with ((=) CHR 0x22) nxt \<Longrightarrow>
   sep_scan In_Double pre (b @ CHR 0x22 # nxt) = sep_scan In_Code (CHR 0x22 # rev b @ pre) nxt"
proof (induction e "CHR 0x22" b arbitrary: pre rule: quoted_body.induct)
  case (1 e)
  then show ?case by (simp add: next_byte_eq_iff)
next
  case (2 e c r)
  show ?case
  proof (cases "c = CHR 0x22")
    case True
    with 2 obtain r' where "r = CHR 0x22 # r'" by (cases r) auto
    with True 2 show ?thesis by (simp add: next_byte_def)
  next
    case False
    with 2 show ?thesis by simp
  qed
qed

lemma sep_scan_word:
  "list_all is_ident_byte w \<Longrightarrow>
   sep_scan In_Code pre (w @ nxt) = sep_scan In_Code (rev w @ pre) nxt"
  by (induction w arbitrary: pre) (auto simp: ident_not_special)

text \<open>A live semicolon: outside comments and literals, with a non-blank rest.\<close>

definition live_separator :: "lexeme list \<Rightarrow> bool" where
  "live_separator ls \<longleftrightarrow>
     (\<exists>before after. ls = before @ Punct CHR '';'' # after \<and> trim_space (render after) \<noteq> [])"

lemma live_separator_Cons:
  "live_separator (l # ls) \<longleftrightarrow>
     l = Punct CHR '';'' \<and> trim_space (render ls) \<noteq> [] \<or> live_separator ls"
  unfolding live_separator_def by (auto simp: Cons_eq_append_conv)

lemma live_separator_Nil [simp]: "\<not> live_separator []"
  by (simp add: live_separator_def)

lemma sep_scan_lexeme:
  assumes "lex_ok pre l nxt"
  shows "sep_scan In_Code pre (text_of l @ nxt) \<longleftrightarrow>
    l = Punct CHR '';'' \<and> trim_space nxt \<noteq> [] \<or> sep_scan In_Code (rev (text_of l) @ pre) nxt"
proof (cases l)
  case (Blank c)
  with assms show ?thesis by (simp add: blank_not_special)
next
  case (Word w)
  with assms show ?thesis by (simp add: sep_scan_word)
next
  case (Punct c)
  with assms show ?thesis by (auto simp: punct_not_special)
next
  case (Junk c)
  with assms show ?thesis by (auto simp: next_byte_eq_iff is_quote_def is_punct_def)
next
  case (Line_Comment b)
  with assms show ?thesis by (simp add: next_byte_def sep_scan_line_comment)
next
  case (Block_Comment b)
  with assms show ?thesis by (simp add: next_byte_def sep_scan_block_comment)
next
  case (Single_Quoted b)
  with assms show ?thesis by (simp add: sep_scan_single)
next
  case (Double_Quoted b)
  with assms show ?thesis by (simp add: sep_scan_double [of False])
qed

lemma sep_scan_lexemes:
  "wf_lex pre ls \<Longrightarrow> sep_scan In_Code pre (render ls) \<longleftrightarrow> live_separator ls"
  by (induction ls arbitrary: pre) (simp_all add: sep_scan_lexeme live_separator_Cons)

section \<open>The tokenizer on lexemes\<close>

lemma takeWhile_word:
  assumes "list_all is_ident_byte w" "\<not> starts_with is_ident_byte nxt"
  shows "takeWhile is_ident_byte (w @ nxt) = w" "dropWhile is_ident_byte (w @ nxt) = nxt"
  using assms
  by (simp_all add: takeWhile_append2 dropWhile_append2 list_all_iff)
     (cases nxt; simp)+

lemma tokens_from_lexeme:
  assumes "lex_ok pre l nxt"
  shows "tokens_from pre (text_of l @ nxt) = tokens_of l @ tokens_from (rev (text_of l) @ pre) nxt"
proof (cases l)
  case (Blank c)
  with assms show ?thesis
    by (simp add: is_blank_def tokens_from.simps(2) [of pre c])
next
  case (Word w)
  with assms obtain c v where w: "w = c # v" "is_ident_byte c" "list_all is_ident_byte v"
    by (cases w) auto
  with Word assms show ?thesis
    by (simp add: tokens_from.simps(2) [of pre c] ident_not_special takeWhile_word)
next
  case (Punct c)
  with assms show ?thesis
    by (simp add: tokens_from.simps(2) [of pre c] punct_not_special)
       (auto simp: is_punct_def)
next
  case (Junk c)
  with assms show ?thesis
    by (auto simp: tokens_from.simps(2) [of pre c] is_blank_def is_quote_def is_punct_def
        starts_with_def)
next
  case (Line_Comment b)
  with assms show ?thesis
    by (simp add: tokens_from.simps(2) [of pre "CHR ''-''"] is_space_def skip_line_comment_body)
next
  case (Block_Comment b)
  with assms show ?thesis
    by (simp add: tokens_from.simps(2) [of pre "CHR ''/''"] is_space_def skip_block_comment_body)
next
  case (Single_Quoted b)
  with assms show ?thesis
    by (simp add: tokens_from.simps(2) [of pre "CHR 0x27"] is_space_def skip_quoted_body)
next
  case (Double_Quoted b)
  with assms show ?thesis
    by (simp add: tokens_from.simps(2) [of pre "CHR 0x22"] is_space_def skip_quoted_body)
qed

lemma tokens_from_lexemes:
  "wf_lex pre ls \<Longrightarrow> tokens_from pre (render ls) = concat (map tokens_of ls)"
  by (induction ls arbitrary: pre) (simp_all add: tokens_from_lexeme tokens_from.simps(1))

end
