(* ===== verification/SqlClassify.thy ===== *)
theory SqlClassify
  imports SqlLexemes
begin

text \<open>
  Properties of the classifier of \<^verbatim>\<open>internal/sqlutil/sqlutil.go\<close>: what the two scanners see of a
  query, when a query counts as result-producing, why a data-modifying common table expression
  and an executed \<^verbatim>\<open>EXPLAIN ANALYZE\<close> do not.
\<close>

section \<open>The statement that runs\<close>

text \<open>\<open>executed\<close> peels every \<^verbatim>\<open>EXPLAIN ANALYZE\<close> (either form) off a token list.\<close>

function executed :: "string list \<Rightarrow> string list" where
  "executed tokens =
     (if leading_verb tokens = ''EXPLAIN''
      then (case explain_wrapped_statement tokens of Some w \<Rightarrow> executed w | None \<Rightarrow> tokens)
      else tokens)"
  by pat_completeness auto
termination
  by (relation "measure length") (auto dest: explain_wrapped_shorter)

declare executed.simps [simp del]

definition reads_only :: "string list \<Rightarrow> bool" where
  "reads_only tokens \<longleftrightarrow>
     (let v = leading_verb tokens in
        v = ''EXPLAIN''
      \<or> v = ''PRAGMA'' \<and> \<not> pragma_has_side_effect tokens
      \<or> v \<in> {''SELECT'', ''SHOW'', ''DESCRIBE'', ''DESC''} \<and> \<not> contains_volatile_call tokens)"

lemma classify_tokens_not_explain:
  "leading_verb tokens \<noteq> ''EXPLAIN'' \<Longrightarrow>
   classify_tokens tokens = StatementReadQuery \<longleftrightarrow> reads_only tokens"
  by (subst classify_tokens.simps) (simp add: reads_only_def Let_def)

lemma classify_tokens_read_iff:
  "classify_tokens tokens = StatementReadQuery \<longleftrightarrow> reads_only (executed tokens)"
proof (induction tokens rule: executed.induct)
  case (1 tokens)
  show ?case
  proof (cases "leading_verb tokens = ''EXPLAIN''")
    case explain: True
    show ?thesis
    proof (cases "explain_wrapped_statement tokens")
      case None
      with explain show ?thesis
        by (simp add: classify_tokens.simps [of tokens] executed.simps [of tokens] reads_only_def)
    next
      case (Some w)
      with explain "1.IH" show ?thesis
        by (simp add: classify_tokens.simps [of tokens] executed.simps [of tokens])
    qed
  next
    case False
    then show ?thesis
      by (simp add: classify_tokens_not_explain executed.simps [of tokens])
  qed
qed

section \<open>Common table expressions\<close>

fun paren_depth :: "nat \<Rightarrow> string list \<Rightarrow> nat" where
  "paren_depth d [] = d"
| "paren_depth d (t # ts) =
     paren_depth (if t = ''('' then Suc d else if t = '')'' then d - 1 else d) ts"

definition main_select_at :: "string list \<Rightarrow> nat \<Rightarrow> bool" where
  "main_select_at ts i \<longleftrightarrow>
     i < length ts \<and> to_upper (ts ! i) = ''SELECT''
     \<and> paren_depth 0 (map to_upper (take i ts)) = 0
     \<and> (\<forall>t\<in>set (take i ts). to_upper t \<notin> set cte_dml_verbs)"

lemma cte_scan_result: "cte_scan d ts \<in> insert ''WITH'' (insert ''SELECT'' (set cte_dml_verbs))"
  by (induction d ts rule: cte_scan.induct) (auto simp: Let_def)

lemma cte_scan_select:
  "cte_scan d ts = ''SELECT'' \<Longrightarrow>
   \<exists>i < length ts. to_upper (ts ! i) = ''SELECT''
     \<and> paren_depth d (map to_upper (take i ts)) = 0
     \<and> (\<forall>t\<in>set (take i ts). to_upper t \<notin> set cte_dml_verbs)"
proof (induction d ts rule: cte_scan.induct)
  case (1 d)
  then show ?case by simp
next
  case (2 d t ts)
  let ?d' = "if to_upper t = ''('' then Suc d else if to_upper t = '')'' then d - 1 else d"
  show ?case
  proof (cases "to_upper t = ''SELECT'' \<and> d = 0")
    case True
    then show ?thesis by (intro exI [of _ 0]) simp
  next
    case False
    have no_dml: "to_upper t \<notin> set cte_dml_verbs"
      using "2.prems" False by (auto simp: Let_def cte_dml_verbs_def split: if_splits)
    have "cte_scan ?d' ts = ''SELECT''"
      using "2.prems" False no_dml by (auto simp: Let_def split: if_splits)
    then have "\<exists>i < length ts. to_upper (ts ! i) = ''SELECT''
        \<and> paren_depth ?d' (map to_upper (take i ts)) = 0
        \<and> (\<forall>t\<in>set (take i ts). to_upper t \<notin> set cte_dml_verbs)"
      using "2.IH" False no_dml by (simp split: if_splits)
    then obtain i where "i < length ts" "to_upper (ts ! i) = ''SELECT''"
      "paren_depth ?d' (map to_upper (take i ts)) = 0"
      "\<forall>t\<in>set (take i ts). to_upper t \<notin> set cte_dml_verbs" by blast
    with no_dml show ?thesis by (intro exI [of _ "Suc i"]) simp
  qed
qed

section \<open>Option lists of EXPLAIN\<close>

text \<open>The nesting depth after a token list that never closes the parenthesis it starts in.\<close>

fun open_depth :: "nat \<Rightarrow> string list \<Rightarrow> nat option" where
  "open_depth d [] = Some d"
| "open_depth d (t # ts) =
     (if t = ''('' then open_depth (Suc d) ts
      else if t = '')'' then (if d \<le> 1 then None else open_depth (d - 1) ts)
      else open_depth d ts)"

lemma explain_options_open:
  "open_depth (Suc d) opts = Some d' \<Longrightarrow>
   explain_options (Suc d) a (opts @ rest) = explain_options d' (a \<or> ''ANALYZE'' \<in> set opts) rest"
proof (induction opts arbitrary: d a)
  case Nil
  then show ?case by simp
next
  case (Cons t opts)
  then show ?case by (cases d) (auto split: if_splits)
qed

lemma explain_wrapped_options:
  assumes "open_depth 1 opts = Some 1" "''ANALYZE'' \<in> set opts" "stmt \<noteq> []"
  shows "explain_wrapped_statement (v # ''('' # opts @ '')'' # stmt) = Some stmt"
proof -
  have "explain_options 1 False (opts @ '')'' # stmt) = (True, stmt)"
    using explain_options_open [of 0 opts 1 False "'')'' # stmt"] assms by simp
  with assms(3) show ?thesis by (simp add: explain_wrapped_statement_def)
qed

lemma classify_explain:
  "explain_wrapped_statement (''EXPLAIN'' # ts) = Some stmt \<Longrightarrow>
   classify_tokens (''EXPLAIN'' # ts) = classify_tokens stmt"
  by (subst classify_tokens.simps)
     (simp add: leading_verb_def to_upper_def upper_byte_def is_lower_byte_def in_range_def)

section \<open>Properties\<close>

text \<open>
  Claim C6: on any query written as a sequence of separate lexemes with closed comments and
  literals, the tokenizer yields exactly the words (upper-cased) and punctuation outside comments
  and literals, and the independent separator scanner reports a second statement exactly when a
  semicolon outside comments and literals is followed by something other than white space.
\<close>

theorem scanners_follow_lexemes:
  assumes "wf_lex [] ls" and "trim_space (strip leading_cutset (render ls)) = render ls"
  shows "sql_tokens (render ls) = concat (map tokens_of ls)
    \<and> (contains_statement_separator (render ls) \<longleftrightarrow> live_separator ls)"
  using assms
  by (simp add: sql_tokens_def tokens_from_lexemes contains_statement_separator_def sep_scan_lexemes)

definition sample_lexemes :: "lexeme list" where
  "sample_lexemes =
     [Word ''select'', Blank CHR '' '', Single_Quoted ''a;--'', Punct CHR '';'', Blank CHR '' '',
      Block_Comment '' ; '', Word ''drop'']"

theorem scanners_follow_lexemes_witness:
  "sql_tokens (render sample_lexemes) = [''SELECT'', '';'', ''DROP'']
   \<and> contains_statement_separator (render sample_lexemes)"
proof -
  have wf: "wf_lex [] sample_lexemes" by code_simp
  have tr: "trim_space (strip leading_cutset (render sample_lexemes)) = render sample_lexemes"
    by code_simp
  have "live_separator sample_lexemes"
  proof -
    have "trim_space (render [Blank CHR '' '', Block_Comment '' ; '', Word ''drop'']) \<noteq> []"
      by code_simp
    then show ?thesis by (simp add: sample_lexemes_def live_separator_Cons)
  qed
  moreover have "concat (map tokens_of sample_lexemes) = [''SELECT'', '';'', ''DROP'']"
    by code_simp
  ultimately show ?thesis using scanners_follow_lexemes [OF wf tr] by simp
qed


text \<open>
  Claim C8: a \<^verbatim>\<open>WITH\<close> query passes as result-producing only if its main \<^verbatim>\<open>SELECT\<close> stands outside
  all parentheses and no \<^verbatim>\<open>INSERT\<close>, \<^verbatim>\<open>UPDATE\<close>, \<^verbatim>\<open>DELETE\<close>, \<^verbatim>\<open>MERGE\<close> or \<^verbatim>\<open>REPLACE\<close> occurs before it, at
  any depth: a data-modifying common table expression is never taken for a read.
\<close>

theorem read_cte_modifies_nothing:
  assumes "is_result_producing query" and "sql_tokens query = ''WITH'' # ts"
  shows "\<exists>i. main_select_at ts i"
proof -
  have w: "to_upper ''WITH'' = ''WITH''" by code_simp
  have v: "leading_verb (''WITH'' # ts) = cte_scan 0 ts"
    using w by (simp add: leading_verb_def cte_main_verb_def)
  have read: "classify_tokens (''WITH'' # ts) = StatementReadQuery"
    using assms by (auto simp: is_result_producing_def classify_def Let_def split: if_splits)
  have ne: "cte_scan 0 ts \<noteq> ''EXPLAIN''"
    using cte_scan_result [of 0 ts] by (auto simp: cte_dml_verbs_def)
  then have "reads_only (''WITH'' # ts)"
    using read v classify_tokens_not_explain [of "''WITH'' # ts"] by simp
  then have "cte_scan 0 ts = ''SELECT''"
    using ne cte_scan_result [of 0 ts] by (auto simp: reads_only_def v cte_dml_verbs_def)
  then show ?thesis
    using cte_scan_select [of 0 ts] by (auto simp: main_select_at_def)
qed

theorem read_cte_modifies_nothing_witness:
  "\<exists>i. main_select_at [''X'', ''AS'', ''('', ''SELECT'', ''1'', '')'', ''SELECT'', ''X''] i"
proof -
  have a: "is_result_producing ''with x as (select 1) select x''" by code_simp
  have b: "sql_tokens ''with x as (select 1) select x'' =
    ''WITH'' # [''X'', ''AS'', ''('', ''SELECT'', ''1'', '')'', ''SELECT'', ''X'']"
    by code_simp
  show ?thesis by (rule read_cte_modifies_nothing [OF a b])
qed

text \<open>
  \<^verbatim>\<open>EXPLAIN ANALYZE stmt\<close>, and \<^verbatim>\<open>EXPLAIN (opts) stmt\<close> with \<^verbatim>\<open>ANALYZE\<close> anywhere in a
  parenthesised option list that may nest, is classified as \<^verbatim>\<open>stmt\<close> itself is.
\<close>

theorem explain_analyze_transparent:
  assumes "stmt \<noteq> []" and "open_depth 1 opts = Some 1" and "''ANALYZE'' \<in> set opts"
  shows "classify_tokens (''EXPLAIN'' # ''ANALYZE'' # stmt) = classify_tokens stmt
    \<and> classify_tokens (''EXPLAIN'' # ''('' # opts @ '')'' # stmt) = classify_tokens stmt"
proof
  have "explain_wrapped_statement (''EXPLAIN'' # ''ANALYZE'' # stmt) = Some stmt"
    using assms(1) by (simp add: explain_wrapped_statement_def)
  then show "classify_tokens (''EXPLAIN'' # ''ANALYZE'' # stmt) = classify_tokens stmt"
    by (rule classify_explain)
  show "classify_tokens (''EXPLAIN'' # ''('' # opts @ '')'' # stmt) = classify_tokens stmt"
    by (rule classify_explain [OF explain_wrapped_options]) (use assms in simp_all)
qed

theorem explain_analyze_transparent_witness:
  "classify_tokens (''EXPLAIN'' # ''('' # [''COSTS'', ''('', '')'', ''ANALYZE''] @ '')'' #
      [''DELETE'', ''FROM'', ''T'']) = StatementWriteDML"
proof -
  have "classify_tokens [''DELETE'', ''FROM'', ''T''] = StatementWriteDML" by code_simp
  then show ?thesis
    using explain_analyze_transparent
      [of "[''DELETE'', ''FROM'', ''T'']" "[''COSTS'', ''('', '')'', ''ANALYZE'']"] by simp
qed

end
