(* ===== verification/Auth.thy ===== *)
theory Auth
  imports Accounts Connections SqlClassify
begin

text \<open>
  Sessions, login and authorisation: \<^verbatim>\<open>session.go\<close>, \<^verbatim>\<open>admin_auth.go\<close>, \<^verbatim>\<open>admin_users.go\<close> and the
  write gates of \<^verbatim>\<open>handlers.go\<close>.

  The server state is one record.  bcrypt, the random source, JSON encoding, the query escaping of a
  redirect target and the cleanup of a removed connection's vectors are parameters (\<open>auth_env\<close>).
  Time is a number of nanoseconds; one request sees one instant.
\<close>

section \<open>State, requests and responses\<close>

record session_auth =
  sa_username :: string
  sa_role :: role
  sa_expiry :: nat

record login_attempts =
  la_failures :: nat
  la_locked_until :: "nat option"

record 'c server =
  sv_settings :: app_settings
  sv_settings_rows :: settings_table
  sv_accounts :: "'c accounts"
  sv_sessions :: "string \<Rightarrow> session_auth option"
  sv_attempts :: "string \<Rightarrow> login_attempts option"
  sv_conns :: manager

record 'c auth_env =
  ae_accounts :: "'c account_env"
  ae_settings :: settings_env
  bcrypt_hash :: "string \<Rightarrow> string option"
  bcrypt_matches :: "string \<Rightarrow> string \<Rightarrow> bool"
  dummy_password_hash :: string
  random_bytes :: "string option"
  query_escape :: "string \<Rightarrow> string"
  encode_configs :: "managed_config list \<Rightarrow> string option"
  behind_tls_proxy :: bool
  auth_mode_explicit :: bool

text \<open>
  A request as the handlers see it: the session id of its context, its form (\<open>None\<close> when
  \<^verbatim>\<open>ParseForm\<close> fails; a missing field reads as the empty string) and its query parameters.
\<close>

record request =
  rq_session :: string
  rq_path :: string
  rq_form :: "(string \<Rightarrow> string) option"
  rq_query :: "string \<Rightarrow> string"
  rq_tls :: bool
  rq_now :: nat

record cookie =
  ck_value :: string
  ck_secure :: bool
  ck_expires :: nat

datatype response =
  Redirect string
| Redirect_With_Cookie string cookie
| Auth_Page string string string
| Page string string
| Problem nat string
| Error_Page nat string
| Bad_Request string
| Internal_Error

definition hours :: "nat \<Rightarrow> nat" where "hours n = n * 3600000000000"

section \<open>Session ids and cookies\<close>

definition is_session_byte :: "char \<Rightarrow> bool" where
  "is_session_byte c \<longleftrightarrow> is_lower_byte c \<or> is_upper_byte c \<or> is_digit_byte c \<or> c = CHR ''-'' \<or> c = CHR ''_''"

definition sanitize_session_id :: "string \<Rightarrow> string" where
  "sanitize_session_id raw =
     (let s = trim_space raw in
      if length s < 16 \<or> length s > 128 then []
      else if list_all is_session_byte s then s else [])"

definition new_session_id :: "'c auth_env \<Rightarrow> string option" where
  "new_session_id env = map_option (\<lambda>b. concat (map (\<lambda>c. hex_digits 2 (of_char c)) b)) (random_bytes env)"

definition session_cookie :: "'c auth_env \<Rightarrow> request \<Rightarrow> string \<Rightarrow> cookie" where
  "session_cookie env rq sid =
     \<lparr>ck_value = sid, ck_secure = (rq_tls rq \<or> behind_tls_proxy env), ck_expires = rq_now rq + hours (30 * 24)\<rparr>"

text \<open>The id and active connection of a request, with the cookie to set when the id is new.\<close>

definition with_session ::
    "'c auth_env \<Rightarrow> request \<Rightarrow> string option \<Rightarrow> 'c server \<Rightarrow> (string \<times> connection option \<times> cookie option) option" where
  "with_session env rq cookie_value sv =
     (let sid = (case cookie_value of None \<Rightarrow> [] | Some v \<Rightarrow> sanitize_session_id v) in
      if sid \<noteq> [] then Some (sid, active_for (sv_conns sv) sid, None)
      else (case new_session_id env of
          None \<Rightarrow> None
        | Some fresh \<Rightarrow> Some (fresh, active_for (sv_conns sv) fresh, Some (session_cookie env rq fresh))))"

section \<open>Authenticated sessions\<close>

definition session_auth_ttl :: nat where "session_auth_ttl = hours 12"

text \<open>Looking up a session deletes it when it has expired.\<close>

definition current_session_user ::
    "nat \<Rightarrow> string \<Rightarrow> 'c server \<Rightarrow> (string \<times> role) option \<times> 'c server" where
  "current_session_user now sid sv =
     (if sid = [] then (None, sv)
      else (case sv_sessions sv sid of
          None \<Rightarrow> (None, sv)
        | Some auth \<Rightarrow>
            if now > sa_expiry auth then (None, sv\<lparr>sv_sessions := (sv_sessions sv)(sid := None)\<rparr>)
            else (Some (sa_username auth, sa_role auth), sv)))"

definition is_admin_authenticated :: "nat \<Rightarrow> string \<Rightarrow> 'c server \<Rightarrow> bool \<times> 'c server" where
  "is_admin_authenticated now sid sv =
     (if as_auth_mode (sv_settings sv) = Auth_Mode_None then (True, sv)
      else (case current_session_user now sid sv of
          (None, sv') \<Rightarrow> (False, sv')
        | (Some (_, r), sv') \<Rightarrow> (r = Role_Admin, sv')))"

definition mark_session_authenticated ::
    "nat \<Rightarrow> string \<Rightarrow> string \<Rightarrow> role \<Rightarrow> 'c server \<Rightarrow> 'c server" where
  "mark_session_authenticated now sid username r sv =
     (if sid = [] then sv
      else sv\<lparr>sv_sessions := (sv_sessions sv)(sid \<mapsto>
             \<lparr>sa_username = username, sa_role = r, sa_expiry = now + session_auth_ttl\<rparr>)\<rparr>)"

definition clear_session_authenticated :: "string \<Rightarrow> 'c server \<Rightarrow> 'c server" where
  "clear_session_authenticated sid sv = sv\<lparr>sv_sessions := (sv_sessions sv)(sid := None)\<rparr>"

definition revoke_other_sessions :: "string \<Rightarrow> string \<Rightarrow> 'c server \<Rightarrow> 'c server" where
  "revoke_other_sessions username keep sv =
     (if username = [] then sv
      else sv\<lparr>sv_sessions := (\<lambda>sid. case sv_sessions sv sid of
             None \<Rightarrow> None
           | Some auth \<Rightarrow> if sa_username auth = username \<and> sid \<noteq> keep then None else Some auth)\<rparr>)"

definition revoke_sessions :: "string \<Rightarrow> 'c server \<Rightarrow> 'c server" where
  "revoke_sessions username sv = revoke_other_sessions username [] sv"

definition rotate_session_on_auth ::
    "'c auth_env \<Rightarrow> request \<Rightarrow> string \<Rightarrow> role \<Rightarrow> 'c server \<Rightarrow> cookie option \<times> 'c server" where
  "rotate_session_on_auth env rq username r sv =
     (case new_session_id env of
        None \<Rightarrow> (None, sv)
      | Some fresh \<Rightarrow>
          (let sv1 = mark_session_authenticated (rq_now rq) fresh username r sv;
               old = rq_session rq;
               sv2 = (if old \<noteq> []
                      then (clear_session_authenticated old sv1)\<lparr>sv_conns := rebind_session old fresh (sv_conns sv1)\<rparr>
                      else sv1) in
           (Some (session_cookie env rq fresh), sv2)))"

section \<open>Passwords\<close>

definition verify_admin_password :: "'c auth_env \<Rightarrow> string \<Rightarrow> string \<Rightarrow> bool" where
  "verify_admin_password env hash plain \<longleftrightarrow> trim_space hash \<noteq> [] \<and> bcrypt_matches env hash plain"

section \<open>Gates\<close>

text \<open>A gate passes the request on (\<open>None\<close>) or answers it.\<close>

definition is_api_request :: "request \<Rightarrow> bool" where
  "is_api_request rq \<longleftrightarrow> prefix ''/api/'' (rq_path rq)"

definition login_redirect :: "'c auth_env \<Rightarrow> request \<Rightarrow> string \<Rightarrow> response" where
  "login_redirect env rq page = Redirect (page @ ''?next='' @ query_escape env (rq_path rq))"

definition require_role :: "role list \<Rightarrow> 'c auth_env \<Rightarrow> request \<Rightarrow> 'c server \<Rightarrow> response option \<times> 'c server" where
  "require_role allowed env rq sv =
     (if as_auth_mode (sv_settings sv) = Auth_Mode_None then (None, sv)
      else (case auth_configured (ae_accounts env) (sv_settings sv) (sv_accounts sv) of
          Inl _ \<Rightarrow> (Some Internal_Error, sv)
        | Inr False \<Rightarrow>
            (Some (if is_api_request rq then Problem 428 ''No admin account yet''
                   else login_redirect env rq ''/admin/setup''), sv)
        | Inr True \<Rightarrow>
            (case current_session_user (rq_now rq) (rq_session rq) sv of
               (None, sv') \<Rightarrow>
                 (Some (if is_api_request rq then Problem 401 ''Login required''
                        else login_redirect env rq ''/admin/login''), sv')
             | (Some (_, r), sv') \<Rightarrow>
                 (if r \<notin> set allowed
                  then Some (if is_api_request rq then Problem 403 ''Insufficient role'' else Error_Page 403 ''Forbidden'')
                  else None, sv'))))"

definition require_login :: "'c auth_env \<Rightarrow> request \<Rightarrow> 'c server \<Rightarrow> response option \<times> 'c server" where
  "require_login = require_role [Role_Admin, Role_User, Role_Read_Only]"

definition require_admin :: "'c auth_env \<Rightarrow> request \<Rightarrow> 'c server \<Rightarrow> response option \<times> 'c server" where
  "require_admin = require_role [Role_Admin]"

definition require_read_auth :: "'c auth_env \<Rightarrow> request \<Rightarrow> 'c server \<Rightarrow> response option \<times> 'c server" where
  "require_read_auth env rq sv =
     (if as_require_login_for_reads (sv_settings sv) then require_login env rq sv else (None, sv))"

definition write_maintenance_blocked :: "request \<Rightarrow> response" where
  "write_maintenance_blocked rq =
     (if is_api_request rq then Problem 503 ''Maintenance mode'' else Error_Page 503 ''Maintenance mode'')"

definition write_read_only_role_blocked :: "request \<Rightarrow> response" where
  "write_read_only_role_blocked rq =
     (if is_api_request rq then Problem 403 ''Read-only role'' else Error_Page 403 ''Read-only account'')"

definition require_writable :: "request \<Rightarrow> 'c server \<Rightarrow> response option \<times> 'c server" where
  "require_writable rq sv =
     (if as_read_only_mode (sv_settings sv) then (Some (write_maintenance_blocked rq), sv)
      else (case current_session_user (rq_now rq) (rq_session rq) sv of
          (u, sv') \<Rightarrow>
            (if as_auth_mode (sv_settings sv) \<noteq> Auth_Mode_None \<and> map_option snd u = Some Role_Read_Only
             then Some (write_read_only_role_blocked rq) else None, sv')))"

definition login_required_for_write :: "request \<Rightarrow> 'c server \<Rightarrow> bool \<times> 'c server" where
  "login_required_for_write rq sv =
     (if as_auth_mode (sv_settings sv) = Auth_Mode_None then (False, sv)
      else (case current_session_user (rq_now rq) (rq_session rq) sv of (u, sv') \<Rightarrow> (u = None, sv')))"

definition role_blocks_write :: "request \<Rightarrow> 'c server \<Rightarrow> bool \<times> 'c server" where
  "role_blocks_write rq sv =
     (case current_session_user (rq_now rq) (rq_session rq) sv of
        (u, sv') \<Rightarrow> (as_auth_mode (sv_settings sv) \<noteq> Auth_Mode_None \<and> map_option snd u = Some Role_Read_Only, sv'))"

definition write_gate_blocked :: "'c auth_env \<Rightarrow> request \<Rightarrow> 'c server \<Rightarrow> response option \<times> 'c server" where
  "write_gate_blocked env rq sv =
     (if as_read_only_mode (sv_settings sv) then (Some (write_maintenance_blocked rq), sv)
      else (case login_required_for_write rq sv of
          (True, sv') \<Rightarrow> (Some (login_redirect env rq ''/admin/login''), sv')
        | (False, sv') \<Rightarrow>
            (case role_blocks_write rq sv' of
               (True, sv'') \<Rightarrow> (Some (write_read_only_role_blocked rq), sv'')
             | (False, sv'') \<Rightarrow> (None, sv''))))"

definition session_can_write_sql :: "'c auth_env \<Rightarrow> request \<Rightarrow> 'c server \<Rightarrow> bool \<times> 'c server" where
  "session_can_write_sql env rq sv =
     (if as_auth_mode (sv_settings sv) = Auth_Mode_None then (True, sv)
      else (case current_session_user (rq_now rq) (rq_session rq) sv of
          (None, sv') \<Rightarrow> (False, sv')
        | (Some (name, r), sv') \<Rightarrow>
            if \<not> (r = Role_Admin \<or> r = Role_User) then (False, sv')
            else if \<not> as_native_mirror (sv_settings sv) then (True, sv')
            else (has_insert_permission (catalog_operations (ae_accounts env)) name (catalog (sv_accounts sv)), sv')))"

definition write_sql_blocked :: "'c auth_env \<Rightarrow> request \<Rightarrow> string \<Rightarrow> 'c server \<Rightarrow> bool \<times> 'c server" where
  "write_sql_blocked env rq sql sv =
     (if is_result_producing sql then (False, sv)
      else (case session_can_write_sql env rq sv of (ok, sv') \<Rightarrow> (\<not> ok, sv')))"

end
