(* ===== verification/AuthHandlers.thy ===== *)
theory AuthHandlers
  imports Auth
begin

text \<open>
  The handlers of \<^verbatim>\<open>admin_auth.go\<close> and \<^verbatim>\<open>admin_users.go\<close>: first-run setup, login with its lockout,
  logout, password change, saved connections and account administration.  Every handler maps a
  request and the server state to a response and the state after it.
\<close>

section \<open>Validation\<close>

definition sanitize_admin_next_path :: "string \<Rightarrow> string" where
  "sanitize_admin_next_path s =
     (let raw = trim_space s in
      if raw = [] \<or> \<not> prefix ''/'' raw then ''/admin''
      else if prefix ''//'' (replace_byte CHR 0x5C ''/'' raw) then ''/admin''
      else raw)"

definition is_username_byte :: "char \<Rightarrow> bool" where
  "is_username_byte c \<longleftrightarrow> is_lower_byte c \<or> is_upper_byte c \<or> is_digit_byte c
     \<or> c = CHR ''.'' \<or> c = CHR ''_'' \<or> c = CHR ''-''"

definition is_valid_username :: "string \<Rightarrow> bool" where
  "is_valid_username s \<longleftrightarrow> 3 \<le> length s \<and> length s \<le> 64 \<and> list_all is_username_byte s"

section \<open>Setup\<close>

text \<open>Applying changed settings to the memory, then saving them.\<close>

definition store_settings ::
    "'c auth_env \<Rightarrow> runtime_settings \<Rightarrow> 'c server \<Rightarrow> (app_error + app_error option) \<times> 'c server" where
  "store_settings env s sv =
     (case apply_runtime_settings (ae_settings env) s (sv_settings sv) of
        Inl e \<Rightarrow> (Inl e, sv)
      | Inr a \<Rightarrow>
          (case save_runtime_settings (ae_settings env) a (sv_settings_rows sv) of
             (err, rows) \<Rightarrow> (Inr err, sv\<lparr>sv_settings := a, sv_settings_rows := rows\<rparr>)))"

definition error_text :: "app_error \<Rightarrow> string" where
  "error_text e = (case e of Message m \<Rightarrow> m | Exec_Failed m \<Rightarrow> m)"

definition setup_page :: "'c auth_env \<Rightarrow> request \<Rightarrow> 'c server \<Rightarrow> response" where
  "setup_page env rq sv =
     (let next = sanitize_admin_next_path (rq_query rq ''next'') in
      if as_auth_mode (sv_settings sv) = Auth_Mode_None then Redirect next
      else (case auth_configured (ae_accounts env) (sv_settings sv) (sv_accounts sv) of
          Inl _ \<Rightarrow> Internal_Error
        | Inr True \<Rightarrow> Redirect (''/admin/login?next='' @ query_escape env next)
        | Inr False \<Rightarrow>
            if \<not> auth_mode_explicit env \<and> rq_query rq ''team'' = []
            then Auth_Page ''choose'' (rq_query rq ''next'') []
            else Auth_Page ''setup'' (rq_query rq ''next'') []))"

definition setup_mode :: "'c auth_env \<Rightarrow> request \<Rightarrow> 'c server \<Rightarrow> response \<times> 'c server" where
  "setup_mode env rq sv =
     (if as_auth_mode (sv_settings sv) = Auth_Mode_None then (Redirect ''/admin'', sv)
      else (case auth_configured (ae_accounts env) (sv_settings sv) (sv_accounts sv) of
          Inl _ \<Rightarrow> (Internal_Error, sv)
        | Inr True \<Rightarrow> (Redirect ''/admin/login'', sv)
        | Inr False \<Rightarrow>
            (case rq_form rq of
               None \<Rightarrow> (Bad_Request ''bad request'', sv)
             | Some form \<Rightarrow>
                 (let next = sanitize_admin_next_path (form ''next'') in
                  if form ''mode'' \<noteq> ''none'' then (Bad_Request ''unsupported mode'', sv)
                  else (case store_settings env ((current_runtime_settings (sv_settings sv))\<lparr>rs_auth_mode := ''none''\<rparr>) sv of
                      (Inl e, sv') \<Rightarrow> (Auth_Page ''choose'' next (error_text e), sv')
                    | (Inr (Some _), sv') \<Rightarrow> (Internal_Error, sv')
                    | (Inr None, sv') \<Rightarrow> (Redirect ''/admin'', sv'))))))"

text \<open>The last part of a submit: the first account, always an admin, and its session.\<close>

definition setup_account ::
    "'c auth_env \<Rightarrow> request \<Rightarrow> string \<Rightarrow> string \<Rightarrow> string \<Rightarrow> 'c server \<Rightarrow> response \<times> 'c server" where
  "setup_account env rq next username hash sv =
     (case create_user (ae_accounts env) username hash Role_Admin (sv_accounts sv) of
        (Some User_Exists, acc) \<Rightarrow> (Auth_Page ''setup'' next ''That username is taken.'', sv\<lparr>sv_accounts := acc\<rparr>)
      | (Some _, acc) \<Rightarrow> (Internal_Error, sv\<lparr>sv_accounts := acc\<rparr>)
      | (None, acc) \<Rightarrow>
          (case rotate_session_on_auth env rq username Role_Admin (sv\<lparr>sv_accounts := acc\<rparr>) of
             (None, sv') \<Rightarrow> (Internal_Error, sv')
           | (Some ck, sv') \<Rightarrow> (Redirect_With_Cookie next ck, sv')))"

definition setup_submit :: "'c auth_env \<Rightarrow> request \<Rightarrow> 'c server \<Rightarrow> response \<times> 'c server" where
  "setup_submit env rq sv =
     (if as_auth_mode (sv_settings sv) = Auth_Mode_None then (Redirect ''/admin'', sv)
      else (case auth_configured (ae_accounts env) (sv_settings sv) (sv_accounts sv) of
          Inl _ \<Rightarrow> (Internal_Error, sv)
        | Inr True \<Rightarrow> (Redirect ''/admin/login'', sv)
        | Inr False \<Rightarrow>
            (case rq_form rq of
               None \<Rightarrow> (Bad_Request ''bad request'', sv)
             | Some form \<Rightarrow>
                 (let next = sanitize_admin_next_path (form ''next'');
                      typed = trim_space (form ''username'');
                      username = (if typed = [] then ''admin'' else typed);
                      password = form ''password'' in
                  if \<not> is_valid_username username then (Auth_Page ''setup'' next ''Username must be valid.'', sv)
                  else if length password < 8 then (Auth_Page ''setup'' next ''Password must be at least 8 characters.'', sv)
                  else if password \<noteq> form ''password_confirm'' then (Auth_Page ''setup'' next ''Passwords do not match.'', sv)
                  else (case bcrypt_hash env password of
                      None \<Rightarrow> (Internal_Error, sv)
                    | Some hash \<Rightarrow>
                        (case store_settings env ((current_runtime_settings (sv_settings sv))\<lparr>rs_admin_password_hash := hash\<rparr>) sv of
                           (Inl _, sv') \<Rightarrow> (Internal_Error, sv')
                         | (Inr (Some _), sv') \<Rightarrow> (Internal_Error, sv')
                         | (Inr None, sv') \<Rightarrow> setup_account env rq next username hash sv'))))))"

section \<open>Login\<close>

definition max_login_failures :: nat where "max_login_failures = 5"
definition login_lockout_duration :: nat where "login_lockout_duration = 900000000000"

text \<open>Whether a name is locked out; an expired lockout is cleared.\<close>

definition login_locked_out :: "nat \<Rightarrow> string \<Rightarrow> 'c server \<Rightarrow> bool \<times> 'c server" where
  "login_locked_out now name sv =
     (case sv_attempts sv name of
        None \<Rightarrow> (False, sv)
      | Some st \<Rightarrow>
          (case la_locked_until st of
             None \<Rightarrow> (False, sv)
           | Some t \<Rightarrow>
               if now > t then (False, sv\<lparr>sv_attempts := (sv_attempts sv)(name := None)\<rparr>) else (True, sv)))"

definition record_login_failure :: "nat \<Rightarrow> string \<Rightarrow> 'c server \<Rightarrow> 'c server" where
  "record_login_failure now name sv =
     (let st = (case sv_attempts sv name of None \<Rightarrow> \<lparr>la_failures = 0, la_locked_until = None\<rparr> | Some st \<Rightarrow> st);
          n = la_failures st + 1 in
      sv\<lparr>sv_attempts := (sv_attempts sv)(name \<mapsto>
           \<lparr>la_failures = n,
            la_locked_until = (if n \<ge> max_login_failures then Some (now + login_lockout_duration)
                               else la_locked_until st)\<rparr>)\<rparr>)"

definition clear_login_failures :: "string \<Rightarrow> 'c server \<Rightarrow> 'c server" where
  "clear_login_failures name sv = sv\<lparr>sv_attempts := (sv_attempts sv)(name := None)\<rparr>"

definition login_page :: "'c auth_env \<Rightarrow> request \<Rightarrow> 'c server \<Rightarrow> response \<times> 'c server" where
  "login_page env rq sv =
     (let next = sanitize_admin_next_path (rq_query rq ''next'') in
      if as_auth_mode (sv_settings sv) = Auth_Mode_None then (Redirect next, sv)
      else (case auth_configured (ae_accounts env) (sv_settings sv) (sv_accounts sv) of
          Inl _ \<Rightarrow> (Internal_Error, sv)
        | Inr configured \<Rightarrow>
            if \<not> configured \<and> \<not> admin_password_is_set (sv_settings sv)
            then (Redirect (''/admin/setup?next='' @ query_escape env next), sv)
            else (case is_admin_authenticated (rq_now rq) (rq_session rq) sv of
                (True, sv') \<Rightarrow> (Redirect next, sv')
              | (False, sv') \<Rightarrow> (Auth_Page ''login'' (rq_query rq ''next'') [], sv'))))"

text \<open>
  The account a login is checked against: the stored one, or, for a missing \<open>admin\<close>, one created from
  the password hash of the settings.
\<close>

definition login_account ::
    "'c auth_env \<Rightarrow> string \<Rightarrow> string \<Rightarrow> 'c server \<Rightarrow> (account_error + user option) \<times> 'c server" where
  "login_account env name password sv =
     (case get_user_by_username (ae_accounts env) name (sv_accounts sv) of
        Inl e \<Rightarrow> (Inl e, sv)
      | Inr (Some u) \<Rightarrow> (Inr (Some u), sv)
      | Inr None \<Rightarrow>
          (let stored = as_admin_password_hash (sv_settings sv); hash = trim_space stored in
           if name = ''admin'' \<and> verify_admin_password env stored password \<and> hash \<noteq> [] then
             (case create_user (ae_accounts env) ''admin'' hash Role_Admin (sv_accounts sv) of
                (err, acc) \<Rightarrow>
                  (if err = None \<or> err = Some User_Exists
                   then (Inr (Some \<lparr>u_username = ''admin'', u_hash = hash, u_role = Role_Admin, u_disabled = False\<rparr>),
                         sv\<lparr>sv_accounts := acc\<rparr>)
                   else (Inl (the err), sv\<lparr>sv_accounts := acc\<rparr>)))
           else (Inr None, sv)))"

definition login_submit :: "'c auth_env \<Rightarrow> request \<Rightarrow> 'c server \<Rightarrow> response \<times> 'c server" where
  "login_submit env rq sv =
     (if as_auth_mode (sv_settings sv) = Auth_Mode_None then (Redirect ''/admin'', sv)
      else (case rq_form rq of
          None \<Rightarrow> (Bad_Request ''bad request'', sv)
        | Some form \<Rightarrow>
            (let next = sanitize_admin_next_path (form ''next'');
                 typed = trim_space (form ''username'');
                 name = (if typed = [] then ''admin'' else typed);
                 password = form ''password'' in
             case login_locked_out (rq_now rq) name sv of
               (True, sv1) \<Rightarrow> (Auth_Page ''login'' next ''Too many failed attempts for this account.'', sv1)
             | (False, sv1) \<Rightarrow>
                 (case login_account env name password sv1 of
                    (Inl _, sv2) \<Rightarrow> (Internal_Error, sv2)
                  | (Inr account, sv2) \<Rightarrow>
                      (let usable = (case account of Some u \<Rightarrow> \<not> u_disabled u | None \<Rightarrow> False);
                           hash = (if usable then u_hash (the account) else dummy_password_hash env);
                           password_ok = verify_admin_password env hash password in
                       if \<not> usable \<or> \<not> password_ok
                       then (Auth_Page ''login'' next ''Incorrect password.'', record_login_failure (rq_now rq) name sv2)
                       else (case rotate_session_on_auth env rq (u_username (the account)) (u_role (the account))
                                (clear_login_failures name sv2) of
                           (None, sv3) \<Rightarrow> (Internal_Error, sv3)
                         | (Some ck, sv3) \<Rightarrow> (Redirect_With_Cookie next ck, sv3)))))))"

definition logout :: "request \<Rightarrow> 'c server \<Rightarrow> response \<times> 'c server" where
  "logout rq sv = (Redirect ''/'', clear_session_authenticated (rq_session rq) sv)"

definition change_password :: "'c auth_env \<Rightarrow> request \<Rightarrow> 'c server \<Rightarrow> response \<times> 'c server" where
  "change_password env rq sv =
     (case rq_form rq of
        None \<Rightarrow> (Bad_Request ''bad request'', sv)
      | Some form \<Rightarrow>
          (case current_session_user (rq_now rq) (rq_session rq) sv of
             (su, sv1) \<Rightarrow>
               (let settings_hash = trim_space (as_admin_password_hash (sv_settings sv1)) in
                case (case su of
                        None \<Rightarrow> Inr settings_hash
                      | Some (name, _) \<Rightarrow>
                          bind_res (get_user_by_username (ae_accounts env) name (sv_accounts sv1))
                            (\<lambda>u. Inr (case u of None \<Rightarrow> settings_hash | Some u \<Rightarrow> u_hash u))) of
                  Inl _ \<Rightarrow> (Internal_Error, sv1)
                | Inr current \<Rightarrow>
                    if \<not> verify_admin_password env current (form ''current_password'')
                    then (Page ''admin'' ''Current password is incorrect.'', sv1)
                    else if length (form ''new_password'') < 8
                    then (Page ''admin'' ''New password must be at least 8 characters.'', sv1)
                    else if form ''new_password'' \<noteq> form ''new_password_confirm''
                    then (Page ''admin'' ''New passwords do not match.'', sv1)
                    else (case bcrypt_hash env (form ''new_password'') of
                        None \<Rightarrow> (Internal_Error, sv1)
                      | Some hash \<Rightarrow>
                          (case (case su of None \<Rightarrow> (None, sv_accounts sv1)
                                 | Some (name, _) \<Rightarrow> set_user_password_hash (ae_accounts env) name hash (sv_accounts sv1)) of
                             (Some _, acc) \<Rightarrow> (Internal_Error, sv1\<lparr>sv_accounts := acc\<rparr>)
                           | (None, acc) \<Rightarrow>
                               (case store_settings env ((current_runtime_settings (sv_settings sv1))\<lparr>rs_admin_password_hash := hash\<rparr>)
                                       (sv1\<lparr>sv_accounts := acc\<rparr>) of
                                  (Inl _, sv2) \<Rightarrow> (Internal_Error, sv2)
                                | (Inr (Some _), sv2) \<Rightarrow> (Internal_Error, sv2)
                                | (Inr None, sv2) \<Rightarrow>
                                    (Page ''admin'' ''Password changed.'',
                                     (case su of None \<Rightarrow> sv2
                                      | Some (name, _) \<Rightarrow> revoke_other_sessions name (rq_session rq) sv2))))))))"

section \<open>Saved connections\<close>

definition save_managed_connections :: "'c auth_env \<Rightarrow> 'c server \<Rightarrow> app_error option \<times> 'c server" where
  "save_managed_connections env sv =
     (case encode_configs env (stored_configs (sv_conns sv)) of
        None \<Rightarrow> (Some (Message ''encode''), sv)
      | Some v \<Rightarrow>
          (case save_setting (ae_settings env) (''managed_connections'', v) (sv_settings_rows sv) of
             (err, rows) \<Rightarrow> (err, sv\<lparr>sv_settings_rows := rows\<rparr>)))"

definition persist_connection :: "'c auth_env \<Rightarrow> request \<Rightarrow> 'c server \<Rightarrow> response \<times> 'c server" where
  "persist_connection env rq sv =
     (case rq_form rq of
        None \<Rightarrow> (Bad_Request ''bad request'', sv)
      | Some form \<Rightarrow>
          (let cid = form ''id'' in
           if get_connection (sv_conns sv) cid = None then (Page ''connections'' ''connection not found'', sv)
           else (case save_managed_connections env (sv\<lparr>sv_conns := mark_persisted cid (sv_conns sv)\<rparr>) of
               (Some e, sv') \<Rightarrow>
                 (Page ''connections'' (''Could not save connection: '' @ error_text e),
                  sv'\<lparr>sv_conns := unmark_persisted cid (sv_conns sv')\<rparr>)
             | (None, sv') \<Rightarrow> (Redirect ''/connections'', sv'))))"

definition forget_connection :: "'c auth_env \<Rightarrow> request \<Rightarrow> 'c server \<Rightarrow> response \<times> 'c server" where
  "forget_connection env rq sv =
     (case rq_form rq of
        None \<Rightarrow> (Bad_Request ''bad request'', sv)
      | Some form \<Rightarrow>
          (let cid = form ''id'' in
           case save_managed_connections env (sv\<lparr>sv_conns := unmark_persisted cid (sv_conns sv)\<rparr>) of
             (Some e, sv') \<Rightarrow> (Page ''connections'' (''Could not update saved connections: '' @ error_text e), sv')
           | (None, sv') \<Rightarrow>
               (case remove_connection cid (sv_conns sv') of
                  (Some e, m) \<Rightarrow> (Page ''connections'' (error_text e), sv'\<lparr>sv_conns := m\<rparr>)
                | (None, m) \<Rightarrow> (Redirect ''/connections'', sv'\<lparr>sv_conns := m\<rparr>))))"

definition set_default_connection_page :: "'c auth_env \<Rightarrow> request \<Rightarrow> 'c server \<Rightarrow> response \<times> 'c server" where
  "set_default_connection_page env rq sv =
     (case rq_form rq of
        None \<Rightarrow> (Bad_Request ''bad request'', sv)
      | Some form \<Rightarrow>
          (case set_default_connection (form ''id'') (sv_conns sv) of
             (Some e, m) \<Rightarrow> (Page ''connections'' (error_text e), sv\<lparr>sv_conns := m\<rparr>)
           | (None, m) \<Rightarrow>
               (case save_managed_connections env (sv\<lparr>sv_conns := m\<rparr>) of
                  (Some e, sv') \<Rightarrow> (Page ''connections'' (''Default changed but could not be saved: '' @ error_text e), sv')
                | (None, sv') \<Rightarrow> (Redirect ''/connections'', sv'))))"

definition use_connection :: "request \<Rightarrow> 'c server \<Rightarrow> response \<times> 'c server" where
  "use_connection rq sv =
     (case rq_form rq of
        None \<Rightarrow> (Bad_Request ''bad request'', sv)
      | Some form \<Rightarrow>
          (case set_active_for (rq_session rq) (form ''id'') (sv_conns sv) of
             (Some e, m) \<Rightarrow> (Page ''connections'' (error_text e), sv\<lparr>sv_conns := m\<rparr>)
           | (None, m) \<Rightarrow> (Redirect ''/connections'', sv\<lparr>sv_conns := m\<rparr>)))"

section \<open>Account administration\<close>

definition with_accounts :: "'c server \<Rightarrow> account_error option \<times> 'c accounts \<Rightarrow> ('c server \<Rightarrow> response \<times> 'c server) \<Rightarrow> response \<times> 'c server" where
  "with_accounts sv r k =
     (case r of (Some _, acc) \<Rightarrow> (Internal_Error, sv\<lparr>sv_accounts := acc\<rparr>) | (None, acc) \<Rightarrow> k (sv\<lparr>sv_accounts := acc\<rparr>))"

definition users_create :: "'c auth_env \<Rightarrow> request \<Rightarrow> 'c server \<Rightarrow> response \<times> 'c server" where
  "users_create env rq sv =
     (case rq_form rq of
        None \<Rightarrow> (Bad_Request ''bad request'', sv)
      | Some form \<Rightarrow>
          (let username = trim_space (form ''username''); password = form ''password'' in
           if \<not> is_valid_username username then (Page ''admin_users'' ''Username must be valid.'', sv)
           else (case normalize_role (form ''role'') of
               None \<Rightarrow> (Page ''admin_users'' ''Choose a role.'', sv)
             | Some r \<Rightarrow>
                 if length password < 8 then (Page ''admin_users'' ''Password must be at least 8 characters.'', sv)
                 else (case bcrypt_hash env password of
                     None \<Rightarrow> (Internal_Error, sv)
                   | Some hash \<Rightarrow>
                       (case create_user (ae_accounts env) username hash r (sv_accounts sv) of
                          (Some User_Exists, acc) \<Rightarrow> (Page ''admin_users'' ''That username is taken.'', sv\<lparr>sv_accounts := acc\<rparr>)
                        | res \<Rightarrow> with_accounts sv res (\<lambda>sv'. (Redirect ''/admin/users'', sv')))))))"

definition account_error_text :: "account_error \<Rightarrow> string" where
  "account_error_text e = (case e of User_Exists \<Rightarrow> ''username already exists''
     | Last_Admin n \<Rightarrow> ''cannot remove the last remaining admin ('' @ n @ '')'' | Bad_Role n \<Rightarrow> n | Db_Error n \<Rightarrow> n)"

text \<open>The lookup and last-admin check that role change, disabling and deletion share.\<close>

definition guarded_target ::
    "'c auth_env \<Rightarrow> string \<Rightarrow> response \<Rightarrow> 'c server \<Rightarrow> (unit \<Rightarrow> response \<times> 'c server) \<Rightarrow> response \<times> 'c server" where
  "guarded_target env username not_found sv k =
     (case get_user_by_username (ae_accounts env) username (sv_accounts sv) of
        Inl _ \<Rightarrow> (Internal_Error, sv)
      | Inr None \<Rightarrow> (not_found, sv)
      | Inr (Some target) \<Rightarrow>
          (case assert_not_last_enabled_admin (ae_accounts env) target (sv_accounts sv) of
             Some e \<Rightarrow> (Page ''admin_users'' (account_error_text e), sv)
           | None \<Rightarrow> k ()))"

definition users_role :: "'c auth_env \<Rightarrow> request \<Rightarrow> 'c server \<Rightarrow> response \<times> 'c server" where
  "users_role env rq sv =
     (case rq_form rq of
        None \<Rightarrow> (Bad_Request ''bad request'', sv)
      | Some form \<Rightarrow>
          (let username = trim_space (form ''username'') in
           case normalize_role (form ''role'') of
             None \<Rightarrow> (Page ''admin_users'' ''Choose a valid role.'', sv)
           | Some r \<Rightarrow>
               guarded_target env username (Page ''admin_users'' ''User not found.'') sv (\<lambda>_.
                 with_accounts sv (update_user_role (ae_accounts env) username r (sv_accounts sv))
                   (\<lambda>sv'. (Redirect ''/admin/users'', revoke_sessions username sv')))))"

definition users_disable :: "'c auth_env \<Rightarrow> request \<Rightarrow> 'c server \<Rightarrow> response \<times> 'c server" where
  "users_disable env rq sv =
     (case rq_form rq of
        None \<Rightarrow> (Bad_Request ''bad request'', sv)
      | Some form \<Rightarrow>
          (let username = trim_space (form ''username''); disabled = (form ''disabled'' = ''true'');
               update = (\<lambda>_ :: unit. with_accounts sv (set_user_disabled (ae_accounts env) username disabled (sv_accounts sv))
                 (\<lambda>sv'. (Redirect ''/admin/users'', if disabled then revoke_sessions username sv' else sv'))) in
           if disabled then guarded_target env username (Page ''admin_users'' ''User not found.'') sv update
           else update ()))"

definition users_reset_password :: "'c auth_env \<Rightarrow> request \<Rightarrow> 'c server \<Rightarrow> response \<times> 'c server" where
  "users_reset_password env rq sv =
     (case rq_form rq of
        None \<Rightarrow> (Bad_Request ''bad request'', sv)
      | Some form \<Rightarrow>
          (let username = trim_space (form ''username'') in
           if length (form ''new_password'') < 8
           then (Page ''admin_users'' ''New password must be at least 8 characters.'', sv)
           else (case bcrypt_hash env (form ''new_password'') of
               None \<Rightarrow> (Internal_Error, sv)
             | Some hash \<Rightarrow>
                 with_accounts sv (set_user_password_hash (ae_accounts env) username hash (sv_accounts sv))
                   (\<lambda>sv'. (Redirect ''/admin/users'', revoke_sessions username sv')))))"

definition users_delete :: "'c auth_env \<Rightarrow> request \<Rightarrow> 'c server \<Rightarrow> response \<times> 'c server" where
  "users_delete env rq sv =
     (case rq_form rq of
        None \<Rightarrow> (Bad_Request ''bad request'', sv)
      | Some form \<Rightarrow>
          (let username = trim_space (form ''username'') in
           case current_session_user (rq_now rq) (rq_session rq) sv of
             (su, sv1) \<Rightarrow>
               (let me = (case su of None \<Rightarrow> [] | Some (n, _) \<Rightarrow> n) in
                if equal_fold username me
                then (Page ''admin_users'' ''You cannot delete your own account while logged in.'', sv1)
                else guarded_target env username (Redirect ''/admin/users'') sv1 (\<lambda>_.
                  with_accounts sv1 (delete_user (ae_accounts env) username (sv_accounts sv1))
                    (\<lambda>sv'. (Redirect ''/admin/users'', revoke_sessions username sv'))))))"

end
