(* ===== verification/ConnectionsCorrect.thy ===== *)
theory ConnectionsCorrect
  imports Connections
begin

text \<open>
  Correctness of the connection manager: the invariant that keeps a session's private connections to
  itself, as a step relation over the manager's operations; termination of the id search; the
  stability of DSN detection; and the one operation that breaks the invariant.
\<close>

section \<open>The invariant\<close>

definition shared_at :: "manager \<Rightarrow> string \<Rightarrow> bool" where
  "shared_at m k \<longleftrightarrow> (case map_of (m_conns m) k of None \<Rightarrow> False | Some c \<Rightarrow> c_owner c = [])"

lemma shared_at_iff: "shared_at m k \<longleftrightarrow> (\<exists>c. map_of (m_conns m) k = Some c \<and> c_owner c = [])"
  by (simp add: shared_at_def split: option.splits)

definition choice_ok :: "manager \<Rightarrow> string \<Rightarrow> string \<Rightarrow> bool" where
  "choice_ok m s k \<longleftrightarrow> s \<noteq> [] \<and> trim_space s = s \<and> visible_to (map_of (m_conns m) k) s"

definition manager_ok :: "manager \<Rightarrow> bool" where
  "manager_ok m \<longleftrightarrow>
     shared_at m default_connection_id \<and> shared_at m (m_active m) \<and> shared_at m (m_default m)
     \<and> (\<forall>s k. map_of (m_sessions m) s = Some k \<longrightarrow> choice_ok m s k)
     \<and> distinct (map fst (m_sessions m))
     \<and> (\<forall>k c. map_of (m_conns m) k = Some c \<longrightarrow> c_id c = k \<and> k \<noteq> [])
     \<and> (\<forall>k\<in>set (m_persisted m). shared_at m k)"

lemma manager_okD:
  assumes "manager_ok m"
  shows "shared_at m default_connection_id" "shared_at m (m_active m)" "shared_at m (m_default m)"
    "map_of (m_sessions m) s = Some k \<Longrightarrow> choice_ok m s k"
    "map_of (m_conns m) k = Some c \<Longrightarrow> c_id c = k \<and> k \<noteq> []"
    "k \<in> set (m_persisted m) \<Longrightarrow> shared_at m k"
  using assms by (auto simp: manager_ok_def)

lemma map_of_update [simp]: "map_of (AList.update k v m) k' = (if k' = k then Some v else map_of m k')"
  by (simp add: AList.update_conv')

lemma map_of_delete [simp]: "map_of (AList.delete k m) k' = (if k' = k then None else map_of m k')"
  by (simp add: AList.delete_conv')

lemma map_of_filter_value:
  "map_of (filter (\<lambda>(s, a). a \<noteq> k) xs) s = Some a \<Longrightarrow> distinct (map fst xs) \<Longrightarrow> map_of xs s = Some a \<and> a \<noteq> k"
proof -
  assume a: "map_of (filter (\<lambda>(s, a). a \<noteq> k) xs) s = Some a" and d: "distinct (map fst xs)"
  from map_of_SomeD [OF a] have "(s, a) \<in> set xs" "a \<noteq> k" by auto
  with d show "map_of xs s = Some a \<and> a \<noteq> k" by simp
qed

lemma visible_to_None [simp]: "\<not> visible_to None s"
  by (simp add: visible_to_def)

lemma visible_to_Some [simp]: "visible_to (Some c) s \<longleftrightarrow> c_owner c = [] \<or> c_owner c = s"
  by (simp add: visible_to_def)

lemma active_for_visible:
  assumes "manager_ok m" "trim_space s = s"
  shows "\<exists>c. active_for m s = Some c \<and> (c_owner c = [] \<or> c_owner c = s)"
proof (cases "s \<noteq> [] \<and> map_of (m_conns m) (session_choice m s) \<noteq> None")
  case True
  then obtain c where c: "map_of (m_conns m) (session_choice m s) = Some c" by auto
  have "active_for m s = Some c" using True assms(2) c by (simp add: active_for_def)
  moreover have "c_owner c = [] \<or> c_owner c = s"
  proof (cases "map_of (m_sessions m) s")
    case None
    with c manager_okD(5) [OF assms(1), of "[]"] show ?thesis by (auto simp: session_choice_def)
  next
    case (Some k)
    with c manager_okD(4) [OF assms(1) Some] show ?thesis
      by (simp add: session_choice_def choice_ok_def)
  qed
  ultimately show ?thesis by blast
next
  case False
  with assms(2) have "active_for m s = map_of (m_conns m) (m_active m)"
    by (auto simp: active_for_def)
  with manager_okD(2) [OF assms(1)] show ?thesis by (auto simp: shared_at_iff)
qed

section \<open>Searching a free id\<close>

lemma candidate_id_inj:
  "1 \<le> i \<Longrightarrow> 1 \<le> j \<Longrightarrow> candidate_id cid sfx i = candidate_id cid sfx j \<Longrightarrow> i = j"
  by (auto simp: candidate_id_def nat_digits_inj split: if_splits)

lemma disambiguate_loop_None:
  "disambiguate_loop m s cid i fuel = None \<Longrightarrow>
   \<forall>j\<in>{i ..< i + fuel}. candidate_id cid (short_session_suffix s) j \<in> fst ` set (m_conns m)"
proof (induction m s cid i fuel rule: disambiguate_loop.induct)
  case (2 m s cid i fuel)
  let ?cand = "candidate_id cid (short_session_suffix s) i"
  from "2.prems" have busy: "\<not> id_free m s ?cand" by (auto simp: Let_def split: if_splits)
  then have "?cand \<in> fst ` set (m_conns m)"
    by (auto simp: id_free_def map_of_eq_None_iff)
  moreover have "\<forall>j\<in>{Suc i ..< Suc i + fuel}. candidate_id cid (short_session_suffix s) j \<in> fst ` set (m_conns m)"
    using "2.IH" [OF refl busy] "2.prems" busy by (simp add: Let_def)
  moreover have "{i ..< i + Suc fuel} = insert i {Suc i ..< Suc i + fuel}" by auto
  ultimately show ?case by (simp del: disambiguate_loop.simps)
qed simp

lemma disambiguate_enough: "disambiguate_id m s cid \<noteq> None"
proof
  assume "disambiguate_id m s cid = None"
  then have "disambiguate_loop m s cid 1 (Suc (length (m_conns m))) = None"
    by (auto simp: disambiguate_id_def split: if_splits)
  note busy = disambiguate_loop_None [OF this]
  let ?f = "candidate_id cid (short_session_suffix s)" and ?I = "{1 ..< 1 + Suc (length (m_conns m))}"
  have "inj_on ?f ?I" by (auto simp: inj_on_def intro: candidate_id_inj)
  moreover have "?f ` ?I \<subseteq> fst ` set (m_conns m)" using busy by blast
  ultimately have "card ?I \<le> card (fst ` set (m_conns m))" by (rule card_inj_on_le) simp
  also have "\<dots> \<le> length (m_conns m)" by (metis card_image_le card_length finite_set le_trans)
  finally show False by simp
qed

lemma disambiguate_loop_free: "disambiguate_loop m s cid i fuel = Some k \<Longrightarrow> id_free m s k"
  by (induction m s cid i fuel rule: disambiguate_loop.induct) (auto simp: Let_def split: if_splits)

lemma disambiguate_free: "disambiguate_id m s cid = Some k \<Longrightarrow> id_free m s k"
  by (auto simp: disambiguate_id_def simp del: disambiguate_loop.simps dest: disambiguate_loop_free
      split: if_splits)

lemma disambiguate_nonempty: "disambiguate_id m s cid = Some k \<Longrightarrow> cid \<noteq> [] \<Longrightarrow> k \<noteq> []"
proof -
  have "disambiguate_loop m s cid i fuel = Some k \<Longrightarrow> k \<noteq> []" for i fuel
    by (induction m s cid i fuel rule: disambiguate_loop.induct)
       (auto simp: Let_def candidate_id_def split: if_splits)
  then show "disambiguate_id m s cid = Some k \<Longrightarrow> cid \<noteq> [] \<Longrightarrow> k \<noteq> []"
    by (auto simp: disambiguate_id_def simp del: disambiguate_loop.simps split: if_splits)
qed

section \<open>Preservation\<close>

lemma manager_okI:
  assumes "shared_at m default_connection_id" "shared_at m (m_active m)" "shared_at m (m_default m)"
    and "\<And>s k. map_of (m_sessions m) s = Some k \<Longrightarrow> choice_ok m s k"
    and "distinct (map fst (m_sessions m))"
    and "\<And>k c. map_of (m_conns m) k = Some c \<Longrightarrow> c_id c = k \<and> k \<noteq> []"
    and "\<And>k. k \<in> set (m_persisted m) \<Longrightarrow> shared_at m k"
  shows "manager_ok m"
  using assms by (auto simp: manager_ok_def)

lemma new_manager_ok:
  assumes "c_id c = default_connection_id" "c_owner c = []"
  shows "manager_ok (new_connection_manager c)"
  using assms by (auto simp: manager_ok_def new_connection_manager_def shared_at_iff default_connection_id_def)

lemma mark_persisted_ok:
  assumes "manager_ok m"
  shows "manager_ok (mark_persisted k m)"
proof (cases "map_of (m_conns m) k")
  case None
  then show ?thesis using assms by (simp add: mark_persisted_def)
next
  case (Some c)
  note ok = manager_okD [OF assms]
  have mem: "x \<in> set (List.insert k ps) \<longleftrightarrow> x = k \<or> x \<in> set ps" for x ps by simp
  show ?thesis
  proof (rule manager_okI)
    fix s a assume "map_of (m_sessions (mark_persisted k m)) s = Some a"
    then have "choice_ok m s a" using Some ok(4) by (simp add: mark_persisted_def)
    then show "choice_ok (mark_persisted k m) s a"
      using Some by (cases "a = k") (simp_all add: choice_ok_def mark_persisted_def)
  qed (use ok assms Some in \<open>auto simp: mark_persisted_def shared_at_iff manager_ok_def split: if_splits\<close>)
qed

lemma unmark_persisted_ok: "manager_ok m \<Longrightarrow> manager_ok (unmark_persisted k m)"
  unfolding manager_ok_def
  by (auto simp: unmark_persisted_def shared_at_iff choice_ok_def)

lemma remove_connection_ok:
  assumes "manager_ok m"
  shows "manager_ok (snd (remove_connection k m))"
proof (cases "k = default_connection_id \<or> map_of (m_conns m) k = None")
  case True
  then show ?thesis using assms by (auto simp: remove_connection_def)
next
  case False
  then obtain c where c: "k \<noteq> default_connection_id" "map_of (m_conns m) k = Some c" by auto
  note ok = manager_okD [OF assms]
  show ?thesis
  proof (rule manager_okI)
    fix s a
    assume "map_of (m_sessions (snd (remove_connection k m))) s = Some a"
    then have "map_of (filter (\<lambda>(s, a). a \<noteq> k) (m_sessions m)) s = Some a"
      using c by (simp add: remove_connection_def)
    from map_of_filter_value [OF this] have "map_of (m_sessions m) s = Some a" "a \<noteq> k"
      using assms by (auto simp: manager_ok_def)
    with ok(4) show "choice_ok (snd (remove_connection k m)) s a"
      using c by (auto simp: choice_ok_def remove_connection_def)
  next
    show "distinct (map fst (m_sessions (snd (remove_connection k m))))"
      using assms c by (auto simp: remove_connection_def manager_ok_def distinct_map_filter)
  qed (use ok c in \<open>auto simp: remove_connection_def shared_at_iff split: if_splits\<close>)
qed

lemma set_default_connection_ok: "manager_ok m \<Longrightarrow> manager_ok (snd (set_default_connection k m))"
  unfolding manager_ok_def
  by (auto simp: set_default_connection_def shared_at_iff choice_ok_def split: option.splits)

lemma set_active_for_ok:
  assumes "manager_ok m" "trim_space s = s" "s \<noteq> []"
  shows "manager_ok (snd (set_active_for s k m))"
proof (cases "visible_to (map_of (m_conns m) k) s")
  case False
  then show ?thesis using assms by (simp add: set_active_for_def)
next
  case True
  note ok = manager_okD [OF assms(1)]
  have eq: "snd (set_active_for s k m) = m\<lparr>m_sessions := AList.update s k (m_sessions m)\<rparr>"
    using True assms by (simp add: set_active_for_def)
  show ?thesis
    unfolding eq
  proof (rule manager_okI)
    fix s' k' assume "map_of (m_sessions (m\<lparr>m_sessions := AList.update s k (m_sessions m)\<rparr>)) s' = Some k'"
    then show "choice_ok (m\<lparr>m_sessions := AList.update s k (m_sessions m)\<rparr>) s' k'"
      using ok(4) [of s' k'] True assms by (auto simp: choice_ok_def AList.update_conv' split: if_splits)
  qed (use ok assms in \<open>auto simp: shared_at_iff manager_ok_def distinct_update\<close>)
qed

lemma rebind_conns:
  "map_of (map (\<lambda>(k, c). (k, f c)) cs) k = map_option f (map_of cs k)"
  by (induction cs) auto

lemma rebind_session_ok:
  assumes "manager_ok m"
  shows "manager_ok (rebind_session old new m)"
proof (cases "trim_space old = [] \<or> trim_space new = [] \<or> trim_space old = trim_space new")
  case True
  then show ?thesis using assms by (auto simp: rebind_session_def Let_def)
next
  case False
  let ?old = "trim_space old" and ?new = "trim_space new"
  let ?m = "rebind_session old new m"
  note ok = manager_okD [OF assms]
  let ?f = "\<lambda>c. if c_owner c = ?old then c\<lparr>c_owner := ?new\<rparr> else c"
  have conns: "map_of (m_conns ?m) k = map_option ?f (map_of (m_conns m) k)" for k
    using False rebind_conns [of ?f] by (simp add: rebind_session_def Let_def)
  have same: "m_active ?m = m_active m" "m_default ?m = m_default m" "m_persisted ?m = m_persisted m"
    using False by (simp_all add: rebind_session_def Let_def)
  have sessions: "m_sessions ?m = (case map_of (m_sessions m) ?old of None \<Rightarrow> m_sessions m
      | Some a \<Rightarrow> AList.delete ?old (AList.update ?new a (m_sessions m)))"
    using False by (simp add: rebind_session_def Let_def)
  have shared: "shared_at ?m k" if "shared_at m k" for k
  proof -
    from that obtain c where c: "map_of (m_conns m) k = Some c" "c_owner c = []"
      by (auto simp: shared_at_iff)
    then have "map_of (m_conns ?m) k = Some c" using False by (auto simp: conns)
    with c show ?thesis by (simp add: shared_at_iff)
  qed
  show ?thesis
  proof (rule manager_okI)
    fix s k assume s: "map_of (m_sessions ?m) s = Some k"
    show "choice_ok ?m s k"
    proof (cases "map_of (m_sessions m) ?old")
      case None
      with s sessions have "map_of (m_sessions m) s = Some k" "s \<noteq> ?old" by auto
      with ok(4) [of s k] False show ?thesis
        by (cases "map_of (m_conns m) k") (auto simp: choice_ok_def conns)
    next
      case (Some a)
      with s sessions have "s \<noteq> ?old" and "s = ?new \<and> k = a \<or> s \<noteq> ?new \<and> map_of (m_sessions m) s = Some k"
        by (auto simp: AList.update_conv' AList.delete_conv' split: if_splits)
      with ok(4) [of s k] ok(4) [OF Some] False show ?thesis
        by (cases "map_of (m_conns m) k") (auto simp: choice_ok_def conns)
    qed
  next
    show "distinct (map fst (m_sessions ?m))"
      using assms by (auto simp: sessions manager_ok_def distinct_update distinct_delete split: option.splits)
  next
    fix k c assume "map_of (m_conns ?m) k = Some c"
    with ok(5) [of k] show "c_id c = k \<and> k \<noteq> []"
      by (cases "map_of (m_conns m) k") (auto simp: conns)
  qed (use ok shared in \<open>simp_all add: same\<close>)
qed

text \<open>The effect of an accepted \<^verbatim>\<open>Add\<close>: one entry of the map is written.\<close>

definition add_target :: "manager \<Rightarrow> connection \<Rightarrow> string" where
  "add_target m c = (if c_owner c \<noteq> [] then the (disambiguate_id m (c_owner c) (c_id c)) else c_id c)"

lemma add_connection_conns:
  assumes "trim_space (c_id c) \<noteq> []"
  shows "fst (add_connection c m) = None"
    and "map_of (m_conns (snd (add_connection c m))) k
      = (if k = add_target m c then Some (c\<lparr>c_id := add_target m c\<rparr>) else map_of (m_conns m) k)"
    and "m_active (snd (add_connection c m)) = m_active m"
      "m_default (snd (add_connection c m)) = m_default m"
      "m_sessions (snd (add_connection c m)) = m_sessions m"
      "m_persisted (snd (add_connection c m)) = m_persisted m"
    and "add_target m c \<noteq> []"
proof -
  have "trim_space [] = []" by code_simp
  with assms have "c_id c \<noteq> []" by auto
  then show "fst (add_connection c m) = None"
    and "map_of (m_conns (snd (add_connection c m))) k
      = (if k = add_target m c then Some (c\<lparr>c_id := add_target m c\<rparr>) else map_of (m_conns m) k)"
    and "m_active (snd (add_connection c m)) = m_active m"
      "m_default (snd (add_connection c m)) = m_default m"
      "m_sessions (snd (add_connection c m)) = m_sessions m"
      "m_persisted (snd (add_connection c m)) = m_persisted m"
    and "add_target m c \<noteq> []"
    using assms disambiguate_enough [of m "c_owner c" "c_id c"]
      disambiguate_nonempty [of m "c_owner c" "c_id c"]
    by (auto simp: add_connection_def add_target_def Let_def split: option.splits)
qed

lemma add_target_free: "c_owner c \<noteq> [] \<Longrightarrow> id_free m (c_owner c) (add_target m c)"
  using disambiguate_enough [of m "c_owner c" "c_id c"] disambiguate_free [of m "c_owner c" "c_id c"]
  by (auto simp: add_target_def)

text \<open>The guard the code does not have: a private connection does not land on a shared one.\<close>

definition add_allowed :: "manager \<Rightarrow> connection \<Rightarrow> bool" where
  "add_allowed m c \<longleftrightarrow> c_owner c \<noteq> [] \<longrightarrow> \<not> shared_at m (add_target m c)"

lemma add_connection_ok:
  assumes "manager_ok m" "add_allowed m c"
  shows "manager_ok (snd (add_connection c m))"
proof (cases "trim_space (c_id c) = []")
  case True
  then show ?thesis using assms(1) by (simp add: add_connection_def)
next
  case False
  note ok = manager_okD [OF assms(1)]
  note eff = add_connection_conns [OF False, of m]
  let ?m = "snd (add_connection c m)" and ?t = "add_target m c"
  have keep: "shared_at ?m k" if "shared_at m k" for k
    using that assms(2) by (auto simp: shared_at_iff eff(2) add_allowed_def)
  have owner: "c_owner old = c_owner c" if "map_of (m_conns m) ?t = Some old" "c_owner c \<noteq> []" for old
    using that add_target_free [of c m] assms(2) by (auto simp: id_free_def add_allowed_def shared_at_iff)
  show ?thesis
  proof (rule manager_okI)
    fix s k assume "map_of (m_sessions ?m) s = Some k"
    then have old: "choice_ok m s k" using ok(4) eff(5) by simp
    show "choice_ok ?m s k"
    proof (cases "k = ?t")
      case True
      with old obtain prev where "map_of (m_conns m) ?t = Some prev" "c_owner prev = [] \<or> c_owner prev = s"
        by (cases "map_of (m_conns m) ?t") (auto simp: choice_ok_def)
      with owner [of prev] have "c_owner c = [] \<or> c_owner c = s"
        using assms(2) by (cases "c_owner c = []") (auto simp: add_allowed_def shared_at_iff)
      with old True show ?thesis by (simp add: choice_ok_def eff(2))
    qed (use old in \<open>simp add: choice_ok_def eff(2)\<close>)
  qed (use ok eff keep assms(1) in \<open>auto simp: manager_ok_def split: if_splits\<close>)
qed


section \<open>Reachable managers\<close>

text \<open>
  One call on the manager.  Session ids are the sanitised cookie values, neither blank nor padded;
  \<open>Add\<close> is taken under the guard \<open>add_allowed\<close>.
\<close>

inductive manager_step :: "manager \<Rightarrow> manager \<Rightarrow> bool" where
  step_add: "add_allowed m c \<Longrightarrow> manager_step m (snd (add_connection c m))"
| step_mark: "manager_step m (mark_persisted k m)"
| step_unmark: "manager_step m (unmark_persisted k m)"
| step_remove: "manager_step m (snd (remove_connection k m))"
| step_default: "manager_step m (snd (set_default_connection k m))"
| step_choose: "s \<noteq> [] \<Longrightarrow> trim_space s = s \<Longrightarrow> manager_step m (snd (set_active_for s k m))"
| step_rebind: "manager_step m (rebind_session old new m)"

inductive manager_reachable :: "manager \<Rightarrow> bool" where
  reach_init: "c_id c = default_connection_id \<Longrightarrow> c_owner c = [] \<Longrightarrow> manager_reachable (new_connection_manager c)"
| reach_step: "manager_reachable m \<Longrightarrow> manager_step m m' \<Longrightarrow> manager_reachable m'"

lemma manager_step_ok: "manager_step m m' \<Longrightarrow> manager_ok m \<Longrightarrow> manager_ok m'"
  by (induction rule: manager_step.induct)
     (simp_all add: add_connection_ok mark_persisted_ok unmark_persisted_ok remove_connection_ok
        set_default_connection_ok set_active_for_ok rebind_session_ok)

lemma reachable_manager_ok: "manager_reachable m \<Longrightarrow> manager_ok m"
  by (induction rule: manager_reachable.induct) (simp_all add: new_manager_ok manager_step_ok)

lemma get_for_visible: "get_for m s k = Some c \<Longrightarrow> c_owner c = [] \<or> c_owner c = s"
  by (auto simp: get_for_def Let_def split: if_splits)

section \<open>Properties\<close>


definition builtin_connection :: connection where
  "builtin_connection = \<lparr>c_id = ''default'', c_name = ''tinySQL'', c_kind = ''tinysql'', c_dsn = [],
     c_dialect = ''tinysql'', c_owner = [], c_handle = Some 0\<rparr>"

definition private_connection :: "string \<Rightarrow> connection" where
  "private_connection k = \<lparr>c_id = k, c_name = k, c_kind = ''sqlite'', c_dsn = ''a.db'',
     c_dialect = ''sqlite'', c_owner = ''s1'', c_handle = Some 1\<rparr>"

lemma trim_s1_s2 [simp]: "trim_space ''s1'' = ''s1''" "trim_space ''s2'' = ''s2''"
  by (rule trim_space_graphic; code_simp)+

lemma add_private_example:
  "manager_reachable (snd (add_connection (private_connection ''p'') (new_connection_manager builtin_connection)))"
proof (rule reach_step [OF reach_init step_add])
  show "c_id builtin_connection = default_connection_id" "c_owner builtin_connection = []"
    by (simp_all add: builtin_connection_def default_connection_id_def)
  show "add_allowed (new_connection_manager builtin_connection) (private_connection ''p'')"
    by code_simp
qed


text \<open>
  A private \<open>Add\<close> leaves every connection that its session cannot see exactly as it was, and
  closes no handle but those of connections its session can see.
\<close>

theorem private_add_spares_others:
  assumes "c_owner c \<noteq> []" "map_of (m_conns m) k = Some other" "\<not> visible_to (Some other) (c_owner c)"
    and "trim_space (c_id c) \<noteq> []"
  shows "map_of (m_conns (snd (add_connection c m))) k = Some other
    \<and> (\<forall>h. h \<in> set (m_closed (snd (add_connection c m))) - set (m_closed m)
         \<longrightarrow> (\<exists>old. map_of (m_conns m) (add_target m c) = Some old \<and> visible_to (Some old) (c_owner c)
               \<and> c_handle old = Some h))"
proof -
  note free = add_target_free [OF assms(1), of m]
  from free assms(2,3) have "k \<noteq> add_target m c" by (auto simp: id_free_def)
  moreover have "\<exists>old. map_of (m_conns m) (add_target m c) = Some old \<and> visible_to (Some old) (c_owner c)
      \<and> c_handle old = Some h"
    if "h \<in> set (m_closed (snd (add_connection c m))) - set (m_closed m)" for h
    using that assms(1,4) free
    by (cases "disambiguate_id m (c_owner c) (c_id c)")
       (auto simp: add_connection_def add_target_def id_free_def Let_def split: option.splits if_splits)
  ultimately show ?thesis
    using assms(2) add_connection_conns(2) [OF assms(4), of m k] by auto
qed


lemma private_example_add:
  "map_of (m_conns (snd (add_connection (private_connection ''p'') (new_connection_manager builtin_connection)))) ''p''
     = Some (private_connection ''p'')"
  by code_simp

lemma trim_p [simp]: "trim_space ''p'' = ''p''" "trim_space ''default'' = ''default''"
  by (rule trim_space_graphic; code_simp)+

theorem private_add_spares_others_witness:
  "map_of (m_conns (snd (add_connection ((private_connection ''p'')\<lparr>c_owner := ''s2''\<rparr>)
     (snd (add_connection (private_connection ''p'') (new_connection_manager builtin_connection)))))) ''p''
   = Some (private_connection ''p'')"
  using private_add_spares_others [OF _ private_example_add, of "(private_connection ''p'')\<lparr>c_owner := ''s2''\<rparr>"]
  by (simp add: private_connection_def)



subsection \<open>Naming\<close>

text \<open>
  The search for an id a private connection can take always ends: within one attempt more
  than there are connections it finds an id that is unused or visible to the session, and keeps the
  requested id exactly when that one was free.
\<close>

theorem disambiguation_terminates:
  "\<exists>k. disambiguate_id m s cid = Some k \<and> id_free m s k \<and> (k = cid) = id_free m s cid"
proof -
  obtain k where k: "disambiguate_id m s cid = Some k" using disambiguate_enough [of m s cid] by auto
  with disambiguate_free [OF k] show ?thesis by (auto simp: disambiguate_id_def split: if_splits)
qed

lemma disambiguate_loop_stable:
  assumes "disambiguate_loop m s cid i fuel = Some k"
    and "\<And>k'. k' \<noteq> k \<Longrightarrow> id_free m' s k' = id_free m s k'" "id_free m' s k" "fuel \<le> fuel'"
  shows "disambiguate_loop m' s cid i fuel' = Some k"
  using assms
proof (induction m s cid i fuel arbitrary: fuel' rule: disambiguate_loop.induct)
  case (2 m s cid i fuel)
  let ?cand = "candidate_id cid (short_session_suffix s) i"
  obtain f where f: "fuel' = Suc f" "fuel \<le> f" using "2.prems"(4) by (cases fuel') auto
  show ?case
  proof (cases "id_free m s ?cand")
    case True
    with "2.prems" f show ?thesis by (simp add: Let_def)
  next
    case False
    with "2.prems"(1) have rest: "disambiguate_loop m s cid (Suc i) fuel = Some k" by (simp add: Let_def)
    from disambiguate_loop_free [OF rest] False have "?cand \<noteq> k" by auto
    with "2.IH" [OF refl False rest "2.prems"(2,3) f(2)] "2.prems"(2) False f show ?thesis
      by (simp add: Let_def)
  qed
qed simp

text \<open>
  Submitting the same private connection twice from one session reuses the id the first
  submission got instead of piling up suffixed copies.
\<close>

theorem resubmit_reuses_id:
  assumes "c_owner c \<noteq> []" "trim_space (c_id c) \<noteq> []"
  shows "add_target (snd (add_connection c m)) c = add_target m c"
proof -
  let ?m = "snd (add_connection c m)" and ?s = "c_owner c" and ?t = "add_target m c"
  note eff = add_connection_conns [OF assms(2), of m]
  have t: "disambiguate_id m ?s (c_id c) = Some ?t"
    using disambiguate_enough [of m ?s "c_id c"] assms(1) by (auto simp: add_target_def)
  have same: "id_free ?m ?s k = id_free m ?s k" if "k \<noteq> ?t" for k
    using that by (simp add: id_free_def eff(2))
  have free: "id_free ?m ?s ?t" by (simp add: id_free_def eff(2))
  have len: "length (m_conns m) \<le> length (m_conns ?m)"
  proof -
    have "length xs \<le> length (AList.update k v xs)" for xs :: "(string \<times> connection) list" and k v
      by (induction xs) auto
    then show ?thesis using assms t by (simp add: add_connection_def Let_def)
  qed
  have "disambiguate_id ?m ?s (c_id c) = Some ?t"
  proof (cases "id_free m ?s (c_id c)")
    case True
    with t have "?t = c_id c" by (simp add: disambiguate_id_def)
    with free show ?thesis by (simp add: disambiguate_id_def)
  next
    case False
    with t have loop: "disambiguate_loop m ?s (c_id c) 1 (Suc (length (m_conns m))) = Some ?t"
      by (simp add: disambiguate_id_def del: disambiguate_loop.simps)
    from False disambiguate_free [OF t] have "c_id c \<noteq> ?t" by auto
    with same [of "c_id c"] False have "\<not> id_free ?m ?s (c_id c)" by simp
    with disambiguate_loop_stable [OF loop same free] len show ?thesis
      by (simp add: disambiguate_id_def del: disambiguate_loop.simps)
  qed
  with assms(1) show ?thesis by (simp add: add_target_def)
qed

theorem resubmit_reuses_id_witness:
  "add_target (snd (add_connection (private_connection ''p'') (new_connection_manager builtin_connection)))
     (private_connection ''p'') = add_target (new_connection_manager builtin_connection) (private_connection ''p'')"
  by (rule resubmit_reuses_id) (simp_all add: private_connection_def)

subsection \<open>Kinds\<close>

lemma kind_literals [simp]:
  "trim_space ''postgres'' = ''postgres''" "trim_space ''mysql'' = ''mysql''"
  "trim_space ''mssql'' = ''mssql''" "trim_space ''sqlite'' = ''sqlite''"
  "to_lower ''postgres'' = ''postgres''" "to_lower ''mysql'' = ''mysql''"
  "to_lower ''mssql'' = ''mssql''" "to_lower ''sqlite'' = ''sqlite''"
  by code_simp+

text \<open>
  Detection is stable: opening a DSN again under the kind that was detected for it gives
  the same kind, driver, connection string and dialect, whatever kind was asked for first.
\<close>

theorem parse_dsn_stable:
  "parse_connection_dsn (fst (parse_connection_dsn kind dsn)) dsn = parse_connection_dsn kind dsn"
proof -
  have known: "parse_known_dsn (fst (parse_known_dsn k dsn)) dsn = parse_known_dsn k dsn"
    and kinds: "fst (parse_known_dsn k dsn) \<in> {''postgres'', ''mysql'', ''mssql'', ''sqlite''}" for k
    by (auto simp: parse_known_dsn_def Let_def)
  have "parse_connection_dsn k dsn = parse_known_dsn k dsn"
    if "k \<in> {''postgres'', ''mysql'', ''mssql'', ''sqlite''}" for k
    using that by (auto simp: parse_connection_dsn_def)
  then show ?thesis using known kinds by (simp add: parse_connection_dsn_def Let_def)
qed

end
