(* ===== verification/AuthCorrect.thy ===== *)
theory AuthCorrect
  imports AuthHandlers ConnectionsCorrect
begin

text \<open>
  Correctness of sessions, gates and login: what the gates let through, when a login issues a session
  and how long it lives, the lockout, the redirect target.
\<close>

section \<open>Live sessions\<close>

text \<open>The specification: the entry behind a session id, while it has not expired.\<close>

definition live_session :: "nat \<Rightarrow> string \<Rightarrow> 'c server \<Rightarrow> session_auth option" where
  "live_session now sid sv =
     (if sid = [] then None
      else (case sv_sessions sv sid of None \<Rightarrow> None | Some a \<Rightarrow> if now \<le> sa_expiry a then Some a else None))"

definition live_role :: "nat \<Rightarrow> string \<Rightarrow> 'c server \<Rightarrow> role option" where
  "live_role now sid sv = map_option sa_role (live_session now sid sv)"

named_theorems session_simps

lemma current_session_user_live [session_simps]:
  "fst (current_session_user now sid sv) = map_option (\<lambda>a. (sa_username a, sa_role a)) (live_session now sid sv)"
  by (auto simp: current_session_user_def live_session_def split: option.splits)

lemma current_session_user_keeps [session_simps]:
  "sv_settings (snd (current_session_user now sid sv)) = sv_settings sv"
  "sv_accounts (snd (current_session_user now sid sv)) = sv_accounts sv"
  "sv_attempts (snd (current_session_user now sid sv)) = sv_attempts sv"
  "sv_conns (snd (current_session_user now sid sv)) = sv_conns sv"
  "sv_settings_rows (snd (current_session_user now sid sv)) = sv_settings_rows sv"
  by (auto simp: current_session_user_def split: option.splits)

lemma current_session_user_live_same [session_simps]:
  "live_session now' sid' (snd (current_session_user now sid sv))
     = (if sid' = sid \<and> live_session now sid sv = None then None else live_session now' sid' sv)"
  by (auto simp: current_session_user_def live_session_def split: option.splits)

text \<open>Looking up a session, as the live identity and the state without an expired entry.\<close>

definition after_lookup :: "request \<Rightarrow> 'c server \<Rightarrow> 'c server" where
  "after_lookup rq sv = snd (current_session_user (rq_now rq) (rq_session rq) sv)"

lemma lookup_eq [session_simps]:
  "current_session_user (rq_now rq) (rq_session rq) sv
     = (map_option (\<lambda>a. (sa_username a, sa_role a)) (live_session (rq_now rq) (rq_session rq) sv), after_lookup rq sv)"
  by (simp add: after_lookup_def prod_eq_iff current_session_user_live)

lemma after_lookup_keeps [session_simps]:
  "sv_settings (after_lookup rq sv) = sv_settings sv" "sv_accounts (after_lookup rq sv) = sv_accounts sv"
  "sv_attempts (after_lookup rq sv) = sv_attempts sv" "sv_conns (after_lookup rq sv) = sv_conns sv"
  "live_session (rq_now rq) (rq_session rq) (after_lookup rq sv) = live_session (rq_now rq) (rq_session rq) sv"
  by (simp_all add: after_lookup_def current_session_user_keeps current_session_user_live_same)

section \<open>Gates\<close>

lemma require_role_passes [session_simps]:
  "fst (require_role allowed env rq sv) = None \<longleftrightarrow>
     as_auth_mode (sv_settings sv) = Auth_Mode_None
     \<or> auth_configured (ae_accounts env) (sv_settings sv) (sv_accounts sv) = Inr True
       \<and> (\<exists>a. live_session (rq_now rq) (rq_session rq) sv = Some a \<and> sa_role a \<in> set allowed)"
  by (cases "live_session (rq_now rq) (rq_session rq) sv")
     (auto simp: require_role_def lookup_eq split: sum.splits bool.splits)

lemma require_role_state:
  "snd (require_role allowed env rq sv) = sv \<or> snd (require_role allowed env rq sv) = after_lookup rq sv"
  by (cases "live_session (rq_now rq) (rq_session rq) sv")
     (auto simp: require_role_def lookup_eq split: sum.splits bool.splits)

lemma any_role: "r \<in> set [Role_Admin, Role_User, Role_Read_Only]"
  by (cases r) simp_all

lemma require_writable_passes [session_simps]:
  "fst (require_writable rq sv) = None \<longleftrightarrow>
     \<not> as_read_only_mode (sv_settings sv)
     \<and> (as_auth_mode (sv_settings sv) = Auth_Mode_None
        \<or> map_option sa_role (live_session (rq_now rq) (rq_session rq) sv) \<noteq> Some Role_Read_Only)"
  by (cases "live_session (rq_now rq) (rq_session rq) sv") (auto simp: require_writable_def lookup_eq)

lemma write_gate_passes [session_simps]:
  "fst (write_gate_blocked env rq sv) = None \<longleftrightarrow>
     \<not> as_read_only_mode (sv_settings sv)
     \<and> (as_auth_mode (sv_settings sv) = Auth_Mode_None
        \<or> (\<exists>a. live_session (rq_now rq) (rq_session rq) sv = Some a \<and> sa_role a \<noteq> Role_Read_Only))"
  by (cases "live_session (rq_now rq) (rq_session rq) sv")
     (auto simp: write_gate_blocked_def login_required_for_write_def role_blocks_write_def lookup_eq
        after_lookup_keeps)

lemma session_can_write_iff [session_simps]:
  "fst (session_can_write_sql env rq sv) \<longleftrightarrow>
     as_auth_mode (sv_settings sv) = Auth_Mode_None
     \<or> (\<exists>a. live_session (rq_now rq) (rq_session rq) sv = Some a \<and> sa_role a \<noteq> Role_Read_Only
          \<and> (\<not> as_native_mirror (sv_settings sv)
             \<or> has_insert_permission (catalog_operations (ae_accounts env)) (sa_username a) (catalog (sv_accounts sv))))"
proof (cases "live_session (rq_now rq) (rq_session rq) sv")
  case (Some a)
  then show ?thesis
    by (cases "sa_role a") (auto simp: session_can_write_sql_def lookup_eq after_lookup_keeps)
qed (simp add: session_can_write_sql_def lookup_eq)



text \<open>
  outside the login-free mode a session that is anonymous, expired or read-only can run
  exactly the result-producing statements through the SQL editor, whatever the state of the mirror;
  with a live writing role and the mirror off nothing is blocked.
\<close>

theorem sql_editor_gate:
  "fst (write_sql_blocked env rq sql sv) \<longleftrightarrow>
     \<not> is_result_producing sql
     \<and> as_auth_mode (sv_settings sv) \<noteq> Auth_Mode_None
     \<and> (case live_session (rq_now rq) (rq_session rq) sv of
          None \<Rightarrow> True
        | Some a \<Rightarrow> sa_role a = Role_Read_Only
            \<or> as_native_mirror (sv_settings sv)
              \<and> \<not> has_insert_permission (catalog_operations (ae_accounts env)) (sa_username a) (catalog (sv_accounts sv)))"
proof -
  have "fst (write_sql_blocked env rq sql sv) \<longleftrightarrow> \<not> is_result_producing sql \<and> \<not> fst (session_can_write_sql env rq sv)"
    by (simp add: write_sql_blocked_def split: prod.split)
  then show ?thesis
    by (auto simp: session_can_write_iff split: option.splits)
qed

section \<open>A sample server\<close>

definition sample_catalog_ops :: "unit catalog_ops" where
  "sample_catalog_ops =
     \<lparr>create_role = \<lambda>_ c. (True, c), grant_permission = \<lambda>_ _ c. (True, c), get_user = \<lambda>_ _. True,
      create_user_with_role = \<lambda>_ _ _ c. (True, c), revoke_role_from_user = \<lambda>_ _ c. (True, c),
      grant_role_to_user = \<lambda>_ _ c. (True, c), set_catalog_disabled = \<lambda>_ _ c. (True, c),
      drop_user = \<lambda>_ c. (True, c), has_insert_permission = \<lambda>_ _. True, random_password = Some ''x''\<rparr>"

definition sample_account_env :: "unit account_env" where
  "sample_account_env = \<lparr>db_fails = \<lambda>_. False, catalog_operations = sample_catalog_ops, timestamp = ''t''\<rparr>"

text \<open>Hashing that prefixes the password stands in for bcrypt.\<close>

definition sample_auth_env :: "unit auth_env" where
  "sample_auth_env =
     \<lparr>ae_accounts = sample_account_env, ae_settings = sample_settings_env, bcrypt_hash = \<lambda>p. Some (CHR ''#'' # p),
      bcrypt_matches = \<lambda>h p. h = CHR ''#'' # p, dummy_password_hash = ''none'',
      random_bytes = Some (replicate 24 CHR ''a''), query_escape = \<lambda>s. s, encode_configs = \<lambda>_. Some ''x'',
      behind_tls_proxy = False, auth_mode_explicit = True\<rparr>"

definition sample_rows :: "user_row list" where
  "sample_rows =
     [\<lparr>ur_username = ''root'', ur_hash = ''#secret'', ur_role = ''admin'', ur_created = ''t'', ur_disabled = ''false''\<rparr>,
      \<lparr>ur_username = ''bob'', ur_hash = ''#hunter'', ur_role = ''user'', ur_created = ''t'', ur_disabled = ''false''\<rparr>]"

definition sample_server :: "unit server" where
  "sample_server =
     \<lparr>sv_settings = sample_app\<lparr>as_auth_mode := Auth_Mode_Local\<rparr>, sv_settings_rows = [],
      sv_accounts = \<lparr>user_rows = sample_rows, catalog = ()\<rparr>, sv_sessions = \<lambda>_. None, sv_attempts = \<lambda>_. None,
      sv_conns = new_connection_manager builtin_connection\<rparr>"

definition sample_request :: "string \<Rightarrow> string \<Rightarrow> string \<Rightarrow> request" where
  "sample_request sid name pw =
     \<lparr>rq_session = sid, rq_path = ''/admin/login'',
      rq_form = Some (\<lambda>k. if k = ''username'' then name else if k = ''password'' then pw else []),
      rq_query = \<lambda>_. [], rq_tls = True, rq_now = 0\<rparr>"

lemma sample_users:
  "list_users sample_account_env (sv_accounts sample_server) = Inr (rev (map user_of sample_rows))"
  by code_simp

lemma sample_configured:
  "auth_configured (ae_accounts sample_auth_env) (sv_settings sample_server) (sv_accounts sample_server) = Inr True"
  using sample_users
  by (simp add: auth_configured_def users_configured_def sample_auth_env_def sample_rows_def)


section \<open>Login\<close>

lemma verify_nonblank: "verify_admin_password env h p \<Longrightarrow> bcrypt_matches env h p"
  by (simp add: verify_admin_password_def)

text \<open>The name a login form is for.\<close>

definition login_name :: "request \<Rightarrow> string option" where
  "login_name rq = map_option (\<lambda>form. if trim_space (form ''username'') = [] then ''admin'' else trim_space (form ''username'')) (rq_form rq)"

lemma rotate_effect:
  assumes "rotate_session_on_auth env rq n r sv = (Some ck, sv')"
  shows "new_session_id env = Some (ck_value ck)"
    and "sv_accounts sv' = sv_accounts sv" "sv_settings sv' = sv_settings sv" "sv_attempts sv' = sv_attempts sv"
    and "\<forall>sid. sid = [] \<or> sv_sessions sv' sid =
      (if sid = rq_session rq then None
       else if sid = ck_value ck then Some \<lparr>sa_username = n, sa_role = r, sa_expiry = rq_now rq + session_auth_ttl\<rparr>
       else sv_sessions sv sid)"
    and "sv_conns sv' = (if rq_session rq = [] then sv_conns sv else rebind_session (rq_session rq) (ck_value ck) (sv_conns sv))"
    and "ck_secure ck = (rq_tls rq \<or> behind_tls_proxy env)"
  using assms
  by (auto simp: rotate_session_on_auth_def session_cookie_def mark_session_authenticated_def
      clear_session_authenticated_def Let_def split: option.splits if_splits)

lemma login_account_keeps:
  assumes "login_account env name pw sv = (r, sv')"
  shows "sv_sessions sv' = sv_sessions sv" "sv_attempts sv' = sv_attempts sv" "sv_settings sv' = sv_settings sv"
    "sv_conns sv' = sv_conns sv"
  using assms by (auto simp: login_account_def Let_def split: sum.splits option.splits if_splits prod.splits)

lemma login_locked_out_keeps:
  assumes "login_locked_out now name sv = (b, sv')"
  shows "sv_sessions sv' = sv_sessions sv" "sv_settings sv' = sv_settings sv" "sv_accounts sv' = sv_accounts sv"
    "sv_conns sv' = sv_conns sv"
  using assms by (auto simp: login_locked_out_def split: option.splits if_splits)

text \<open>A login that sets a cookie went through every check.\<close>

lemma login_submit_cookie:
  assumes "login_submit env rq sv = (Redirect_With_Cookie next ck, sv')"
  obtains form name sv1 sv2 u where
    "rq_form rq = Some form" "login_name rq = Some name" "as_auth_mode (sv_settings sv) \<noteq> Auth_Mode_None"
    "login_locked_out (rq_now rq) name sv = (False, sv1)"
    "login_account env name (form ''password'') sv1 = (Inr (Some u), sv2)" "\<not> u_disabled u"
    "verify_admin_password env (u_hash u) (form ''password'')"
    "rotate_session_on_auth env rq (u_username u) (u_role u) (clear_login_failures name sv2) = (Some ck, sv')"
    "next = sanitize_admin_next_path (form ''next'')"
proof -
  from assms obtain form where form: "rq_form rq = Some form" and mode: "as_auth_mode (sv_settings sv) \<noteq> Auth_Mode_None"
    by (auto simp: login_submit_def split: if_splits option.splits)
  define name where "name = (if trim_space (form ''username'') = [] then ''admin'' else trim_space (form ''username''))"
  obtain b sv1 where lock: "login_locked_out (rq_now rq) name sv = (b, sv1)" by fastforce
  obtain r sv2 where account: "login_account env name (form ''password'') sv1 = (r, sv2)" by fastforce
  note step = assms [unfolded login_submit_def form if_not_P [OF mode] option.case Let_def,
      folded name_def, unfolded lock account prod.case]
  from step have "\<not> b" and ok: "\<exists>a. r = Inr a" by (auto split: bool.splits sum.splits)
  then obtain a where a: "r = Inr a" by blast
  from step \<open>\<not> b\<close> a obtain u where u: "a = Some u" "\<not> u_disabled u" by (auto split: option.splits if_splits)
  show thesis
  proof (rule that [OF form])
    show "login_name rq = Some name" using form by (simp add: login_name_def name_def)
    show "login_locked_out (rq_now rq) name sv = (False, sv1)" using lock \<open>\<not> b\<close> by simp
    show "login_account env name (form ''password'') sv1 = (Inr (Some u), sv2)" using account a u by simp
    show "verify_admin_password env (u_hash u) (form ''password'')"
      "rotate_session_on_auth env rq (u_username u) (u_role u) (clear_login_failures name sv2) = (Some ck, sv')"
      "next = sanitize_admin_next_path (form ''next'')"
      using step \<open>\<not> b\<close> a u by (auto split: if_splits option.splits prod.splits)
  qed (use mode u in simp_all)
qed

text \<open>The accounts a login may use: a stored one found by name, or the recreated \<open>admin\<close>.\<close>

definition login_source :: "'c auth_env \<Rightarrow> string \<Rightarrow> user \<Rightarrow> 'c server \<Rightarrow> bool" where
  "login_source env name u sv \<longleftrightarrow>
     get_user_by_username (ae_accounts env) name (sv_accounts sv) = Inr (Some u)
     \<or> get_user_by_username (ae_accounts env) name (sv_accounts sv) = Inr None \<and> name = ''admin''
       \<and> u = \<lparr>u_username = ''admin'', u_hash = trim_space (as_admin_password_hash (sv_settings sv)),
              u_role = Role_Admin, u_disabled = False\<rparr>"

lemma login_account_source:
  "login_account env name pw sv = (Inr (Some u), sv') \<Longrightarrow> login_source env name u sv"
  by (auto simp: login_account_def login_source_def Let_def split: sum.splits option.splits if_splits prod.splits)

text \<open>
  Claim C17: a login issues a session only to a name that is not locked out, for an enabled account
  found under that name (or the \<open>admin\<close> that the settings still hold a password for) whose hash the
  password matches.  The session is a fresh one from the random source with the account's name and
  role, for twelve hours; the id the request came with is no longer logged in, every other session is
  untouched, the failure count is cleared and the redirect target is the sanitised one.
\<close>

theorem login_issues_session:
  assumes "login_submit env rq sv = (Redirect_With_Cookie next ck, sv')"
  shows "\<exists>form name u. rq_form rq = Some form \<and> login_name rq = Some name
    \<and> next = sanitize_admin_next_path (form ''next'')
    \<and> \<not> fst (login_locked_out (rq_now rq) name sv)
    \<and> login_source env name u sv \<and> \<not> u_disabled u \<and> bcrypt_matches env (u_hash u) (form ''password'')
    \<and> new_session_id env = Some (ck_value ck) \<and> sv_attempts sv' name = None
    \<and> (\<forall>sid. sid = [] \<or> sv_sessions sv' sid =
        (if sid = rq_session rq then None
         else if sid = ck_value ck
         then Some \<lparr>sa_username = u_username u, sa_role = u_role u, sa_expiry = rq_now rq + session_auth_ttl\<rparr>
         else sv_sessions sv sid))"
proof -
  from assms obtain form name sv1 sv2 u where *:
    "rq_form rq = Some form" "login_name rq = Some name"
    "login_locked_out (rq_now rq) name sv = (False, sv1)"
    "login_account env name (form ''password'') sv1 = (Inr (Some u), sv2)" "\<not> u_disabled u"
    "verify_admin_password env (u_hash u) (form ''password'')"
    "rotate_session_on_auth env rq (u_username u) (u_role u) (clear_login_failures name sv2) = (Some ck, sv')"
    "next = sanitize_admin_next_path (form ''next'')"
    by (rule login_submit_cookie)
  note keep = login_locked_out_keeps [OF *(3)] login_account_keeps [OF *(4)]
  have "login_source env name u sv"
    using login_account_source [OF *(4)] keep by (simp add: login_source_def)
  moreover have "sv_attempts sv' name = None"
    using rotate_effect(4) [OF *(7)] by (simp add: clear_login_failures_def)
  moreover have "sv_sessions (clear_login_failures name sv2) = sv_sessions sv"
    using keep by (simp add: clear_login_failures_def)
  note sessions = rotate_effect(5) [OF *(7), unfolded this]
  ultimately show ?thesis
    using *(1-3,5,8) rotate_effect(1) [OF *(7)] verify_nonblank [OF *(6)] sessions
    by (intro exI [of _ form] exI [of _ name] exI [of _ u] conjI) (assumption | simp)+
qed

lemma sample_trims [simp]:
  "trim_space ''root'' = ''root''" "trim_space ''#secret'' = ''#secret''" "trim_space ''bob'' = ''bob''"
  by (rule trim_space_graphic; code_simp)+

lemma sample_root:
  "get_user_by_username sample_account_env ''root'' (sv_accounts sample_server) = Inr (Some (user_of (hd sample_rows)))"
  "\<not> u_disabled (user_of (hd sample_rows)) \<and> u_hash (user_of (hd sample_rows)) = ''#secret''"
proof -
  have "find (\<lambda>u. equal_fold (u_username u) ''root'') (rev (map user_of sample_rows)) = Some (user_of (hd sample_rows))"
    by code_simp
  with sample_users
  show "get_user_by_username sample_account_env ''root'' (sv_accounts sample_server) = Inr (Some (user_of (hd sample_rows)))"
    by (simp add: get_user_by_username_def)
  show "\<not> u_disabled (user_of (hd sample_rows)) \<and> u_hash (user_of (hd sample_rows)) = ''#secret''" by code_simp
qed

lemmas login_evaluation =
  login_submit_def sample_request_def Let_def login_locked_out_def login_account_def verify_admin_password_def
  sanitize_admin_next_path_def sample_auth_env_def sample_server_def

lemma sample_login:
  "\<exists>ck sv'. login_submit sample_auth_env (sample_request ''s1'' ''root'' ''secret'') sample_server
     = (Redirect_With_Cookie ''/admin'' ck, sv')"
proof -
  have "new_session_id sample_auth_env \<noteq> None"
    by (simp add: new_session_id_def sample_auth_env_def)
  with sample_root show ?thesis
    by (auto simp: login_evaluation rotate_session_on_auth_def)
qed

theorem login_issues_session_witness:
  "\<exists>ck sv'. new_session_id sample_auth_env = Some (ck_value ck)
     \<and> login_submit sample_auth_env (sample_request ''s1'' ''root'' ''secret'') sample_server
         = (Redirect_With_Cookie ''/admin'' ck, sv')
     \<and> sv_sessions sv' ''s1'' = None"
proof -
  obtain ck sv' where *: "login_submit sample_auth_env (sample_request ''s1'' ''root'' ''secret'') sample_server
     = (Redirect_With_Cookie ''/admin'' ck, sv')"
    using sample_login by blast
  from login_issues_session [OF this] have "new_session_id sample_auth_env = Some (ck_value ck)"
    "sv_sessions sv' ''s1'' = None"
    by (auto simp: sample_request_def split: if_splits)
  with * show ?thesis by blast
qed

section \<open>Session lifetime\<close>

lemma hex_digit_session_byte: "n < 16 \<Longrightarrow> is_session_byte (hex_digit n) \<and> is_graphic_byte (hex_digit n)"
  by (simp add: hex_digit_def is_session_byte_def is_graphic_byte_def is_digit_byte_def is_lower_byte_def
      in_range_def of_char_of_small)

lemma hex_digits_props:
  "length (hex_digits k n) = k \<and> list_all is_session_byte (hex_digits k n) \<and> list_all is_graphic_byte (hex_digits k n)"
  by (induction k arbitrary: n) (simp_all add: hex_digit_session_byte)

lemma hex_string_props:
  "length (concat (map (\<lambda>c. hex_digits 2 (of_char c)) b)) = 2 * length b
   \<and> list_all is_session_byte (concat (map (\<lambda>c. hex_digits 2 (of_char c)) b))
   \<and> list_all is_graphic_byte (concat (map (\<lambda>c. hex_digits 2 (of_char c)) b))"
  using hex_digits_props [of 2] by (induction b) auto

lemma fresh_id_accepted:
  assumes "random_bytes env = Some b" "length b = 24" "new_session_id env = Some sid"
  shows "sanitize_session_id sid = sid \<and> length sid = 48"
proof -
  from assms(1,3) have "sid = concat (map (\<lambda>c. hex_digits 2 (of_char c)) b)" by (simp add: new_session_id_def)
  with hex_string_props [of b] assms(2) show ?thesis
    by (simp add: sanitize_session_id_def trim_space_graphic)
qed

text \<open>
  the id a login mints (24 random bytes in hexadecimal) is accepted unchanged when the
  browser sends it back, and the session lives exactly twelve hours: it answers with the name and role
  of the login up to that instant and with nobody after it, and at once with nobody after a logout or
  after the sessions of that name are revoked.
\<close>

theorem session_lifetime:
  assumes "random_bytes env = Some b" "length b = 24" "new_session_id env = Some sid"
  shows "sanitize_session_id sid = sid
    \<and> fst (current_session_user now sid (mark_session_authenticated start sid name r sv))
        = (if now \<le> start + session_auth_ttl then Some (name, r) else None)
    \<and> fst (current_session_user now sid (clear_session_authenticated sid (mark_session_authenticated start sid name r sv))) = None
    \<and> (name \<noteq> [] \<longrightarrow>
        fst (current_session_user now sid (revoke_sessions name (mark_session_authenticated start sid name r sv))) = None)"
proof -
  from fresh_id_accepted [OF assms] have "sanitize_session_id sid = sid" "sid \<noteq> []" by auto
  then show ?thesis
    by (auto simp: current_session_user_def mark_session_authenticated_def clear_session_authenticated_def
        revoke_sessions_def revoke_other_sessions_def split: option.splits)
qed

theorem session_lifetime_witness:
  "sanitize_session_id (the (new_session_id sample_auth_env)) = the (new_session_id sample_auth_env)"
  by (rule session_lifetime [THEN conjunct1, of sample_auth_env "replicate 24 CHR ''a''"])
     (simp_all add: sample_auth_env_def new_session_id_def)

section \<open>The login lockout\<close>

text \<open>
  \<open>failed_logins env name n last sv sv'\<close>: from \<open>sv\<close> to \<open>sv'\<close> there were \<open>n\<close> failed logins for
  \<open>name\<close>, the last at time \<open>last\<close>, with any logins for other names in between.
\<close>

inductive failed_logins ::
    "'c auth_env \<Rightarrow> string \<Rightarrow> nat \<Rightarrow> nat \<Rightarrow> 'c server \<Rightarrow> 'c server \<Rightarrow> bool" for env name where
  no_failure: "failed_logins env name 0 now sv sv"
| one_more: "failed_logins env name n last_time sv sv' \<Longrightarrow> login_name rq = Some name \<Longrightarrow>
    login_submit env rq sv' = (Auth_Page ''login'' next ''Incorrect password.'', sv'') \<Longrightarrow>
    failed_logins env name (Suc n) (rq_now rq) sv sv''"
| other_name: "failed_logins env name n last_time sv sv' \<Longrightarrow> login_name rq = Some other \<Longrightarrow> other \<noteq> name \<Longrightarrow>
    failed_logins env name n last_time sv (snd (login_submit env rq sv'))"

definition attempts_after :: "nat \<Rightarrow> nat \<Rightarrow> login_attempts option" where
  "attempts_after n last_time =
     (if n = 0 then None
      else Some \<lparr>la_failures = n, la_locked_until = (if n \<ge> 5 then Some (last_time + login_lockout_duration) else None)\<rparr>)"

lemma login_submit_attempts:
  assumes "login_name rq = Some name" "login_submit env rq sv = (resp, sv')"
  shows "other \<noteq> name \<Longrightarrow> sv_attempts sv' other = sv_attempts sv other"
    and "sv_settings sv' = sv_settings sv"
    and "resp = Auth_Page ''login'' next ''Incorrect password.'' \<Longrightarrow>
       as_auth_mode (sv_settings sv) \<noteq> Auth_Mode_None
       \<and> (\<exists>sv1. login_locked_out (rq_now rq) name sv = (False, sv1)
           \<and> sv_attempts sv' = sv_attempts (record_login_failure (rq_now rq) name sv1))"
proof -
  from assms(1) obtain form where form: "rq_form rq = Some form"
    "name = (if trim_space (form ''username'') = [] then ''admin'' else trim_space (form ''username''))"
    by (auto simp: login_name_def)
  obtain b sv1 where lock: "login_locked_out (rq_now rq) name sv = (b, sv1)" by fastforce
  obtain r sv2 where account: "login_account env name (form ''password'') sv1 = (r, sv2)" by fastforce
  note step = assms(2) [unfolded login_submit_def form(1) option.case Let_def, folded form(2),
      unfolded lock account prod.case]
  note keep = login_locked_out_keeps [OF lock] login_account_keeps [OF account]
  have others: "sv_attempts sv1 other = sv_attempts sv other" if "other \<noteq> name" for other
    using lock that by (auto simp: login_locked_out_def split: option.splits if_splits)
  have rotated: "sv_attempts sv4 = sv_attempts sv3 \<and> sv_settings sv4 = sv_settings sv3"
    if "rotate_session_on_auth env rq n' r' sv3 = (c, sv4)" for n' r' sv3 c sv4
    using that by (auto simp: rotate_session_on_auth_def mark_session_authenticated_def
        clear_session_authenticated_def Let_def split: option.splits if_splits)
  show "other \<noteq> name \<Longrightarrow> sv_attempts sv' other = sv_attempts sv other"
    and "sv_settings sv' = sv_settings sv"
    and "resp = Auth_Page ''login'' next ''Incorrect password.'' \<Longrightarrow>
       as_auth_mode (sv_settings sv) \<noteq> Auth_Mode_None
       \<and> (\<exists>sv1. login_locked_out (rq_now rq) name sv = (False, sv1)
           \<and> sv_attempts sv' = sv_attempts (record_login_failure (rq_now rq) name sv1))"
    using step keep others lock
    by (auto simp: record_login_failure_def clear_login_failures_def Let_def dest!: rotated
        split: if_splits bool.splits sum.splits option.splits prod.splits)
qed

lemma failed_logins_attempts:
  assumes "failed_logins env name n t sv sv'" "sv_attempts sv name = None" "n \<le> 5"
  shows "sv_attempts sv' name = attempts_after n t
    \<and> (0 < n \<longrightarrow> as_auth_mode (sv_settings sv') \<noteq> Auth_Mode_None)"
  using assms
proof (induction rule: failed_logins.induct)
  case (one_more n t sv sv' rq "next" sv'')
  then have before: "sv_attempts sv' name = attempts_after n t" by simp
  from login_submit_attempts(3) [OF one_more.hyps(2,3) refl] obtain sv1
    where "login_locked_out (rq_now rq) name sv' = (False, sv1)"
      and after: "sv_attempts sv'' = sv_attempts (record_login_failure (rq_now rq) name sv1)"
      and mode: "as_auth_mode (sv_settings sv') \<noteq> Auth_Mode_None" by blast
  with before one_more.prems(2) have "sv1 = sv'"
    by (auto simp: login_locked_out_def attempts_after_def split: if_splits)
  with before after one_more.prems(2) login_submit_attempts(2) [OF one_more.hyps(2,3)] mode show ?case
    by (auto simp: record_login_failure_def attempts_after_def max_login_failures_def Let_def)
next
  case (other_name n t sv sv' rq other)
  obtain resp sv'' where "login_submit env rq sv' = (resp, sv'')" by fastforce
  from login_submit_attempts(1,2) [OF other_name.hyps(2) this] this other_name show ?case by auto
qed (simp add: attempts_after_def)


lemma sample_failure:
  assumes "sv_accounts sv = sv_accounts sample_server" "sv_settings sv = sv_settings sample_server"
    and "login_locked_out 0 ''root'' sv = (False, sv)"
  shows "login_submit sample_auth_env (sample_request ''s1'' ''root'' ''bad'') sv
    = (Auth_Page ''login'' ''/admin'' ''Incorrect password.'', record_login_failure 0 ''root'' sv)"
proof -
  have "as_auth_mode (sv_settings sv) = Auth_Mode_Local" using assms(2) by (simp add: sample_server_def)
  with assms(1,3) sample_root show ?thesis
    by (simp add: login_submit_def sample_request_def Let_def login_account_def verify_admin_password_def
        sanitize_admin_next_path_def sample_auth_env_def)
qed

lemma record_login_failure_keeps:
  "sv_accounts (record_login_failure now name sv) = sv_accounts sv"
  "sv_settings (record_login_failure now name sv) = sv_settings sv"
  by (simp_all add: record_login_failure_def Let_def)

lemma sample_failures:
  "n \<le> 5 \<Longrightarrow> failed_logins sample_auth_env ''root'' n 0 sample_server ((record_login_failure 0 ''root'' ^^ n) sample_server)
     \<and> sv_accounts ((record_login_failure 0 ''root'' ^^ n) sample_server) = sv_accounts sample_server
     \<and> sv_settings ((record_login_failure 0 ''root'' ^^ n) sample_server) = sv_settings sample_server"
proof (induction n)
  case 0
  show ?case by (simp add: no_failure)
next
  case (Suc n)
  let ?sv = "(record_login_failure 0 ''root'' ^^ n) sample_server"
  from Suc have IH: "failed_logins sample_auth_env ''root'' n 0 sample_server ?sv"
    "sv_accounts ?sv = sv_accounts sample_server" "sv_settings ?sv = sv_settings sample_server" by auto
  have "sv_attempts sample_server ''root'' = None" by (simp add: sample_server_def)
  with failed_logins_attempts [OF IH(1)] Suc.prems have "sv_attempts ?sv ''root'' = attempts_after n 0" by simp
  with Suc.prems have "login_locked_out 0 ''root'' ?sv = (False, ?sv)"
    by (auto simp: login_locked_out_def attempts_after_def)
  note fail = sample_failure [OF IH(2,3) this]
  have "login_name (sample_request ''s1'' ''root'' ''bad'') = Some ''root''"
    by (simp add: login_name_def sample_request_def)
  from one_more [OF IH(1) this fail] IH show ?case
    by (simp add: record_login_failure_keeps sample_request_def)
qed


section \<open>The redirect target\<close>

text \<open>
  How a browser resolves a \<^verbatim>\<open>Location\<close>: tabs and line breaks are dropped and a backslash is a slash;
  two leading slashes, or anything but a slash at the start, lead away from the server.
\<close>

definition dropped_by_browser :: "char \<Rightarrow> bool" where
  "dropped_by_browser c \<longleftrightarrow> c = CHR 0x09 \<or> c = CHR 0x0A \<or> c = CHR 0x0D"

definition leaves_site :: "string \<Rightarrow> bool" where
  "leaves_site location =
     (let u = map (\<lambda>c. if c = CHR 0x5C then CHR ''/'' else c) (filter (\<lambda>c. \<not> dropped_by_browser c) location) in
      \<not> prefix ''/'' u \<or> prefix ''//'' u)"

lemma set_trim_space: "set (trim_space s) \<subseteq> set s"
proof -
  have "suffix (trim_left s) s" by (simp add: trim_left_def strip_suffix)
  then have "set (trim_left s) \<subseteq> set s" by (auto dest: set_mono_suffix)
  moreover have "set (trim_right (trim_left s)) \<subseteq> set (trim_left s)"
    using set_mono_prefix [OF trim_right_prefix [of "trim_left s"]] by simp
  ultimately show ?thesis by (simp add: trim_space_def)
qed

lemma replace_byte_map: "replace_byte c [d] s = map (\<lambda>x. if x = c then d else x) s"
  by (induction s) simp_all

text \<open>
  Claim C21: the redirect target after login or setup stays on the server for every input without tabs
  and line breaks; with them the check can be passed, as \<^verbatim>\<open>/<tab>/e\<close> is accepted as it is and resolves
  to another host.
\<close>

theorem next_path_stays_local:
  assumes "list_all (\<lambda>c. \<not> dropped_by_browser c) s"
  shows "\<not> leaves_site (sanitize_admin_next_path s)
    \<and> sanitize_admin_next_path [CHR ''/'', CHR 0x09, CHR ''/'', CHR ''e''] = [CHR ''/'', CHR 0x09, CHR ''/'', CHR ''e'']
    \<and> leaves_site [CHR ''/'', CHR 0x09, CHR ''/'', CHR ''e'']"
proof -
  let ?raw = "trim_space s"
  have admin: "\<not> leaves_site ''/admin''" by code_simp
  have "list_all (\<lambda>c. \<not> dropped_by_browser c) ?raw"
    using assms set_trim_space [of s] by (auto simp: list_all_iff)
  then have "filter (\<lambda>c. \<not> dropped_by_browser c) ?raw = ?raw" by (simp add: list_all_iff)
  then have "leaves_site ?raw \<longleftrightarrow> \<not> prefix ''/'' (replace_byte CHR 0x5C ''/'' ?raw)
      \<or> prefix ''//'' (replace_byte CHR 0x5C ''/'' ?raw)"
    by (simp add: leaves_site_def Let_def replace_byte_map)
  moreover have "prefix ''/'' (replace_byte CHR 0x5C ''/'' ?raw)" if "prefix ''/'' ?raw"
    using that by (cases ?raw) (auto simp: replace_byte_map)
  ultimately have "\<not> leaves_site (sanitize_admin_next_path s)"
    using admin by (auto simp: sanitize_admin_next_path_def Let_def)
  moreover have "sanitize_admin_next_path [CHR ''/'', CHR 0x09, CHR ''/'', CHR ''e''] = [CHR ''/'', CHR 0x09, CHR ''/'', CHR ''e'']"
    by code_simp
  moreover have "leaves_site [CHR ''/'', CHR 0x09, CHR ''/'', CHR ''e'']" by code_simp
  ultimately show ?thesis by blast
qed

theorem next_path_stays_local_witness: "\<not> leaves_site (sanitize_admin_next_path ''/queries'')"
  using next_path_stays_local [of "''/queries''"] by (simp add: dropped_by_browser_def)

end
