(* ===== verification/AccountsCorrect.thy ===== *)
theory AccountsCorrect
  imports AuthCorrect
begin

text \<open>
  The account table under the handlers: an enabled admin always remains and names stay unique; the
  native mirror never influences an account operation; what a failed save of a connection leaves.
\<close>

section \<open>Operations on the rows\<close>

lemma rows_wf_append:
  assumes "rows_wf rows" "trim_space name = name" "\<And>r. r \<in> set rows \<Longrightarrow> \<not> equal_fold (ur_username r) name"
  shows "rows_wf (rows @ [\<lparr>ur_username = name, ur_hash = h, ur_role = role_text r, ur_created = t, ur_disabled = d\<rparr>])"
proof -
  have "to_lower name \<notin> (\<lambda>r. to_lower (ur_username r)) ` set rows"
    using assms(3) by (force simp: equal_fold_def)
  with assms(1,2) show ?thesis by (auto simp: rows_wf_def)
qed

lemma rows_wf_update:
  assumes "rows_wf rows" "\<And>r. ur_username (f r) = ur_username r"
    and "\<And>r. normalize_role (ur_role r) \<noteq> None \<Longrightarrow> normalize_role (ur_role (f r)) \<noteq> None"
  shows "rows_wf (update_rows name f rows)"
proof -
  have "map (\<lambda>r. to_lower (ur_username r)) (update_rows name f rows) = map (\<lambda>r. to_lower (ur_username r)) rows"
    using assms(2) by (simp add: update_rows_def)
  moreover have "list_all (\<lambda>r. normalize_role (ur_role r) \<noteq> None) (update_rows name f rows)
      \<and> list_all (\<lambda>r. trim_space (ur_username r) = ur_username r) (update_rows name f rows)"
    using assms by (auto simp: rows_wf_def update_rows_def list_all_iff)
  ultimately show ?thesis using assms(1) by (simp add: rows_wf_def)
qed

lemma rows_wf_filter: "rows_wf rows \<Longrightarrow> rows_wf (filter P rows)"
  by (auto simp: rows_wf_def list_all_iff distinct_map_filter)

text \<open>An enabled admin under another name survives any change to the rows of a name.\<close>

definition other_admin :: "string \<Rightarrow> user_row list \<Rightarrow> bool" where
  "other_admin name rows \<longleftrightarrow> (\<exists>r\<in>set rows. row_enabled_admin r \<and> ur_username r \<noteq> name)"

lemma other_admin_update: "other_admin name rows \<Longrightarrow> has_enabled_admin (update_rows name f rows)"
  by (fastforce simp: other_admin_def has_enabled_admin_def list_ex_iff update_rows_def)

lemma other_admin_filter: "other_admin name rows \<Longrightarrow> has_enabled_admin (filter (\<lambda>r. ur_username r \<noteq> name) rows)"
  by (auto simp: other_admin_def has_enabled_admin_def list_ex_iff)

lemma update_keeps_admin:
  "has_enabled_admin rows \<Longrightarrow> (\<And>r. row_enabled_admin r \<Longrightarrow> row_enabled_admin (f r)) \<Longrightarrow> has_enabled_admin (update_rows name f rows)"
  by (induction rows) (auto simp: has_enabled_admin_def update_rows_def)

lemma rows_same_name:
  "rows_wf rows \<Longrightarrow> r \<in> set rows \<Longrightarrow> r' \<in> set rows \<Longrightarrow> equal_fold (ur_username r) (ur_username r') \<Longrightarrow> r = r'"
  by (auto simp: rows_wf_def equal_fold_def distinct_map dest: inj_onD)

text \<open>What the last-admin check establishes.\<close>

lemma guard_leaves_admin:
  assumes "rows_wf (user_rows a)" "has_enabled_admin (user_rows a)" "trim_space name = name"
    and "get_user_by_username env name a = Inr (Some target)"
    and "assert_not_last_enabled_admin env target a = None"
  shows "other_admin name (user_rows a)"
proof -
  obtain r where r: "r \<in> set (user_rows a)" "target = user_of r" "equal_fold (ur_username r) name"
    using get_user_row [OF assms(4,1)] assms(3) by metis
  have same: "r' = r" if "r' \<in> set (user_rows a)" "ur_username r' = name" for r'
    using rows_same_name [OF assms(1) r(1) that(1)] r(3) that(2) by simp
  show ?thesis
  proof (cases "row_enabled_admin r")
    case False
    with assms(2) same show ?thesis by (auto simp: other_admin_def has_enabled_admin_def list_ex_iff)
  next
    case True
    with r assms(1) have "enabled_admin target"
      by (subst r(2), subst enabled_admin_user_of) (auto simp: rows_wf_def list_all_iff)
    with assms(5) obtain n where "count_enabled_admins env a = Inr n" "1 < n"
      by (auto simp: assert_not_last_enabled_admin_def split: sum.splits if_splits)
    with count_enabled_admins_rows [OF _ assms(1)]
    have two: "1 < length (filter row_enabled_admin (user_rows a))" by simp
    have "distinct (filter row_enabled_admin (user_rows a))"
      using assms(1) by (auto simp: rows_wf_def distinct_map)
    then have "card (set (filter row_enabled_admin (user_rows a))) = length (filter row_enabled_admin (user_rows a))"
      by (rule distinct_card)
    with two have "\<not> set (filter row_enabled_admin (user_rows a)) \<subseteq> {r}"
      using card_mono [of "{r}" "set (filter row_enabled_admin (user_rows a))"] by auto
    then obtain r' where "r' \<in> set (user_rows a)" "row_enabled_admin r'" "r' \<noteq> r" by auto
    with same show ?thesis by (auto simp: other_admin_def)
  qed
qed

section \<open>The invariant of the account table\<close>

definition accounts_ok :: "'c accounts \<Rightarrow> bool" where
  "accounts_ok a \<longleftrightarrow> rows_wf (user_rows a) \<and> has_enabled_admin (user_rows a)"

lemma create_user_rows:
  assumes "create_user env name hash r a = (err, a')" "rows_wf (user_rows a)"
  shows "rows_wf (user_rows a')" "has_enabled_admin (user_rows a) \<Longrightarrow> has_enabled_admin (user_rows a')"
proof -
  consider (same) "user_rows a' = user_rows a"
    | (new) "user_rows a' = user_rows a @ [\<lparr>ur_username = trim_space name, ur_hash = hash, ur_role = role_text r,
        ur_created = timestamp env, ur_disabled = format_bool False\<rparr>]"
      "get_user_by_username env (trim_space name) a = Inr None"
    using assms(1) by (auto simp: create_user_def split: option.splits sum.splits if_splits)
  then have "rows_wf (user_rows a') \<and> (has_enabled_admin (user_rows a) \<longrightarrow> has_enabled_admin (user_rows a'))"
  proof cases
    case new
    have "\<not> equal_fold (ur_username r') (trim_space name)" if "r' \<in> set (user_rows a)" for r'
      using get_user_none [OF new(2) assms(2) that] by simp
    with new(1) rows_wf_append [OF assms(2), of "trim_space name"] show ?thesis
      by (simp add: has_enabled_admin_def)
  qed (use assms(2) in simp)
  then show "rows_wf (user_rows a')" "has_enabled_admin (user_rows a) \<Longrightarrow> has_enabled_admin (user_rows a')" by auto
qed

lemma create_user_ok: "accounts_ok a \<Longrightarrow> accounts_ok (snd (create_user env name hash r a))"
  using create_user_rows [of env name hash r a] by (cases "create_user env name hash r a") (auto simp: accounts_ok_def)

lemma set_user_password_hash_ok: "accounts_ok a \<Longrightarrow> accounts_ok (snd (set_user_password_hash env name hash a))"
  by (auto simp: accounts_ok_def set_user_password_hash_def row_enabled_admin_def
      intro!: rows_wf_update update_keeps_admin)

lemma update_user_role_ok:
  "accounts_ok a \<Longrightarrow> other_admin name (user_rows a) \<Longrightarrow> accounts_ok (snd (update_user_role env name r a))"
  by (auto simp: accounts_ok_def update_user_role_def intro!: rows_wf_update other_admin_update)

lemma set_user_disabled_ok:
  "accounts_ok a \<Longrightarrow> d \<longrightarrow> other_admin name (user_rows a) \<Longrightarrow> accounts_ok (snd (set_user_disabled env name d a))"
proof -
  assume ok: "accounts_ok a" and d: "d \<longrightarrow> other_admin name (user_rows a)"
  have "\<not> parse_bool (format_bool False)" by code_simp
  then have "has_enabled_admin (update_rows name (\<lambda>row. row\<lparr>ur_disabled := format_bool False\<rparr>) (user_rows a))"
    using ok by (auto simp: accounts_ok_def row_enabled_admin_def intro!: update_keeps_admin)
  with ok d show ?thesis
    by (cases d) (auto simp: accounts_ok_def set_user_disabled_def intro!: rows_wf_update other_admin_update)
qed

lemma delete_user_ok:
  "accounts_ok a \<Longrightarrow> other_admin name (user_rows a) \<Longrightarrow> accounts_ok (snd (delete_user env name a))"
  by (auto simp: accounts_ok_def delete_user_def intro!: rows_wf_filter other_admin_filter)

lemmas account_operations_ok =
  create_user_ok set_user_password_hash_ok update_user_role_ok set_user_disabled_ok delete_user_ok

section \<open>Requests\<close>

text \<open>The handlers that can change accounts, as one dispatcher.\<close>

datatype account_action =
  Do_Create | Do_Role | Do_Disable | Do_Reset | Do_Delete | Do_Login | Do_Logout | Do_Change_Password | Do_Setup

definition run_account_action :: "account_action \<Rightarrow> 'c auth_env \<Rightarrow> request \<Rightarrow> 'c server \<Rightarrow> response \<times> 'c server" where
  "run_account_action act env rq sv =
     (case act of Do_Create \<Rightarrow> users_create env rq sv | Do_Role \<Rightarrow> users_role env rq sv
      | Do_Disable \<Rightarrow> users_disable env rq sv | Do_Reset \<Rightarrow> users_reset_password env rq sv
      | Do_Delete \<Rightarrow> users_delete env rq sv | Do_Login \<Rightarrow> login_submit env rq sv | Do_Logout \<Rightarrow> logout rq sv
      | Do_Change_Password \<Rightarrow> change_password env rq sv | Do_Setup \<Rightarrow> setup_submit env rq sv)"

lemma revoke_accounts [simp]:
  "sv_accounts (revoke_sessions n sv) = sv_accounts sv" "sv_accounts (revoke_other_sessions n k sv) = sv_accounts sv"
  by (simp_all add: revoke_sessions_def revoke_other_sessions_def)

lemma store_settings_accounts: "store_settings env s sv = (r, sv') \<Longrightarrow> sv_accounts sv' = sv_accounts sv"
  by (auto simp: store_settings_def split: sum.splits prod.splits)

lemma rotate_accounts: "rotate_session_on_auth env rq n r sv = (c, sv') \<Longrightarrow> sv_accounts sv' = sv_accounts sv"
  by (auto simp: rotate_session_on_auth_def mark_session_authenticated_def clear_session_authenticated_def
      Let_def split: option.splits if_splits)

lemma with_accounts_ok:
  assumes "accounts_ok (snd r)" "\<And>sv'. sv_accounts (snd (k sv')) = sv_accounts sv'"
  shows "accounts_ok (sv_accounts (snd (with_accounts sv r k)))"
  using assms by (auto simp: with_accounts_def split: prod.splits option.splits)

lemma guarded_target_ok:
  assumes "accounts_ok (sv_accounts sv)" "trim_space name = name"
    and "other_admin name (user_rows (sv_accounts sv)) \<Longrightarrow> accounts_ok (sv_accounts (snd (k ())))"
  shows "accounts_ok (sv_accounts (snd (guarded_target env name nf sv k)))"
  using assms guard_leaves_admin [of "sv_accounts sv" name "ae_accounts env"]
  by (auto simp: guarded_target_def accounts_ok_def split: sum.splits option.splits)

lemma login_account_ok:
  "login_account env name pw sv = (r, sv') \<Longrightarrow> accounts_ok (sv_accounts sv) \<Longrightarrow> accounts_ok (sv_accounts sv')"
  using create_user_ok [of "sv_accounts sv"]
  by (auto simp: login_account_def Let_def split: sum.splits option.splits if_splits prod.splits
      dest: arg_cong [where f = snd]) (metis snd_conv)+

lemma users_create_ok: "accounts_ok (sv_accounts sv) \<Longrightarrow> accounts_ok (sv_accounts (snd (users_create env rq sv)))"
  using create_user_ok [of "sv_accounts sv"]
  by (auto simp: users_create_def Let_def with_accounts_def split: option.splits prod.splits account_error.splits
      dest: arg_cong [where f = snd]) (metis snd_conv)+

lemma users_role_ok: "accounts_ok (sv_accounts sv) \<Longrightarrow> accounts_ok (sv_accounts (snd (users_role env rq sv)))"
  by (auto simp: users_role_def Let_def split: option.splits
      intro!: guarded_target_ok with_accounts_ok update_user_role_ok)

lemma users_disable_ok: "accounts_ok (sv_accounts sv) \<Longrightarrow> accounts_ok (sv_accounts (snd (users_disable env rq sv)))"
  by (auto simp: users_disable_def Let_def split: option.splits
      intro!: guarded_target_ok with_accounts_ok set_user_disabled_ok)

lemma users_reset_ok: "accounts_ok (sv_accounts sv) \<Longrightarrow> accounts_ok (sv_accounts (snd (users_reset_password env rq sv)))"
  by (auto simp: users_reset_password_def Let_def split: option.splits
      intro!: with_accounts_ok set_user_password_hash_ok)

lemma users_delete_ok: "accounts_ok (sv_accounts sv) \<Longrightarrow> accounts_ok (sv_accounts (snd (users_delete env rq sv)))"
  by (auto simp: users_delete_def Let_def lookup_eq after_lookup_keeps split: option.splits
      intro!: guarded_target_ok with_accounts_ok delete_user_ok)

lemma change_password_ok:
  assumes "accounts_ok (sv_accounts sv)"
  shows "accounts_ok (sv_accounts (snd (change_password env rq sv)))"
proof -
  have hash: "accounts_ok acc" if "set_user_password_hash e n h (sv_accounts sv) = (r, acc)" for e n h r acc
    using set_user_password_hash_ok [OF assms, of e n h] that by simp
  show ?thesis
    using assms
    by (auto simp: change_password_def Let_def lookup_eq after_lookup_keeps
        dest!: hash store_settings_accounts split: option.splits sum.splits prod.splits if_splits)
qed

lemma login_submit_ok:
  assumes "accounts_ok (sv_accounts sv)"
  shows "accounts_ok (sv_accounts (snd (login_submit env rq sv)))"
proof (cases "as_auth_mode (sv_settings sv) = Auth_Mode_None \<or> rq_form rq = None")
  case True
  then show ?thesis using assms by (auto simp: login_submit_def split: option.splits)
next
  case False
  then obtain form where form: "rq_form rq = Some form" and mode: "as_auth_mode (sv_settings sv) \<noteq> Auth_Mode_None"
    by auto
  define name where "name = (if trim_space (form ''username'') = [] then ''admin'' else trim_space (form ''username''))"
  obtain b sv1 where lock: "login_locked_out (rq_now rq) name sv = (b, sv1)" by fastforce
  obtain r sv2 where account: "login_account env name (form ''password'') sv1 = (r, sv2)" by fastforce
  have ok: "accounts_ok (sv_accounts sv1)" "accounts_ok (sv_accounts sv2)"
    using login_locked_out_keeps(3) [OF lock] login_account_ok [OF account] assms by simp_all
  have rotated: "accounts_ok (sv_accounts sv4)"
    if "rotate_session_on_auth env rq n' r' (clear_login_failures name sv2) = (c, sv4)" for n' r' c sv4
    using rotate_accounts [OF that] ok by (simp add: clear_login_failures_def)
  have "login_submit env rq sv = (let next = sanitize_admin_next_path (form ''next'') in
      case (b, sv1) of
        (True, sv1) \<Rightarrow> (Auth_Page ''login'' next ''Too many failed attempts for this account.'', sv1)
      | (False, sv1) \<Rightarrow>
          (case (r, sv2) of
             (Inl _, sv2) \<Rightarrow> (Internal_Error, sv2)
           | (Inr account, sv2) \<Rightarrow>
               (let usable = (case account of Some u \<Rightarrow> \<not> u_disabled u | None \<Rightarrow> False);
                    hash = (if usable then u_hash (the account) else dummy_password_hash env);
                    password_ok = verify_admin_password env hash (form ''password'') in
                if \<not> usable \<or> \<not> password_ok
                then (Auth_Page ''login'' next ''Incorrect password.'', record_login_failure (rq_now rq) name sv2)
                else (case rotate_session_on_auth env rq (u_username (the account)) (u_role (the account))
                         (clear_login_failures name sv2) of
                    (None, sv3) \<Rightarrow> (Internal_Error, sv3)
                  | (Some ck, sv3) \<Rightarrow> (Redirect_With_Cookie next ck, sv3)))))"
    unfolding login_submit_def form if_not_P [OF mode] option.case Let_def name_def [symmetric] lock account
    by (cases b) (simp_all add: account)
  then show ?thesis
    using ok by (auto simp: Let_def record_login_failure_keeps dest: rotated
        split: bool.splits sum.splits option.splits prod.splits)
qed

lemma setup_account_ok:
  assumes "accounts_ok (sv_accounts sv)"
  shows "accounts_ok (sv_accounts (snd (setup_account env rq next username hash sv)))"
proof -
  obtain err acc where created: "create_user (ae_accounts env) username hash Role_Admin (sv_accounts sv) = (err, acc)"
    by fastforce
  then have "accounts_ok acc"
    using create_user_ok [OF assms, of "ae_accounts env" username hash Role_Admin] by simp
  moreover have "sv_accounts sv' = acc"
    if "rotate_session_on_auth env rq username Role_Admin (sv\<lparr>sv_accounts := acc\<rparr>) = (c, sv')" for c sv'
    using rotate_accounts [OF that] by simp
  ultimately show ?thesis
    by (auto simp: setup_account_def created split: option.splits account_error.splits prod.splits)
qed

lemma setup_submit_ok:
  assumes "accounts_ok (sv_accounts sv)"
  shows "accounts_ok (sv_accounts (snd (setup_submit env rq sv)))"
proof -
  have stored: "accounts_ok (sv_accounts sv')" if "store_settings env s sv = (x, sv')" for s x sv'
    using store_settings_accounts [OF that] assms by simp
  show ?thesis
    using assms
    by (auto simp: setup_submit_def Let_def dest!: stored intro: setup_account_ok
        split: option.splits sum.splits prod.splits bool.splits)
qed

lemma run_account_action_ok:
  "accounts_ok (sv_accounts sv) \<Longrightarrow> accounts_ok (sv_accounts (snd (run_account_action act env rq sv)))"
  by (cases act)
     (simp_all add: run_account_action_def users_create_ok users_role_ok users_disable_ok users_reset_ok
        users_delete_ok login_submit_ok change_password_ok setup_submit_ok logout_def clear_session_authenticated_def)

text \<open>
  Any sequence of such requests; the environment (which statements fail, what the random source
  yields, the state of the mirror's operations) may differ from request to request.
\<close>

inductive account_run :: "'c server \<Rightarrow> 'c server \<Rightarrow> bool" where
  run_done: "account_run sv sv"
| run_more: "account_run sv sv' \<Longrightarrow> account_run sv (snd (run_account_action act env rq sv'))"

text \<open>
  Claim C16: whatever requests for creating, changing, disabling, resetting and deleting accounts,
  logging in and out, changing the password and setting up are served in whatever order, and whatever
  statements fail on the way: a server with an enabled administrator keeps one, every stored role
  stays readable and no two names agree up to case.
\<close>

theorem an_enabled_admin_remains:
  assumes "account_run sv sv'" "accounts_ok (sv_accounts sv)"
  shows "has_enabled_admin (user_rows (sv_accounts sv')) \<and> rows_wf (user_rows (sv_accounts sv'))"
proof -
  from assms have "accounts_ok (sv_accounts sv')"
    by (induction rule: account_run.induct) (simp_all add: run_account_action_ok)
  then show ?thesis by (simp add: accounts_ok_def)
qed

lemma sample_rows_ok: "rows_wf sample_rows \<and> has_enabled_admin sample_rows"
proof -
  have "list_all (\<lambda>r. normalize_role (ur_role r) \<noteq> None) sample_rows" by code_simp
  moreover have "distinct (map (\<lambda>r. to_lower (ur_username r)) sample_rows)" by code_simp
  moreover have "list_all (\<lambda>r. trim_space (ur_username r) = ur_username r) sample_rows"
    by (simp add: sample_rows_def)
  moreover have "has_enabled_admin sample_rows" by code_simp
  ultimately show ?thesis by (simp add: rows_wf_def)
qed

theorem an_enabled_admin_remains_witness:
  "has_enabled_admin (user_rows (sv_accounts
     (snd (run_account_action Do_Delete sample_auth_env (sample_request ''s1'' ''root'' []) sample_server))))"
  by (rule an_enabled_admin_remains [THEN conjunct1, OF run_more [OF run_done]])
     (use sample_rows_ok in \<open>simp add: sample_server_def accounts_ok_def\<close>)

section \<open>The native mirror\<close>

text \<open>
  Claim C22: the mirror in tinySQL's catalog never influences the authoritative accounts: for any two
  catalogs, with whatever operations, failing or not, every account operation gives the same error and
  leaves the same rows.
\<close>

theorem mirror_never_interferes:
  fixes env :: "'c account_env" and env' :: "'d account_env"
  assumes "db_fails env = db_fails env'" "timestamp env = timestamp env'" "user_rows a = user_rows a'"
  shows "fst (create_user env name hash r a) = fst (create_user env' name hash r a')
      \<and> user_rows (snd (create_user env name hash r a)) = user_rows (snd (create_user env' name hash r a'))
      \<and> fst (update_user_role env name r a) = fst (update_user_role env' name r a')
      \<and> user_rows (snd (update_user_role env name r a)) = user_rows (snd (update_user_role env' name r a'))
      \<and> fst (set_user_disabled env name d a) = fst (set_user_disabled env' name d a')
      \<and> user_rows (snd (set_user_disabled env name d a)) = user_rows (snd (set_user_disabled env' name d a'))
      \<and> fst (delete_user env name a) = fst (delete_user env' name a')
      \<and> user_rows (snd (delete_user env name a)) = user_rows (snd (delete_user env' name a'))
      \<and> get_user_by_username env name a = get_user_by_username env' name a'"
proof -
  have users: "list_users env a = list_users env' a'"
    using assms by (simp add: list_users_def ensure_users_table_def)
  then have "get_user_by_username env n a = get_user_by_username env' n a'" for n
    by (simp add: get_user_by_username_def)
  with assms show ?thesis
    by (simp add: create_user_def ensure_users_table_def update_user_role_def set_user_disabled_def
        delete_user_def split: sum.split option.split)
qed

theorem mirror_never_interferes_witness:
  "user_rows (snd (delete_user sample_account_env ''bob'' (sv_accounts sample_server)))
   = user_rows (snd (delete_user (sample_account_env\<lparr>catalog_operations :=
        sample_catalog_ops\<lparr>get_user := \<lambda>_ _. True, drop_user := \<lambda>_ c. (False, c)\<rparr>\<rparr>) ''bob'' (sv_accounts sample_server)))"
  using mirror_never_interferes [of sample_account_env
      "sample_account_env\<lparr>catalog_operations := sample_catalog_ops\<lparr>get_user := \<lambda>_ _. True, drop_user := \<lambda>_ c. (False, c)\<rparr>\<rparr>"
      "sv_accounts sample_server" "sv_accounts sample_server" "''bob''"]
  by simp

section \<open>Sharing a connection\<close>

text \<open>
  Claim C23: when the settings cannot be saved, \<^verbatim>\<open>Save for everyone\<close> reports the failure and takes the
  connection off the saved ones again, but the connection stays visible to every session: the owner
  that \<^verbatim>\<open>MarkPersisted\<close> cleared is not restored.
\<close>

theorem failed_persist_leaves_shared:
  assumes "rq_form rq = Some form" "map_of (m_conns (sv_conns sv)) (form ''id'') = Some c"
    and "trim_space (form ''id'') = form ''id''" "exec_fails (ae_settings env) ''settings.insert'' ''managed_connections''"
    and "encode_configs env (stored_configs (mark_persisted (form ''id'') (sv_conns sv))) \<noteq> None"
  shows "(\<exists>msg. fst (persist_connection env rq sv) = Page ''connections'' msg)
    \<and> form ''id'' \<notin> set (m_persisted (sv_conns (snd (persist_connection env rq sv))))
    \<and> get_for (sv_conns (snd (persist_connection env rq sv))) any_session (form ''id'') = Some (c\<lparr>c_owner := []\<rparr>)"
proof -
  have err: "fst (save_setting (ae_settings env) (''managed_connections'', v) rows) \<noteq> None" for v rows
    using assms(4) by (simp add: save_setting_def Let_def split: option.splits)
  obtain v where v: "encode_configs env (stored_configs (mark_persisted (form ''id'') (sv_conns sv))) = Some v"
    using assms(5) by auto
  obtain e rows where saved: "save_setting (ae_settings env) (''managed_connections'', v) (sv_settings_rows sv) = (Some e, rows)"
    using err [of v "sv_settings_rows sv"] by (metis not_None_eq prod.collapse)
  show ?thesis
    using assms(1-3) v saved
    by (simp add: persist_connection_def Let_def get_connection_def save_managed_connections_def
        mark_persisted_def unmark_persisted_def get_for_def)
qed

theorem failed_persist_leaves_shared_witness:
  "get_for (sv_conns (snd (persist_connection
      (sample_auth_env\<lparr>ae_settings := sample_settings_env\<lparr>exec_fails := \<lambda>l k. l = ''settings.insert''\<rparr>\<rparr>)
      ((sample_request ''s1'' [] [])\<lparr>rq_form := Some (\<lambda>_. ''p'')\<rparr>)
      (sample_server\<lparr>sv_conns := snd (add_connection (private_connection ''p'') (new_connection_manager builtin_connection))\<rparr>))))
     ''s2'' ''p'' = Some ((private_connection ''p'')\<lparr>c_owner := []\<rparr>)"
  by (rule failed_persist_leaves_shared [where form = "\<lambda>_. ''p''", THEN conjunct2, THEN conjunct2])
     (use private_example_add in \<open>simp_all add: sample_auth_env_def\<close>)

end
