(* ===== verification/ContainerHeap.thy ===== *)
theory ContainerHeap
  imports GoPrelude "HOL-Library.Multiset"
begin

text \<open>
  Go's \<^verbatim>\<open>container/heap\<close> over a slice, as the routing code uses it: sift up, sift down, push and pop;
  the contract of a minimum queue (locale \<open>min_queue\<close>) and its proof for the slice heap.
\<close>

section \<open>The code of the package\<close>

definition heap_parent :: "nat \<Rightarrow> nat" where
  "heap_parent j = (j - 1) div 2"

definition swap_at :: "'a list \<Rightarrow> nat \<Rightarrow> nat \<Rightarrow> 'a list" where
  "swap_at xs i j = xs[i := xs ! j, j := xs ! i]"

function heap_up :: "('a \<Rightarrow> 'a \<Rightarrow> bool) \<Rightarrow> 'a list \<Rightarrow> nat \<Rightarrow> 'a list" where
  "heap_up lss xs j =
     (let i = heap_parent j in
      if i = j \<or> \<not> lss (xs ! j) (xs ! i) then xs else heap_up lss (swap_at xs i j) i)"
  by auto
termination
  by (relation "measure (\<lambda>(lss, xs, j). j)") (auto simp: heap_parent_def)

text \<open>The smaller child of \<open>i\<close> among the first \<open>n\<close> entries.\<close>

definition smaller_child :: "('a \<Rightarrow> 'a \<Rightarrow> bool) \<Rightarrow> 'a list \<Rightarrow> nat \<Rightarrow> nat \<Rightarrow> nat" where
  "smaller_child lss xs i n =
     (if 2 * i + 2 < n \<and> lss (xs ! (2 * i + 2)) (xs ! (2 * i + 1)) then 2 * i + 2 else 2 * i + 1)"

function heap_down :: "('a \<Rightarrow> 'a \<Rightarrow> bool) \<Rightarrow> 'a list \<Rightarrow> nat \<Rightarrow> nat \<Rightarrow> 'a list" where
  "heap_down lss xs i n =
     (if 2 * i + 1 \<ge> n then xs
      else (let j = smaller_child lss xs i n in
        if \<not> lss (xs ! j) (xs ! i) then xs else heap_down lss (swap_at xs i j) j n))"
  by auto
termination
  by (relation "measure (\<lambda>(lss, xs, i, n). n - i)") (auto simp: smaller_child_def split: if_splits)

declare heap_up.simps [simp del] heap_down.simps [simp del]

definition heap_push :: "('a \<Rightarrow> 'a \<Rightarrow> bool) \<Rightarrow> 'a \<Rightarrow> 'a list \<Rightarrow> 'a list" where
  "heap_push lss x xs = heap_up lss (xs @ [x]) (length xs)"

definition heap_pop :: "('a \<Rightarrow> 'a \<Rightarrow> bool) \<Rightarrow> 'a list \<Rightarrow> 'a \<times> 'a list" where
  "heap_pop lss xs =
     (let n = length xs - 1; ys = heap_down lss (swap_at xs 0 n) 0 n in (last ys, butlast ys))"

section \<open>The contract of a minimum queue\<close>

locale min_queue =
  fixes push :: "'a \<Rightarrow> 'q \<Rightarrow> 'q" and pop :: "'q \<Rightarrow> 'a \<times> 'q" and items :: "'q \<Rightarrow> 'a multiset"
    and inv :: "'q \<Rightarrow> bool" and key :: "'a \<Rightarrow> 'k::linorder" and ok :: "'a \<Rightarrow> bool"
  assumes push_items: "inv q \<Longrightarrow> ok x \<Longrightarrow> items (push x q) = add_mset x (items q)"
    and push_inv: "inv q \<Longrightarrow> ok x \<Longrightarrow> inv (push x q)"
    and pop_items: "inv q \<Longrightarrow> items q \<noteq> {#} \<Longrightarrow> items q = add_mset (fst (pop q)) (items (snd (pop q)))"
    and pop_inv: "inv q \<Longrightarrow> items q \<noteq> {#} \<Longrightarrow> inv (snd (pop q))"
    and pop_least: "inv q \<Longrightarrow> items q \<noteq> {#} \<Longrightarrow> y \<in># items q \<Longrightarrow> key (fst (pop q)) \<le> key y"
begin

lemma pop_cases:
  assumes "inv q" "items q \<noteq> {#}"
  obtains x q' where "pop q = (x, q')" "items q = add_mset x (items q')" "inv q'"
    "\<And>y. y \<in># items q' \<Longrightarrow> key x \<le> key y"
proof (rule that)
  show "pop q = (fst (pop q), snd (pop q))" by simp
  show it: "items q = add_mset (fst (pop q)) (items (snd (pop q)))" by (rule pop_items [OF assms])
  show "inv (snd (pop q))" by (rule pop_inv [OF assms])
  show "key (fst (pop q)) \<le> key y" if "y \<in># items (snd (pop q))" for y
    by (rule pop_least [OF assms]) (subst it, simp add: that)
qed

lemma push_list:
  "inv q \<Longrightarrow> list_all ok xs \<Longrightarrow> inv (fold push xs q) \<and> items (fold push xs q) = items q + mset xs"
  by (induction xs arbitrary: q) (auto simp: push_inv push_items)

end

section \<open>The slice heap satisfies it\<close>

text \<open>
  \<open>lss\<close> compares keys of a linear order on the items that satisfy \<open>ok\<close>.
\<close>

definition keyed :: "('a \<Rightarrow> 'a \<Rightarrow> bool) \<Rightarrow> ('a \<Rightarrow> 'k::linorder) \<Rightarrow> ('a \<Rightarrow> bool) \<Rightarrow> bool" where
  "keyed lss key ok \<longleftrightarrow> (\<forall>x y. ok x \<longrightarrow> ok y \<longrightarrow> lss x y = (key x < key y))"

text \<open>Every entry but \<open>j\<close> is at least its parent, and what hangs below \<open>j\<close> at least what is above it.\<close>

definition heap_except_up :: "('a \<Rightarrow> 'k::linorder) \<Rightarrow> 'a list \<Rightarrow> nat \<Rightarrow> bool" where
  "heap_except_up key xs j \<longleftrightarrow>
     (\<forall>k < length xs. 0 < k \<longrightarrow>
        (k \<noteq> j \<longrightarrow> key (xs ! (heap_parent k)) \<le> key (xs ! k))
        \<and> (heap_parent k = j \<and> 0 < j \<longrightarrow> key (xs ! (heap_parent j)) \<le> key (xs ! k)))"

definition heap_except_down :: "('a \<Rightarrow> 'k::linorder) \<Rightarrow> 'a list \<Rightarrow> nat \<Rightarrow> nat \<Rightarrow> bool" where
  "heap_except_down key xs i n \<longleftrightarrow>
     (\<forall>k < n. 0 < k \<longrightarrow>
        (heap_parent k \<noteq> i \<longrightarrow> key (xs ! (heap_parent k)) \<le> key (xs ! k))
        \<and> (heap_parent k = i \<and> 0 < i \<longrightarrow> key (xs ! (heap_parent i)) \<le> key (xs ! k)))"

definition heap_first :: "('a \<Rightarrow> 'k::linorder) \<Rightarrow> 'a list \<Rightarrow> nat \<Rightarrow> bool" where
  "heap_first key xs n \<longleftrightarrow> (\<forall>k < n. 0 < k \<longrightarrow> key (xs ! (heap_parent k)) \<le> key (xs ! k))"

lemma heap_parent_less: "0 < k \<Longrightarrow> heap_parent k < k"
  by (simp add: heap_parent_def)

lemma heap_parent_bound: "j < n \<Longrightarrow> heap_parent j < n"
  by (simp add: heap_parent_def)

lemma heap_parent_0 [simp]: "heap_parent 0 = 0"
  by (simp add: heap_parent_def)

lemma heap_parent_fixed: "heap_parent j = j \<longleftrightarrow> j = 0"
  using heap_parent_less [of j] by (cases "j = 0") simp_all

lemma heap_children: "heap_parent k = i \<Longrightarrow> 0 < k \<Longrightarrow> k = 2 * i + 1 \<or> k = 2 * i + 2"
  unfolding heap_parent_def by presburger

lemma heap_parent_child [simp]: "heap_parent (2 * i + 1) = i" "heap_parent (2 * i + 2) = i"
  by (simp_all add: heap_parent_def)

lemma swap_at_nth:
  "i < length xs \<Longrightarrow> j < length xs \<Longrightarrow> k < length xs \<Longrightarrow>
   swap_at xs i j ! k = (if k = i then xs ! j else if k = j then xs ! i else xs ! k)"
  by (auto simp: swap_at_def nth_list_update)

lemma swap_at_mset [simp]: "i < length xs \<Longrightarrow> j < length xs \<Longrightarrow> mset (swap_at xs i j) = mset xs"
  by (simp add: swap_at_def mset_swap)

lemma swap_at_length [simp]: "length (swap_at xs i j) = length xs"
  by (simp add: swap_at_def)

lemma swap_at_set: "i < length xs \<Longrightarrow> j < length xs \<Longrightarrow> set (swap_at xs i j) = set xs"
  by (metis set_mset_mset swap_at_mset)

lemma heap_except_upD:
  assumes "heap_except_up key xs j" "k < length xs" "0 < k"
  shows "k \<noteq> j \<Longrightarrow> key (xs ! heap_parent k) \<le> key (xs ! k)"
    and "heap_parent k = j \<Longrightarrow> 0 < j \<Longrightarrow> key (xs ! heap_parent j) \<le> key (xs ! k)"
  using assms by (auto simp: heap_except_up_def)

lemma heap_up_swap:
  assumes "heap_except_up key xs j" "j < length xs" "0 < j" "key (xs ! j) < key (xs ! heap_parent j)"
  shows "heap_except_up key (swap_at xs (heap_parent j) j) (heap_parent j)"
  unfolding heap_except_up_def swap_at_length
proof (intro allI impI conjI)
  let ?i = "heap_parent j"
  let ?ys = "swap_at xs ?i j"
  have i: "?i < j" "?i < length xs" using assms(2,3) heap_parent_bound heap_parent_less by simp_all
  have ys: "?ys ! k = (if k = ?i then xs ! j else if k = j then xs ! ?i else xs ! k)" if "k < length xs" for k
    using swap_at_nth [OF i(2) assms(2) that] .
  fix k assume k: "k < length xs" "0 < k"
  have pk: "heap_parent k < k" "heap_parent k < length xs" using heap_parent_less [OF k(2)] k(1) by simp_all
  note H = heap_except_upD [OF assms(1) k]
  show "key (?ys ! heap_parent k) \<le> key (?ys ! k)" if "k \<noteq> ?i"
  proof (cases "k = j")
    case True
    then show ?thesis using assms(2,4) i by (simp add: ys)
  next
    case False
    note H1 = H(1) [OF False]
    consider "heap_parent k = ?i" | "heap_parent k = j" | "heap_parent k \<noteq> ?i" "heap_parent k \<noteq> j" by blast
    then show ?thesis
      using H1 H(2) assms(2,3,4) that False k pk i by cases (auto simp: ys)
  qed
  assume up: "heap_parent k = ?i \<and> 0 < ?i"
  then have pi: "heap_parent ?i < ?i" "heap_parent ?i < length xs" using heap_parent_less heap_parent_bound i by auto
  have above: "key (xs ! heap_parent ?i) \<le> key (xs ! ?i)"
    using heap_except_upD(1) [OF assms(1) i(2)] up i(1) by simp
  have "?ys ! heap_parent ?i = xs ! heap_parent ?i" using pi i by (simp add: ys)
  moreover have "key (xs ! ?i) \<le> key (?ys ! k)"
    using H(1) up pk k by (cases "k = j") (auto simp: ys)
  ultimately show "key (?ys ! heap_parent ?i) \<le> key (?ys ! k)" using above by simp
qed

lemma heap_up_correct:
  assumes "keyed lss key ok" "list_all ok xs" "j < length xs" "heap_except_up key xs j"
  shows "mset (heap_up lss xs j) = mset xs \<and> heap_first key (heap_up lss xs j) (length xs)"
  using assms
proof (induction lss xs j rule: heap_up.induct)
  case (1 lss xs j)
  let ?i = "heap_parent j"
  have ij: "?i < length xs" "j < length xs"
    using "1.prems"(3) heap_parent_bound by simp_all
  have "ok (xs ! j)" "ok (xs ! ?i)" using "1.prems"(2) ij by (simp_all add: list_all_length)
  then have cmp: "lss (xs ! j) (xs ! ?i) \<longleftrightarrow> key (xs ! j) < key (xs ! ?i)"
    using "1.prems"(1) by (simp add: keyed_def)
  show ?case
  proof (cases "?i = j \<or> \<not> lss (xs ! j) (xs ! ?i)")
    case True
    have "heap_first key xs (length xs)"
      unfolding heap_first_def
    proof (intro allI impI)
      fix k assume k: "k < length xs" "0 < k"
      show "key (xs ! heap_parent k) \<le> key (xs ! k)"
        using True cmp heap_except_upD(1) [OF "1.prems"(4) k] k heap_parent_fixed [of j]
        by (cases "k = j") (auto simp: not_less)
    qed
    with True show ?thesis by (subst (1 2) heap_up.simps) (simp add: Let_def)
  next
    case False
    let ?ys = "swap_at xs ?i j"
    have "0 < j" using False heap_parent_fixed [of j] by auto
    have "heap_except_up key ?ys ?i"
      by (rule heap_up_swap [OF "1.prems"(4) ij(2) \<open>0 < j\<close>]) (use False cmp in simp)
    moreover have "list_all ok ?ys" using "1.prems"(2) ij by (simp add: list_all_iff swap_at_set)
    ultimately have "mset (heap_up lss ?ys ?i) = mset ?ys \<and> heap_first key (heap_up lss ?ys ?i) (length ?ys)"
      using "1.IH" [OF refl False "1.prems"(1)] ij by simp
    with False ij show ?thesis by (subst (1 2) heap_up.simps) (simp add: Let_def)
  qed
qed

lemma heap_except_downD:
  assumes "heap_except_down key xs i n" "k < n" "0 < k"
  shows "heap_parent k \<noteq> i \<Longrightarrow> key (xs ! heap_parent k) \<le> key (xs ! k)"
    and "heap_parent k = i \<Longrightarrow> 0 < i \<Longrightarrow> key (xs ! heap_parent i) \<le> key (xs ! k)"
  using assms by (auto simp: heap_except_down_def)

lemma heap_down_swap:
  assumes "heap_except_down key xs i n" "n \<le> length xs" "j < n" "0 < j" "heap_parent j = i"
    and "key (xs ! j) < key (xs ! i)"
    and least: "\<And>k. heap_parent k = i \<Longrightarrow> 0 < k \<Longrightarrow> k < n \<Longrightarrow> key (xs ! j) \<le> key (xs ! k)"
  shows "heap_except_down key (swap_at xs i j) j n"
  unfolding heap_except_down_def
proof (intro allI impI conjI)
  let ?ys = "swap_at xs i j"
  have i: "i < j" "i < n" using heap_parent_less [OF assms(4)] assms(3,5) by simp_all
  have ys: "?ys ! k = (if k = i then xs ! j else if k = j then xs ! i else xs ! k)" if "k < n" for k
    using swap_at_nth [of i xs j k] i assms(2,3) that by simp
  fix k assume k: "k < n" "0 < k"
  have pk: "heap_parent k < k" "heap_parent k < n" using heap_parent_less [OF k(2)] k(1) by simp_all
  note H = heap_except_downD [OF assms(1) k]
  show "key (?ys ! heap_parent k) \<le> key (?ys ! k)" if "heap_parent k \<noteq> j"
  proof (cases "heap_parent k = i")
    case True
    with least [OF True k(2,1)] assms(3,6) pk i k show ?thesis
      by (cases "k = j") (auto simp: ys)
  next
    case other: False
    show ?thesis
    proof (cases "k = i")
      case True
      with heap_except_downD(2) [OF assms(1,3,4,5)] k pk i that other show ?thesis
        by (simp add: ys)
    next
      case False
      moreover have "k \<noteq> j" using other assms(5) by auto
      ultimately show ?thesis using other that H(1) k pk by (simp add: ys)
    qed
  qed
  assume kj: "heap_parent k = j \<and> 0 < j"
  then have "k \<noteq> i" "k \<noteq> j" "heap_parent k \<noteq> i" using pk i by auto
  with H(1) kj assms(5) show "key (?ys ! heap_parent j) \<le> key (?ys ! k)"
    using k i by (simp add: ys)
qed

lemma smaller_child_props:
  assumes "2 * i + 1 < n"
  shows "smaller_child lss xs i n < n" "heap_parent (smaller_child lss xs i n) = i" "0 < smaller_child lss xs i n"
    and "smaller_child lss xs i n \<noteq> i"
  using assms heap_parent_child [of i] by (simp_all add: smaller_child_def)

lemma heap_down_correct:
  assumes "keyed lss key ok" "list_all ok xs" "i < n" "n \<le> length xs" "heap_except_down key xs i n"
  shows "mset (heap_down lss xs i n) = mset xs \<and> heap_first key (heap_down lss xs i n) n
    \<and> drop n (heap_down lss xs i n) = drop n xs"
  using assms
proof (induction lss xs i n rule: heap_down.induct)
  case (1 lss xs i n)
  have ok: "ok (xs ! k)" if "k < n" for k using "1.prems"(2,4) that by (simp add: list_all_length)
  have cmp: "lss (xs ! a) (xs ! b) \<longleftrightarrow> key (xs ! a) < key (xs ! b)" if "a < n" "b < n" for a b
    using "1.prems"(1) ok that by (simp add: keyed_def)
  let ?j = "smaller_child lss xs i n"
  have inside: "heap_first key xs n" if "\<And>k. heap_parent k = i \<Longrightarrow> 0 < k \<Longrightarrow> k < n \<Longrightarrow> key (xs ! i) \<le> key (xs ! k)"
    unfolding heap_first_def
  proof (intro allI impI)
    fix k assume k: "k < n" "0 < k"
    show "key (xs ! heap_parent k) \<le> key (xs ! k)"
      using heap_except_downD(1) [OF "1.prems"(5) k] that [of k] k by (cases "heap_parent k = i") simp_all
  qed
  show ?case
  proof (cases "2 * i + 1 \<ge> n")
    case True
    then have "heap_first key xs n" by (intro inside) (drule heap_children; simp)
    with True show ?thesis by (subst (1 2 3) heap_down.simps) simp
  next
    case inner: False
    note j = smaller_child_props [of i n lss xs]
    have least: "key (xs ! ?j) \<le> key (xs ! k)" if "heap_parent k = i" "0 < k" "k < n" for k
      using heap_children [OF that(1,2)] that(3) inner cmp [of "2 * i + 2" "2 * i + 1"]
      by (auto simp: smaller_child_def)
    show ?thesis
    proof (cases "lss (xs ! ?j) (xs ! i)")
      case False
      then have "key (xs ! i) \<le> key (xs ! ?j)" using cmp j inner "1.prems"(3) by auto
      then have "heap_first key xs n" by (intro inside) (rule order_trans [OF _ least])
      with False inner show ?thesis by (subst (1 2 3) heap_down.simps) (simp add: Let_def)
    next
      case True
      then have lt: "key (xs ! ?j) < key (xs ! i)" using cmp j inner "1.prems"(3) by auto
      let ?ys = "swap_at xs i ?j"
      have len: "i < length xs" "?j < length xs" using "1.prems"(3,4) j inner by auto
      have "heap_except_down key ?ys ?j n"
        using heap_down_swap [OF "1.prems"(5,4) _ _ _ lt least] j inner by simp
      moreover have "list_all ok ?ys" using "1.prems"(2) len by (simp add: list_all_iff swap_at_set)
      ultimately have "mset (heap_down lss ?ys ?j n) = mset ?ys \<and> heap_first key (heap_down lss ?ys ?j n) n
          \<and> drop n (heap_down lss ?ys ?j n) = drop n ?ys"
        using "1.IH" [OF inner refl _ "1.prems"(1)] True "1.prems"(4) j inner by simp
      moreover have "drop n ?ys = drop n xs" using j inner "1.prems"(3) by (simp add: swap_at_def)
      ultimately show ?thesis
        using True inner len by (subst (1 2 3) heap_down.simps) (simp add: Let_def)
    qed
  qed
qed

section \<open>Push and pop\<close>

definition heap_ok :: "('a \<Rightarrow> 'k::linorder) \<Rightarrow> ('a \<Rightarrow> bool) \<Rightarrow> 'a list \<Rightarrow> bool" where
  "heap_ok key ok xs \<longleftrightarrow> list_all ok xs \<and> heap_first key xs (length xs)"

lemma heap_push_correct:
  assumes "keyed lss key ok" "heap_ok key ok xs" "ok x"
  shows "mset (heap_push lss x xs) = add_mset x (mset xs) \<and> heap_ok key ok (heap_push lss x xs)"
proof -
  have "heap_except_up key (xs @ [x]) (length xs)"
    unfolding heap_except_up_def
  proof (intro allI impI conjI)
    fix k assume k: "k < length (xs @ [x])" "0 < k"
    then have pk: "heap_parent k < length xs" using heap_parent_less [of k] by simp
    show "key ((xs @ [x]) ! heap_parent k) \<le> key ((xs @ [x]) ! k)" if "k \<noteq> length xs"
      using assms(2) k that pk by (simp add: heap_ok_def heap_first_def nth_append)
    show "key ((xs @ [x]) ! heap_parent (length xs)) \<le> key ((xs @ [x]) ! k)"
      if "heap_parent k = length xs \<and> 0 < length xs" using that pk by simp
  qed
  then have "mset (heap_push lss x xs) = mset (xs @ [x]) \<and> heap_first key (heap_push lss x xs) (length (xs @ [x]))"
    unfolding heap_push_def using assms by (intro heap_up_correct [where ok = ok]) (simp_all add: heap_ok_def)
  moreover from this have "length (heap_push lss x xs) = length (xs @ [x])" "set (heap_push lss x xs) = set (xs @ [x])"
    by (metis size_mset, metis set_mset_mset)
  ultimately show ?thesis using assms(2,3) by (simp add: heap_ok_def list_all_iff)
qed

lemma heap_root_least:
  assumes "heap_first key xs n" "k < n"
  shows "key (xs ! 0) \<le> key (xs ! k)"
  using assms(2)
proof (induction k rule: less_induct)
  case (less k)
  show ?case
  proof (cases "k = 0")
    case False
    then have "key (xs ! 0) \<le> key (xs ! heap_parent k)" using less.IH [of "heap_parent k"] less.prems heap_parent_bound heap_parent_less by simp
    also have "\<dots> \<le> key (xs ! k)" using assms(1) less.prems False by (simp add: heap_first_def)
    finally show ?thesis .
  qed simp
qed

lemma heap_pop_correct:
  assumes "keyed lss key ok" "heap_ok key ok xs" "xs \<noteq> []"
  shows "mset xs = add_mset (fst (heap_pop lss xs)) (mset (snd (heap_pop lss xs)))"
    and "heap_ok key ok (snd (heap_pop lss xs))"
    and "fst (heap_pop lss xs) = xs ! 0"
proof -
  let ?n = "length xs - 1"
  let ?ys = "swap_at xs 0 ?n"
  let ?zs = "heap_down lss ?ys 0 ?n"
  have len: "0 < length xs" "?n < length xs" "length xs = Suc ?n" using assms(3) by (cases xs; simp)+
  have ys: "?ys ! k = (if k = 0 then xs ! ?n else if k = ?n then xs ! 0 else xs ! k)" if "k < length xs" for k
    using swap_at_nth [OF len(1,2) that] .
  have mset: "mset ?ys = mset xs" using len by simp
  have ok: "list_all ok ?ys" using assms(2) len by (simp add: heap_ok_def list_all_iff swap_at_set)
  have down: "mset ?zs = mset ?ys \<and> heap_first key ?zs ?n \<and> drop ?n ?zs = drop ?n ?ys"
  proof (cases "?n = 0")
    case True
    then show ?thesis by (subst (1 2 3) heap_down.simps) (simp add: heap_first_def)
  next
    case False
    have "heap_except_down key ?ys 0 ?n"
      unfolding heap_except_down_def
    proof (intro allI impI conjI)
      fix k assume k: "k < ?n" "0 < k"
      show "key (?ys ! heap_parent k) \<le> key (?ys ! k)" if "heap_parent k \<noteq> 0"
        using assms(2) k that heap_parent_bound [OF k(1)] ys [of k] ys [of "heap_parent k"]
        by (auto simp: heap_ok_def heap_first_def)
    qed simp
    with False show ?thesis using heap_down_correct [OF assms(1) ok, of 0 ?n] len by simp
  qed
  have zlen: "length ?zs = Suc ?n" using down mset len(3) by (metis size_mset)
  then have split: "?zs = butlast ?zs @ [last ?zs]" by (cases ?zs rule: rev_cases) simp_all
  have "drop ?n ?zs = [last ?zs]" using zlen by (subst split, simp add: butlast_conv_take)
  moreover have "drop ?n ?ys = [?ys ! ?n]"
    using len Cons_nth_drop_Suc [of ?n ?ys] by simp
  ultimately have last: "last ?zs = ?ys ! ?n" using down by simp
  then show top: "fst (heap_pop lss xs) = xs ! 0" using ys [OF len(2)] by (simp add: heap_pop_def Let_def)
  have "mset ?zs = add_mset (last ?zs) (mset (butlast ?zs))" by (subst split) simp
  then show "mset xs = add_mset (fst (heap_pop lss xs)) (mset (snd (heap_pop lss xs)))"
    using down mset by (simp add: heap_pop_def Let_def)
  have "heap_first key (butlast ?zs) ?n"
    using down zlen heap_parent_bound by (simp add: heap_first_def nth_butlast)
  moreover have "set (butlast ?zs) \<subseteq> set ?ys"
    using down by (metis in_set_butlastD mset_eq_setD subsetI)
  ultimately show "heap_ok key ok (snd (heap_pop lss xs))"
    using ok zlen by (auto simp: heap_pop_def Let_def heap_ok_def list_all_iff)
qed

lemma heap_min_queue:
  "keyed lss key ok \<Longrightarrow> min_queue (heap_push lss) (heap_pop lss) mset (heap_ok key ok) key ok"
proof
  assume keyed: "keyed lss key ok"
  fix q x assume inv: "heap_ok key ok q"
  show "ok x \<Longrightarrow> mset (heap_push lss x q) = add_mset x (mset q)" "ok x \<Longrightarrow> heap_ok key ok (heap_push lss x q)"
    using heap_push_correct [OF keyed inv] by simp_all
  assume "mset q \<noteq> {#}"
  then have "q \<noteq> []" by simp
  note pop = heap_pop_correct [OF keyed inv this]
  show "mset q = add_mset (fst (heap_pop lss q)) (mset (snd (heap_pop lss q)))" "heap_ok key ok (snd (heap_pop lss q))"
    by (rule pop)+
  fix y assume "y \<in># mset q"
  then obtain k where "k < length q" "y = q ! k" by (metis in_set_conv_nth set_mset_mset)
  with heap_root_least [of key q "length q" k] inv pop(3) show "key (fst (heap_pop lss q)) \<le> key y"
    by (simp add: heap_ok_def)
qed

end
