(* ===== verification/Routing.thy ===== *)
theory Routing
  imports ContainerHeap DbNames MapTiles "HOL-Library.AList" "HOL-Library.Product_Lexorder"
begin

text \<open>
  Shortest routes over an imported graph (\<^verbatim>\<open>routing.go\<close>): loading the graph, resolving the end points,
  Dijkstra's algorithm on \<^verbatim>\<open>container/heap\<close>, the cost fields, the reconstruction of the path and the
  two endpoints.

  A \<^verbatim>\<open>float64\<close> is a \<open>float_value\<close>; the rounding of sums, \<^verbatim>\<open>strconv.ParseFloat\<close>, the haversine formula
  (trigonometry of \<^verbatim>\<open>math\<close>), \<^verbatim>\<open>json.Unmarshal\<close> and \<^verbatim>\<open>fmt.Sprint\<close> are parameters (\<open>routing_env\<close>).
  The GeoJSON rendering of a result is left out.
\<close>

section \<open>Floats\<close>

record routing_env =
  re_parse :: "string \<Rightarrow> float_value option"
  re_round :: "rat \<Rightarrow> float_value"
  re_haversine :: "float_value \<Rightarrow> float_value \<Rightarrow> float_value \<Rightarrow> float_value \<Rightarrow> float_value"
  re_properties :: "string \<Rightarrow> (string \<times> json) list option"
  re_print :: "json \<Rightarrow> string"

fun float_add :: "routing_env \<Rightarrow> float_value \<Rightarrow> float_value \<Rightarrow> float_value" where
  "float_add env (Finite a) (Finite b) = re_round env (a + b)"
| "float_add env Pos_Inf (Finite b) = Pos_Inf"
| "float_add env (Finite a) Pos_Inf = Pos_Inf"
| "float_add env Pos_Inf Pos_Inf = Pos_Inf"
| "float_add env Neg_Inf (Finite b) = Neg_Inf"
| "float_add env (Finite a) Neg_Inf = Neg_Inf"
| "float_add env Neg_Inf Neg_Inf = Neg_Inf"
| "float_add env _ _ = Not_A_Number"

definition float_equal :: "float_value \<Rightarrow> float_value \<Rightarrow> bool" where
  "float_equal a b \<longleftrightarrow> a = b \<and> a \<noteq> Not_A_Number"

definition is_finite_float :: "float_value \<Rightarrow> bool" where
  "is_finite_float v = (case v of Finite _ \<Rightarrow> True | _ \<Rightarrow> False)"

text \<open>\<open>None\<close> is \<^verbatim>\<open>0, false\<close>.\<close>

definition routing_float :: "routing_env \<Rightarrow> string \<Rightarrow> float_value option" where
  "routing_float env raw =
     (case re_parse env (trim_space raw) of
        None \<Rightarrow> None
      | Some v \<Rightarrow> if is_finite_float v then Some v else None)"

section \<open>The graph\<close>

record routing_node =
  rn_id :: string
  rn_lon :: float_value
  rn_lat :: float_value
  rn_has_coordinate :: bool

record routing_edge =
  ed_id :: string
  ed_from :: string
  ed_to :: string
  ed_cost :: "float_value option"
  ed_distance :: "float_value option"
  ed_properties :: "(string \<times> json) list option"

record routing_arc =
  arc_from :: string
  arc_to :: string
  arc_edge :: routing_edge
  arc_reverse :: bool

text \<open>\<^verbatim>\<open>graph.Arcs[u]\<close> is the sublist of the arcs that start at \<open>u\<close>.\<close>

record routing_graph =
  g_nodes :: "(string \<times> routing_node) list"
  g_arcs :: "routing_arc list"

definition arcs_from :: "routing_graph \<Rightarrow> string \<Rightarrow> routing_arc list" where
  "arcs_from g u = filter (\<lambda>a. arc_from a = u) (g_arcs g)"

definition max_routing_graph_rows :: int where "max_routing_graph_rows = 250000"

text \<open>One row of the table; \<^verbatim>\<open>NULL\<close> reads as the empty string.\<close>

record routing_row =
  rr_record_type :: string
  rr_id :: string
  rr_from_id :: string
  rr_to_id :: string
  rr_lat :: string
  rr_lon :: string
  rr_cost :: string
  rr_distance :: string
  rr_properties :: string

definition in_bounds :: "int \<Rightarrow> float_value \<Rightarrow> bool" where
  "in_bounds bound v \<longleftrightarrow> \<not> float_less v (Finite (of_int (- bound))) \<and> \<not> float_less (Finite (of_int bound)) v
     \<and> v \<noteq> Not_A_Number"

definition float_or_zero :: "float_value option \<Rightarrow> float_value" where
  "float_or_zero v = (case v of None \<Rightarrow> Finite 0 | Some v \<Rightarrow> v)"

definition routing_node_of_row :: "routing_env \<Rightarrow> routing_row \<Rightarrow> routing_node" where
  "routing_node_of_row env r =
     (let lon = routing_float env (rr_lon r); lat = routing_float env (rr_lat r) in
      \<lparr>rn_id = trim_space (rr_id r), rn_lon = float_or_zero lon, rn_lat = float_or_zero lat,
       rn_has_coordinate = (lon \<noteq> None \<and> lat \<noteq> None \<and> in_bounds 180 (float_or_zero lon) \<and> in_bounds 90 (float_or_zero lat))\<rparr>)"

definition add_routing_row ::
    "routing_env \<Rightarrow> routing_row \<Rightarrow> (string \<times> routing_node) list \<times> routing_edge list \<Rightarrow>
     (string \<times> routing_node) list \<times> routing_edge list" where
  "add_routing_row env r st =
     (let kind = to_lower (trim_space (rr_record_type r)) in
      if kind = ''node'' then
        (if trim_space (rr_id r) = [] then st
         else (AList.update (trim_space (rr_id r)) (routing_node_of_row env r) (fst st), snd st))
      else if kind = ''edge'' \<or> kind = ''link'' then
        (let from_id = trim_space (rr_from_id r); to_id = trim_space (rr_to_id r) in
         if from_id = [] \<or> to_id = [] then st
         else (fst st, snd st @
           [\<lparr>ed_id = trim_space (rr_id r), ed_from = from_id, ed_to = to_id,
             ed_cost = routing_float env (rr_cost r), ed_distance = routing_float env (rr_distance r),
             ed_properties = re_properties env (rr_properties r)\<rparr>]))
      else st)"

definition arcs_of_edge :: "bool \<Rightarrow> (string \<times> routing_node) list \<Rightarrow> routing_edge \<Rightarrow> routing_arc list" where
  "arcs_of_edge directed nodes e =
     (if map_of nodes (ed_from e) = None \<or> map_of nodes (ed_to e) = None then []
      else \<lparr>arc_from = ed_from e, arc_to = ed_to e, arc_edge = e, arc_reverse = False\<rparr>
           # (if directed then []
              else [\<lparr>arc_from = ed_to e, arc_to = ed_from e, arc_edge = e, arc_reverse = True\<rparr>]))"

text \<open>\<open>rows\<close> is what the query yields, \<open>None\<close> where it fails.\<close>

definition load_routing_graph ::
    "routing_env \<Rightarrow> string \<Rightarrow> bool option \<Rightarrow> routing_row list option \<Rightarrow> string + routing_graph" where
  "load_routing_graph env table directed rows =
     (if \<not> is_valid_identifier table \<or> is_data_dock_system_object table then Inl ''invalid routing table''
      else (case rows of
          None \<Rightarrow> Inl ''query failed''
        | Some rs \<Rightarrow>
            if int (length rs) > max_routing_graph_rows then Inl ''routing graph exceeds the row limit''
            else (case fold (add_routing_row env) rs ([], []) of (nodes, edges) \<Rightarrow>
              if nodes = [] \<or> edges = [] then Inl ''no usable routing nodes and edges''
              else (let arcs = concat (map (arcs_of_edge (case directed of None \<Rightarrow> True | Some d \<Rightarrow> d) nodes) edges) in
                if arcs = [] then Inl ''routing edges do not reference imported nodes''
                else Inr \<lparr>g_nodes = nodes, g_arcs = arcs\<rparr>))))"

section \<open>End points\<close>

text \<open>The nearest node; Go iterates over the map of nodes in any order, the model over the list.\<close>

definition closest_step ::
    "routing_env \<Rightarrow> float_value \<Rightarrow> float_value \<Rightarrow> string \<times> routing_node \<Rightarrow> string \<times> float_value \<Rightarrow> string \<times> float_value" where
  "closest_step env lon lat kn best =
     (if \<not> rn_has_coordinate (snd kn) then best
      else (let d = re_haversine env lon lat (rn_lon (snd kn)) (rn_lat (snd kn)) in
        if float_less d (snd best) then (fst kn, d) else best))"

definition resolve_routing_node ::
    "routing_env \<Rightarrow> routing_graph \<Rightarrow> string \<Rightarrow> float_value option \<Rightarrow> float_value option \<Rightarrow> string + string" where
  "resolve_routing_node env g raw lon lat =
     (let nid = trim_space raw in
      if nid \<noteq> [] then (if map_of (g_nodes g) nid \<noteq> None then Inr nid else Inl ''node does not exist'')
      else (case (lon, lat) of
          (Some x, Some y) \<Rightarrow>
            if float_less x (Finite (- 180)) \<or> float_less (Finite 180) x
               \<or> float_less y (Finite (- 90)) \<or> float_less (Finite 90) y
            then Inl ''provide a node id or valid longitude and latitude''
            else (let best = fold (closest_step env x y) (g_nodes g) ([], Pos_Inf) in
              if fst best = [] then Inl ''graph has no nodes with coordinates'' else Inr (fst best))
        | _ \<Rightarrow> Inl ''provide a node id or valid longitude and latitude''))"

section \<open>Costs\<close>

definition routing_cost_field_name :: "string \<Rightarrow> string" where
  "routing_cost_field_name raw =
     (let field = trim_space raw in
      if field = [] then ''cost''
      else if equal_fold field ''cost'' then ''cost''
      else if equal_fold field ''distance'' then ''distance''
      else if length field > 11 \<and> equal_fold (take 11 field) ''properties.''
      then ''properties.'' @ trim_space (drop 11 field)
      else ''properties.'' @ field)"

definition routing_numeric_property ::
    "routing_env \<Rightarrow> (string \<times> json) list option \<Rightarrow> string \<Rightarrow> float_value option" where
  "routing_numeric_property env props key =
     (case props of
        None \<Rightarrow> None
      | Some ps \<Rightarrow>
          (case map_of ps key of
             None \<Rightarrow> None
           | Some (J_Number s) \<Rightarrow>
               (case re_parse env s of None \<Rightarrow> None | Some v \<Rightarrow> if is_finite_float v then Some v else None)
           | Some (J_String s) \<Rightarrow> routing_float env s
           | Some v \<Rightarrow> routing_float env (re_print env v)))"

definition arc_distance :: "routing_env \<Rightarrow> routing_graph \<Rightarrow> routing_arc \<Rightarrow> float_value option" where
  "arc_distance env g a =
     (case (map_of (g_nodes g) (arc_from a), map_of (g_nodes g) (arc_to a)) of
        (Some x, Some y) \<Rightarrow>
          if rn_has_coordinate x \<and> rn_has_coordinate y
          then Some (re_haversine env (rn_lon x) (rn_lat x) (rn_lon y) (rn_lat y)) else None
      | _ \<Rightarrow> None)"

definition trim_prefix :: "string \<Rightarrow> string \<Rightarrow> string" where
  "trim_prefix p s = (if prefix p s then drop (length p) s else s)"

definition or_distance :: "routing_env \<Rightarrow> routing_graph \<Rightarrow> routing_arc \<Rightarrow> float_value option \<Rightarrow> string + float_value" where
  "or_distance env g a v =
     (case v of
        Some c \<Rightarrow> Inr c
      | None \<Rightarrow> (case arc_distance env g a of Some d \<Rightarrow> Inr d | None \<Rightarrow> Inl ''edge has no cost or geometric distance''))"

definition arc_cost :: "routing_env \<Rightarrow> routing_graph \<Rightarrow> string \<Rightarrow> routing_arc \<Rightarrow> string + float_value" where
  "arc_cost env g raw a =
     (let field = routing_cost_field_name raw in
      if field = ''cost'' then or_distance env g a (ed_cost (arc_edge a))
      else if field = ''distance'' then or_distance env g a (ed_distance (arc_edge a))
      else (case routing_numeric_property env (ed_properties (arc_edge a)) (trim_prefix ''properties.'' field) of
          Some v \<Rightarrow> Inr v
        | None \<Rightarrow> Inl ''edge has no numeric property''))"

section \<open>Dijkstra's algorithm\<close>

type_synonym queue_item = "string \<times> float_value"

definition item_less :: "queue_item \<Rightarrow> queue_item \<Rightarrow> bool" where
  "item_less a b = float_less (snd a) (snd b)"

record search =
  se_dist :: "string \<Rightarrow> float_value option"
  se_pred :: "string \<Rightarrow> (string \<times> routing_arc) option"
  se_queue :: "queue_item list"

definition start_search :: "string \<Rightarrow> search" where
  "start_search start =
     \<lparr>se_dist = [start \<mapsto> Finite 0], se_pred = (\<lambda>_. None), se_queue = [(start, Finite 0)]\<rparr>"

text \<open>\<open>limited m c\<close>: there is a positive maximum and the cost exceeds it.\<close>

definition limited :: "float_value \<Rightarrow> float_value \<Rightarrow> bool" where
  "limited maxc c \<longleftrightarrow> float_less (Finite 0) maxc \<and> float_less maxc c"

definition relax_arc ::
    "routing_env \<Rightarrow> float_value \<Rightarrow> float_value \<Rightarrow> routing_arc \<Rightarrow> float_value \<Rightarrow> search \<Rightarrow> search" where
  "relax_arc env maxc current a weight se =
     (let nxt = float_add env current weight in
      if limited maxc nxt then se
      else if (case se_dist se (arc_to a) of None \<Rightarrow> True | Some known \<Rightarrow> float_less nxt known)
      then \<lparr>se_dist = (se_dist se)(arc_to a \<mapsto> nxt), se_pred = (se_pred se)(arc_to a \<mapsto> (arc_from a, a)),
            se_queue = heap_push item_less (arc_to a, nxt) (se_queue se)\<rparr>
      else se)"

fun relax_arcs ::
    "routing_env \<Rightarrow> routing_graph \<Rightarrow> string \<Rightarrow> float_value \<Rightarrow> float_value \<Rightarrow> routing_arc list \<Rightarrow> search \<Rightarrow> string + search" where
  "relax_arcs env g field maxc current [] se = Inr se"
| "relax_arcs env g field maxc current (a # as) se =
     (case arc_cost env g field a of
        Inl e \<Rightarrow> Inl e
      | Inr w \<Rightarrow>
          if float_less w (Finite 0) then Inl ''negative edge cost is not supported''
          else relax_arcs env g field maxc current as (relax_arc env maxc current a w se))"

text \<open>
  The main loop; \<open>None\<close> when the fuel runs out, which does not happen with the fuel that
  \<open>shortest_paths\<close> gives.  A stale entry, whose cost is not the known distance, is skipped.
\<close>

fun search_loop ::
    "routing_env \<Rightarrow> routing_graph \<Rightarrow> string \<Rightarrow> float_value \<Rightarrow> nat \<Rightarrow> search \<Rightarrow> (string + search) option" where
  "search_loop env g field maxc 0 se = None"
| "search_loop env g field maxc (Suc fuel) se =
     (if se_queue se = [] then Some (Inr se)
      else (case heap_pop item_less (se_queue se) of ((node, cost), q) \<Rightarrow>
        (let se' = se\<lparr>se_queue := q\<rparr> in
         if \<not> float_equal cost (case se_dist se node of None \<Rightarrow> Finite 0 | Some d \<Rightarrow> d)
         then search_loop env g field maxc fuel se'
         else if limited maxc cost then search_loop env g field maxc fuel se'
         else (case relax_arcs env g field maxc cost (arcs_from g node) se' of
             Inl e \<Rightarrow> Some (Inl e)
           | Inr se'' \<Rightarrow> search_loop env g field maxc fuel se''))))"

definition shortest_paths ::
    "routing_env \<Rightarrow> routing_graph \<Rightarrow> string \<Rightarrow> string \<Rightarrow> float_value \<Rightarrow> (string + search) option" where
  "shortest_paths env g start field maxc =
     search_loop env g field maxc (length (g_arcs g) + 2) (start_search start)"

text \<open>Walking back from the destination; the accumulated lists are the reversed ones of the code.\<close>

fun reconstruct_path ::
    "nat \<Rightarrow> (string \<Rightarrow> (string \<times> routing_arc) option) \<Rightarrow> string \<Rightarrow> string \<Rightarrow> string list \<Rightarrow> routing_arc list \<Rightarrow>
     (string + string list \<times> routing_arc list) option" where
  "reconstruct_path 0 preds start current nodes arcs = None"
| "reconstruct_path (Suc fuel) preds start current nodes arcs =
     (if current = start then Some (Inr (nodes, arcs))
      else (case preds current of
          None \<Rightarrow> Some (Inl ''path is incomplete'')
        | Some (p, a) \<Rightarrow> reconstruct_path fuel preds start p (p # nodes) (a # arcs)))"

section \<open>The endpoints\<close>

record routing_request =
  rt_from_id :: string
  rt_to_id :: string
  rt_from_lon :: "float_value option"
  rt_from_lat :: "float_value option"
  rt_to_lon :: "float_value option"
  rt_to_lat :: "float_value option"
  rt_cost_field :: string
  rt_directed :: "bool option"
  rt_max_cost :: float_value

datatype routing_answer =
  Route_Problem nat string
| Route_Found string string "string list" "routing_arc list" float_value float_value string
| Reachable string string float_value "string \<Rightarrow> float_value option"
| Route_Out_Of_Fuel

definition route_distance :: "routing_env \<Rightarrow> routing_graph \<Rightarrow> routing_arc list \<Rightarrow> float_value" where
  "route_distance env g arcs =
     foldl (\<lambda>d a. case ed_distance (arc_edge a) of
         Some v \<Rightarrow> float_add env d v
       | None \<Rightarrow> (case arc_distance env g a of Some v \<Rightarrow> float_add env d v | None \<Rightarrow> d)) (Finite 0) arcs"

definition route_answer :: "routing_env \<Rightarrow> routing_graph \<Rightarrow> routing_request \<Rightarrow> string \<Rightarrow> routing_answer" where
  "route_answer env g rq start =
     (case resolve_routing_node env g (rt_to_id rq) (rt_to_lon rq) (rt_to_lat rq) of
        Inl _ \<Rightarrow> Route_Problem 400 ''Invalid destination''
      | Inr dest \<Rightarrow>
          (case shortest_paths env g start (rt_cost_field rq) (Finite 0) of
             None \<Rightarrow> Route_Out_Of_Fuel
           | Some (Inl _) \<Rightarrow> Route_Problem 400 ''Invalid cost field''
           | Some (Inr se) \<Rightarrow>
               (case se_dist se dest of
                  None \<Rightarrow> Route_Problem 404 ''No route''
                | Some cost \<Rightarrow>
                    (case reconstruct_path (length (g_arcs g) + 2) (se_pred se) start dest [dest] [] of
                       None \<Rightarrow> Route_Out_Of_Fuel
                     | Some (Inl _) \<Rightarrow> Route_Problem 500 ''Route reconstruction failed''
                     | Some (Inr (nodes, arcs)) \<Rightarrow>
                         Route_Found start dest nodes arcs cost (route_distance env g arcs)
                           (routing_cost_field_name (rt_cost_field rq))))))"

definition reachable_answer :: "routing_env \<Rightarrow> routing_graph \<Rightarrow> routing_request \<Rightarrow> string \<Rightarrow> routing_answer" where
  "reachable_answer env g rq start =
     (if \<not> float_less (Finite 0) (rt_max_cost rq) \<or> \<not> is_finite_float (rt_max_cost rq)
      then Route_Problem 400 ''Invalid maximum cost''
      else (case shortest_paths env g start (rt_cost_field rq) (rt_max_cost rq) of
          None \<Rightarrow> Route_Out_Of_Fuel
        | Some (Inl _) \<Rightarrow> Route_Problem 400 ''Invalid cost field''
        | Some (Inr se) \<Rightarrow>
            Reachable start (routing_cost_field_name (rt_cost_field rq)) (rt_max_cost rq) (se_dist se)))"

definition handle_routing_api ::
    "routing_env \<Rightarrow> bool \<Rightarrow> string \<Rightarrow> routing_row list option \<Rightarrow> bool \<Rightarrow> routing_request option \<Rightarrow> routing_answer" where
  "handle_routing_api env on_tinysql table rows reachable body =
     (if \<not> on_tinysql then Route_Problem 400 ''Unsupported connection''
      else (case body of
          None \<Rightarrow> Route_Problem 400 ''Invalid JSON''
        | Some rq \<Rightarrow>
            (case load_routing_graph env table (rt_directed rq) rows of
               Inl _ \<Rightarrow> Route_Problem 400 ''Routing graph unavailable''
             | Inr g \<Rightarrow>
                 (case resolve_routing_node env g (rt_from_id rq) (rt_from_lon rq) (rt_from_lat rq) of
                    Inl _ \<Rightarrow> Route_Problem 400 ''Invalid origin''
                  | Inr start \<Rightarrow>
                      if reachable then reachable_answer env g rq start else route_answer env g rq start))))"

end
