(* ===== verification/RoutingCorrect.thy ===== *)
theory RoutingCorrect
  imports Routing
begin

text \<open>
  Correctness of the route search: the distances are exactly the least costs of the routes of the
  graph, in the floating-point arithmetic of the program; the search and the reconstruction end
  within their fuel; a failure points at a real edge.
\<close>

section \<open>The order of floats\<close>

definition float_key :: "float_value \<Rightarrow> nat \<times> rat" where
  "float_key v = (case v of Neg_Inf \<Rightarrow> (0, 0) | Finite a \<Rightarrow> (1, a) | Pos_Inf \<Rightarrow> (2, 0) | Not_A_Number \<Rightarrow> (3, 0))"

definition number :: "float_value \<Rightarrow> bool" where
  "number v \<longleftrightarrow> v \<noteq> Not_A_Number"

named_theorems float_simps

lemma float_less_key [float_simps]: "number a \<Longrightarrow> number b \<Longrightarrow> float_less a b \<longleftrightarrow> float_key a < float_key b"
  by (cases a; cases b) (auto simp: number_def float_key_def)

lemma float_key_inj [float_simps]: "float_key a = float_key b \<longleftrightarrow> a = b"
  by (cases a; cases b) (auto simp: float_key_def)

text \<open>
  What IEEE rounding guarantees: it is monotone, yields numbers, and leaves what is already rounded
  as it is.
\<close>

definition rounding_laws :: "routing_env \<Rightarrow> bool" where
  "rounding_laws env \<longleftrightarrow>
     (\<forall>a. number (re_round env a))
     \<and> (\<forall>a b. a \<le> b \<longrightarrow> float_key (re_round env a) \<le> float_key (re_round env b))
     \<and> (\<forall>a b. re_round env a = Finite b \<longrightarrow> re_round env b = Finite b)
     \<and> re_round env 0 = Finite 0"

text \<open>Costs a search adds up: numbers from zero on that are representable.\<close>

definition cost_value :: "routing_env \<Rightarrow> float_value \<Rightarrow> bool" where
  "cost_value env c \<longleftrightarrow> (case c of Finite x \<Rightarrow> 0 \<le> x \<and> re_round env x = Finite x | Pos_Inf \<Rightarrow> True | _ \<Rightarrow> False)"

lemma cost_value_number [float_simps]: "cost_value env c \<Longrightarrow> number c"
  by (auto simp: cost_value_def number_def split: float_value.splits)

lemma cost_value_zero: "rounding_laws env \<Longrightarrow> cost_value env (Finite 0)"
  by (simp add: cost_value_def rounding_laws_def)

lemma round_nonneg:
  assumes "rounding_laws env" "0 \<le> x"
  shows "cost_value env (re_round env x)"
proof -
  have "float_key (re_round env 0) \<le> float_key (re_round env x)" "number (re_round env x)"
    "\<And>b. re_round env x = Finite b \<Longrightarrow> re_round env b = Finite b" "re_round env 0 = Finite 0"
    using assms unfolding rounding_laws_def by blast+
  then show ?thesis
    by (cases "re_round env x") (auto simp: cost_value_def number_def float_key_def less_eq_prod_def)
qed

lemma add_cost:
  assumes "rounding_laws env" "cost_value env c" "0 \<le> v"
  shows "cost_value env (float_add env c (Finite v)) \<and> float_key c \<le> float_key (float_add env c (Finite v))"
proof (cases c)
  case (Finite x)
  with assms have x: "0 \<le> x" "re_round env x = Finite x" by (auto simp: cost_value_def)
  moreover have "float_key (re_round env x) \<le> float_key (re_round env (x + v))"
    using assms by (simp add: rounding_laws_def)
  ultimately show ?thesis using round_nonneg [OF assms(1), of "x + v"] assms(3) Finite by simp
qed (use assms in \<open>auto simp: cost_value_def\<close>)

lemma add_mono:
  assumes "rounding_laws env" "cost_value env c" "cost_value env c'" "float_key c \<le> float_key c'" "0 \<le> v"
  shows "float_key (float_add env c (Finite v)) \<le> float_key (float_add env c' (Finite v))"
proof (cases c)
  case c: (Finite x)
  show ?thesis
  proof (cases c')
    case (Finite y)
    with c assms(1,4) show ?thesis by (auto simp: rounding_laws_def float_key_def less_eq_prod_def)
  next
    case Pos_Inf
    with c round_nonneg [OF assms(1), of "x + v"] assms(2,5) show ?thesis
      by (cases "re_round env (x + v)") (auto simp: cost_value_def float_key_def less_eq_prod_def)
  qed (use assms in \<open>auto simp: cost_value_def\<close>)
next
  case Pos_Inf
  with assms(3,4) have "c' = Pos_Inf"
    by (cases c') (auto simp: cost_value_def float_key_def less_eq_prod_def)
  with Pos_Inf show ?thesis by simp
qed (use assms in \<open>auto simp: cost_value_def\<close>)

lemma limited_mono:
  "cost_value env c \<Longrightarrow> cost_value env c' \<Longrightarrow> float_key c \<le> float_key c' \<Longrightarrow> limited maxc c \<Longrightarrow> limited maxc c'"
  by (cases maxc; cases c; cases c') (auto simp: limited_def cost_value_def float_key_def less_eq_prod_def)

section \<open>The queue\<close>

definition item_key :: "queue_item \<Rightarrow> nat \<times> rat" where "item_key x = float_key (snd x)"
definition item_ok :: "queue_item \<Rightarrow> bool" where "item_ok x \<longleftrightarrow> number (snd x)"

abbreviation queue_ok :: "queue_item list \<Rightarrow> bool" where "queue_ok \<equiv> heap_ok item_key item_ok"

interpretation rq: min_queue "heap_push item_less" "heap_pop item_less" mset queue_ok item_key item_ok
  by (rule heap_min_queue) (simp add: keyed_def item_less_def item_key_def item_ok_def float_less_key)

section \<open>Routes\<close>

text \<open>
  The specification: a route from the start along arcs of the graph with costs from zero on, the sum
  taken in order and, where there is a positive maximum, never above it.
\<close>

inductive route ::
    "routing_env \<Rightarrow> routing_graph \<Rightarrow> string \<Rightarrow> float_value \<Rightarrow> string \<Rightarrow> routing_arc list \<Rightarrow> string \<Rightarrow> float_value \<Rightarrow> bool"
  for env g field maxc start where
  route_start: "route env g field maxc start [] start (Finite 0)"
| route_step: "route env g field maxc start as u c \<Longrightarrow> a \<in> set (arcs_from g u) \<Longrightarrow>
    arc_cost env g field a = Inr w \<Longrightarrow> \<not> float_less w (Finite 0) \<Longrightarrow> \<not> limited maxc (float_add env c w) \<Longrightarrow>
    route env g field maxc start (as @ [a]) (arc_to a) (float_add env c w)"

definition costs_finite :: "routing_env \<Rightarrow> routing_graph \<Rightarrow> string \<Rightarrow> bool" where
  "costs_finite env g field \<longleftrightarrow>
     list_all (\<lambda>a. case arc_cost env g field a of Inl _ \<Rightarrow> True | Inr w \<Rightarrow> is_finite_float w) (g_arcs g)"

definition bad_arc :: "routing_env \<Rightarrow> routing_graph \<Rightarrow> string \<Rightarrow> routing_arc \<Rightarrow> bool" where
  "bad_arc env g field a \<longleftrightarrow> (case arc_cost env g field a of Inl _ \<Rightarrow> True | Inr w \<Rightarrow> float_less w (Finite 0))"

lemma arcs_from_arc: "a \<in> set (arcs_from g u) \<Longrightarrow> a \<in> set (g_arcs g) \<and> arc_from a = u"
  by (simp add: arcs_from_def)

lemma good_weight:
  assumes "costs_finite env g field" "a \<in> set (g_arcs g)" "arc_cost env g field a = Inr w" "\<not> float_less w (Finite 0)"
  obtains v where "w = Finite v" "0 \<le> v"
  using assms by (cases w) (auto simp: costs_finite_def list_all_iff is_finite_float_def)

lemma route_cost_value:
  "route env g field maxc start as u c \<Longrightarrow> rounding_laws env \<Longrightarrow> costs_finite env g field \<Longrightarrow> cost_value env c"
proof (induction rule: route.induct)
  case (route_step as u c a w)
  obtain v where "w = Finite v" "0 \<le> v"
    using good_weight [OF route_step.prems(2) _ route_step.hyps(3,4)] arcs_from_arc [OF route_step.hyps(2)] by blast
  with add_cost [OF route_step.prems(1) route_step.IH [OF route_step.prems]] show ?case by blast
qed (simp add: cost_value_zero)

section \<open>The invariant of the search\<close>

text \<open>
  \<open>S\<close> lists the expanded nodes, the last one first; \<open>L\<close> is the cost of the last one; \<open>pend\<close> are its arcs
  not yet relaxed.
\<close>

definition relaxed ::
    "routing_env \<Rightarrow> routing_graph \<Rightarrow> string \<Rightarrow> float_value \<Rightarrow> (string \<Rightarrow> float_value option) \<Rightarrow> string \<Rightarrow> routing_arc \<Rightarrow> bool" where
  "relaxed env g field maxc ds u a \<longleftrightarrow>
     \<not> bad_arc env g field a
     \<and> (\<forall>du w. ds u = Some du \<longrightarrow> arc_cost env g field a = Inr w \<longrightarrow> \<not> limited maxc (float_add env du w) \<longrightarrow>
          (\<exists>d. ds (arc_to a) = Some d \<and> float_key d \<le> float_key (float_add env du w)))"

definition pred_ok ::
    "routing_env \<Rightarrow> routing_graph \<Rightarrow> string \<Rightarrow> float_value \<Rightarrow> string \<Rightarrow> string list \<Rightarrow> search \<Rightarrow> string \<Rightarrow> float_value \<Rightarrow> bool" where
  "pred_ok env g field maxc start S se v d \<longleftrightarrow>
     (if v = start then se_pred se v = None
      else (\<exists>a dp w. se_pred se v = Some (arc_from a, a) \<and> a \<in> set (g_arcs g) \<and> arc_to a = v \<and> arc_from a \<in> set S
        \<and> se_dist se (arc_from a) = Some dp \<and> arc_cost env g field a = Inr w \<and> \<not> float_less w (Finite 0)
        \<and> d = float_add env dp w \<and> \<not> limited maxc d))"

fun expansion_order :: "(string \<Rightarrow> (string \<times> routing_arc) option) \<Rightarrow> string list \<Rightarrow> bool" where
  "expansion_order preds [] = True"
| "expansion_order preds (v # S) =
     ((case preds v of None \<Rightarrow> True | Some (p, _) \<Rightarrow> p \<in> set S) \<and> v \<notin> set S \<and> expansion_order preds S)"

definition search_inv ::
    "routing_env \<Rightarrow> routing_graph \<Rightarrow> string \<Rightarrow> float_value \<Rightarrow> string \<Rightarrow> string list \<Rightarrow> float_value \<Rightarrow> routing_arc list \<Rightarrow> search \<Rightarrow> bool" where
  "search_inv env g field maxc start S L pend se \<longleftrightarrow>
     queue_ok (se_queue se) \<and> distinct (se_queue se)
     \<and> se_dist se start = Some (Finite 0)
     \<and> cost_value env L
     \<and> (\<forall>v d. se_dist se v = Some d \<longrightarrow> cost_value env d)
     \<and> (\<forall>v d. se_dist se v = Some d \<longrightarrow> pred_ok env g field maxc start S se v d)
     \<and> (\<forall>v d. se_dist se v = Some d \<longrightarrow> v \<in> set S \<or> (v, d) \<in> set (se_queue se))
     \<and> (\<forall>u. u \<in> set S \<longrightarrow> (\<exists>du. se_dist se u = Some du \<and> float_key du \<le> float_key L))
     \<and> (\<forall>u a. u \<in> set S \<longrightarrow> a \<in> set (arcs_from g u) \<longrightarrow>
          a \<in> set pend \<or> relaxed env g field maxc (se_dist se) u a)
     \<and> (\<forall>v c. (v, c) \<in> set (se_queue se) \<longrightarrow> cost_value env c \<and> float_key L \<le> float_key c \<and> \<not> limited maxc c)
     \<and> (\<forall>v c. (v, c) \<in> set (se_queue se) \<longrightarrow>
          (\<exists>d. se_dist se v = Some d \<and> float_key d \<le> float_key c \<and> (v \<in> set S \<longrightarrow> d \<noteq> c)))
     \<and> expansion_order (se_pred se) S"

lemma search_invD:
  assumes "search_inv env g field maxc start S L pend se"
  shows "queue_ok (se_queue se)" "distinct (se_queue se)" "se_dist se start = Some (Finite 0)" "cost_value env L"
    "se_dist se v = Some d \<Longrightarrow> cost_value env d"
    "se_dist se v = Some d \<Longrightarrow> pred_ok env g field maxc start S se v d"
    "se_dist se v = Some d \<Longrightarrow> v \<in> set S \<or> (v, d) \<in> set (se_queue se)"
    "u \<in> set S \<Longrightarrow> \<exists>du. se_dist se u = Some du \<and> float_key du \<le> float_key L"
    "u \<in> set S \<Longrightarrow> a \<in> set (arcs_from g u) \<Longrightarrow> a \<in> set pend \<or> relaxed env g field maxc (se_dist se) u a"
    "(v, c) \<in> set (se_queue se) \<Longrightarrow> cost_value env c \<and> float_key L \<le> float_key c \<and> \<not> limited maxc c"
    "(v, c) \<in> set (se_queue se) \<Longrightarrow> \<exists>d. se_dist se v = Some d \<and> float_key d \<le> float_key c \<and> (v \<in> set S \<longrightarrow> d \<noteq> c)"
    "expansion_order (se_pred se) S"
  using assms unfolding search_inv_def by blast+

lemma search_invI:
  assumes "queue_ok (se_queue se)" "distinct (se_queue se)" "se_dist se start = Some (Finite 0)" "cost_value env L"
    "\<And>v d. se_dist se v = Some d \<Longrightarrow> cost_value env d"
    "\<And>v d. se_dist se v = Some d \<Longrightarrow> pred_ok env g field maxc start S se v d"
    "\<And>v d. se_dist se v = Some d \<Longrightarrow> v \<in> set S \<or> (v, d) \<in> set (se_queue se)"
    "\<And>u. u \<in> set S \<Longrightarrow> \<exists>du. se_dist se u = Some du \<and> float_key du \<le> float_key L"
    "\<And>u a. u \<in> set S \<Longrightarrow> a \<in> set (arcs_from g u) \<Longrightarrow> a \<in> set pend \<or> relaxed env g field maxc (se_dist se) u a"
    "\<And>v c. (v, c) \<in> set (se_queue se) \<Longrightarrow> cost_value env c \<and> float_key L \<le> float_key c \<and> \<not> limited maxc c"
    "\<And>v c. (v, c) \<in> set (se_queue se) \<Longrightarrow> \<exists>d. se_dist se v = Some d \<and> float_key d \<le> float_key c \<and> (v \<in> set S \<longrightarrow> d \<noteq> c)"
    "expansion_order (se_pred se) S"
  shows "search_inv env g field maxc start S L pend se"
  unfolding search_inv_def by (intro conjI allI impI) (simp_all add: assms)

lemma start_search_inv:
  assumes "rounding_laws env"
  shows "search_inv env g field maxc start [] (Finite 0) [] (start_search start)"
  unfolding search_inv_def
proof (intro conjI)
  show "queue_ok (se_queue (start_search start))"
    by (simp add: start_search_def heap_ok_def heap_first_def item_ok_def number_def)
  show "\<forall>v c. (v, c) \<in> set (se_queue (start_search start)) \<longrightarrow>
      cost_value env c \<and> float_key (Finite 0) \<le> float_key c \<and> \<not> limited maxc c"
    using cost_value_zero [OF assms] by (cases maxc) (simp_all add: start_search_def limited_def)
qed (simp_all add: start_search_def pred_ok_def cost_value_zero [OF assms])

text \<open>One arc of the node being expanded.\<close>

lemma relaxed_done:
  assumes "arc_cost env g field a = Inr w" "\<not> float_less w (Finite 0)" "ds (arc_from a) = Some du"
    and "\<not> limited maxc (float_add env du w) \<Longrightarrow>
      \<exists>d. ds (arc_to a) = Some d \<and> float_key d \<le> float_key (float_add env du w)"
  shows "relaxed env g field maxc ds (arc_from a) a"
  using assms by (simp add: relaxed_def bad_arc_def)

lemma relaxed_lower:
  assumes "relaxed env g field maxc ds u a" "ds' u = ds u"
    and "\<And>v d. ds v = Some d \<Longrightarrow> \<exists>d'. ds' v = Some d' \<and> float_key d' \<le> float_key d"
  shows "relaxed env g field maxc ds' u a"
  unfolding relaxed_def
proof (intro conjI allI impI)
  show "\<not> bad_arc env g field a" using assms(1) by (simp add: relaxed_def)
  fix du w assume *: "ds' u = Some du" "arc_cost env g field a = Inr w" "\<not> limited maxc (float_add env du w)"
  then obtain d where "ds (arc_to a) = Some d" "float_key d \<le> float_key (float_add env du w)"
    using assms(1,2) by (auto simp: relaxed_def)
  with assms(3) show "\<exists>d. ds' (arc_to a) = Some d \<and> float_key d \<le> float_key (float_add env du w)"
    by (meson order_trans)
qed

lemma expansion_order_update: "v \<notin> set S \<Longrightarrow> expansion_order (preds(v \<mapsto> x)) S = expansion_order preds S"
  by (induction S) auto

lemma queue_push:
  assumes "queue_ok q" "cost_value env c"
  shows "queue_ok (heap_push item_less (v, c) q)" "mset (heap_push item_less (v, c) q) = add_mset (v, c) (mset q)"
    "set (heap_push item_less (v, c) q) = insert (v, c) (set q)"
    "distinct (heap_push item_less (v, c) q) \<longleftrightarrow> (v, c) \<notin> set q \<and> distinct q"
    "length (heap_push item_less (v, c) q) = Suc (length q)"
proof -
  have ok: "item_ok (v, c)" using cost_value_number [OF assms(2)] by (simp add: item_ok_def)
  show "queue_ok (heap_push item_less (v, c) q)" by (rule rq.push_inv [OF assms(1) ok])
  show m: "mset (heap_push item_less (v, c) q) = add_mset (v, c) (mset q)" by (rule rq.push_items [OF assms(1) ok])
  then have m': "mset (heap_push item_less (v, c) q) = mset ((v, c) # q)" by simp
  show "set (heap_push item_less (v, c) q) = insert (v, c) (set q)" using mset_eq_setD [OF m'] by simp
  show "distinct (heap_push item_less (v, c) q) \<longleftrightarrow> (v, c) \<notin> set q \<and> distinct q"
    using mset_eq_imp_distinct_iff [OF m'] by simp
  show "length (heap_push item_less (v, c) q) = Suc (length q)" using mset_eq_length [OF m'] by simp
qed

lemma update_inv:
  assumes inv: "search_inv env g field maxc start S L (a # pend) se"
    and a: "a \<in> set (g_arcs g)" "arc_from a \<in> set S" "se_dist se (arc_from a) = Some L"
    and w: "arc_cost env g field a = Inr w" "\<not> float_less w (Finite 0)"
    and nxt: "nxt = float_add env L w" "cost_value env nxt" "float_key L \<le> float_key nxt" "\<not> limited maxc nxt"
    and better: "\<And>d. se_dist se (arc_to a) = Some d \<Longrightarrow> float_key nxt < float_key d"
    and se': "se' = \<lparr>se_dist = (se_dist se)(arc_to a \<mapsto> nxt), se_pred = (se_pred se)(arc_to a \<mapsto> (arc_from a, a)),
            se_queue = heap_push item_less (arc_to a, nxt) (se_queue se)\<rparr>"
  shows "search_inv env g field maxc start S L pend se'"
    and "arc_to a \<notin> set S"
proof -
  note D = search_invD [OF inv]
  show new: "arc_to a \<notin> set S"
  proof
    assume "arc_to a \<in> set S"
    from D(8) [OF this] obtain du where "se_dist se (arc_to a) = Some du" "float_key du \<le> float_key L" by blast
    with better nxt(3) show False by fastforce
  qed
  have zero: "float_key (Finite 0) \<le> float_key nxt"
    using nxt(2) by (auto simp: cost_value_def float_key_def less_eq_prod_def split: float_value.splits)
  have not_start: "arc_to a \<noteq> start" using better D(3) zero by fastforce
  have others: "arc_from a \<noteq> arc_to a" using new a(2) by auto
  have above: "float_key nxt < float_key c" if "(arc_to a, c) \<in> set (se_queue se)" for c
    using D(11) [OF that] better by fastforce
  note q = queue_push [OF D(1) nxt(2), of "arc_to a"]
  have same: "se_dist se' u = se_dist se u" if "u \<in> set S" for u using new that by (auto simp: se')
  have lower: "\<exists>d'. se_dist se' v = Some d' \<and> float_key d' \<le> float_key d" if "se_dist se v = Some d" for v d
    using that better by (auto simp: se' less_imp_le)
  show "search_inv env g field maxc start S L pend se'"
  proof (rule search_invI)
    show "queue_ok (se_queue se')" using q(1) by (simp add: se')
    show "distinct (se_queue se')" using q(4) D(2) above by (auto simp: se')
    show "se_dist se' start = Some (Finite 0)" using D(3) not_start by (simp add: se')
    show "cost_value env L" by (rule D(4))
    show "cost_value env d" if "se_dist se' v = Some d" for v d
      using that D(5) nxt(2) by (auto simp: se' split: if_splits)
    show "pred_ok env g field maxc start S se' v d" if vd: "se_dist se' v = Some d" for v d
    proof (cases "v = arc_to a")
      case True
      with vd a w nxt(1,4) not_start others show ?thesis by (simp add: pred_ok_def se')
    next
      case False
      with vd D(6) have "pred_ok env g field maxc start S se v d" by (simp add: se')
      moreover have "se_pred se' v = se_pred se v" using False by (simp add: se')
      ultimately show ?thesis using same unfolding pred_ok_def by (metis (no_types, lifting))
    qed
    show "v \<in> set S \<or> (v, d) \<in> set (se_queue se')" if "se_dist se' v = Some d" for v d
      using that D(7) q(3) by (auto simp: se' split: if_splits)
    show "\<exists>du. se_dist se' u = Some du \<and> float_key du \<le> float_key L" if "u \<in> set S" for u
      using D(8) [OF that] same [OF that] by simp
    show "b \<in> set pend \<or> relaxed env g field maxc (se_dist se') u b"
      if u: "u \<in> set S" and b: "b \<in> set (arcs_from g u)" for u b
    proof (cases "b = a")
      case True
      with arcs_from_arc [OF b] have "u = arc_from a" by simp
      moreover have "relaxed env g field maxc (se_dist se') (arc_from a) a"
        by (rule relaxed_done [OF w]) (use a same nxt in \<open>auto simp: se'\<close>)
      ultimately show ?thesis using True by simp
    next
      case False
      with D(9) [OF u b] show ?thesis using relaxed_lower [where ds = "se_dist se" and ds' = "se_dist se'", OF _ same [OF u] lower] by auto
    qed
    show "cost_value env c \<and> float_key L \<le> float_key c \<and> \<not> limited maxc c" if "(v, c) \<in> set (se_queue se')" for v c
      using that q(3) D(10) nxt by (auto simp: se')
    show "\<exists>d. se_dist se' v = Some d \<and> float_key d \<le> float_key c \<and> (v \<in> set S \<longrightarrow> d \<noteq> c)"
      if vc: "(v, c) \<in> set (se_queue se')" for v c
    proof (cases "v = arc_to a")
      case True
      with vc q(3) above new show ?thesis by (auto simp: se' less_imp_le)
    next
      case False
      with vc q(3) D(11) show ?thesis by (auto simp: se')
    qed
    show "expansion_order (se_pred se') S" using D(12) new by (simp add: se' expansion_order_update)
  qed
qed

lemma relax_arc_inv:
  assumes env: "rounding_laws env" "costs_finite env g field"
    and inv: "search_inv env g field maxc start S L (a # pend) se"
    and a: "a \<in> set (g_arcs g)" "arc_from a \<in> set S" "se_dist se (arc_from a) = Some L"
    and w: "arc_cost env g field a = Inr w" "\<not> float_less w (Finite 0)"
  shows "search_inv env g field maxc start S L pend (relax_arc env maxc L a w se)
    \<and> (\<forall>u\<in>set S. se_dist (relax_arc env maxc L a w se) u = se_dist se u)
    \<and> length (se_queue (relax_arc env maxc L a w se)) \<le> Suc (length (se_queue se))"
proof -
  let ?nxt = "float_add env L w"
  note D = search_invD [OF inv]
  obtain x where x: "w = Finite x" "0 \<le> x" by (rule good_weight [OF env(2) a(1) w])
  from add_cost [OF env(1) D(4) x(2)] have nxt: "cost_value env ?nxt" "float_key L \<le> float_key ?nxt"
    unfolding x(1) by blast+
  have less: "float_less ?nxt d \<longleftrightarrow> float_key ?nxt < float_key d" if "se_dist se v = Some d" for v d
    using D(5) [OF that] nxt(1) cost_value_number float_less_key by blast
  have keep: "search_inv env g field maxc start S L pend se" if rel: "relaxed env g field maxc (se_dist se) (arc_from a) a"
  proof (rule search_invI)
    show "b \<in> set pend \<or> relaxed env g field maxc (se_dist se) u b"
      if "u \<in> set S" "b \<in> set (arcs_from g u)" for u b
      using D(9) [OF that] rel arcs_from_arc [OF that(2)] by auto
  qed (fact D)+
  consider "limited maxc ?nxt"
    | d where "\<not> limited maxc ?nxt" "se_dist se (arc_to a) = Some d" "\<not> float_less ?nxt d"
    | "\<not> limited maxc ?nxt" "case se_dist se (arc_to a) of None \<Rightarrow> True | Some known \<Rightarrow> float_less ?nxt known"
    by (cases "se_dist se (arc_to a)") auto
  then show ?thesis
  proof cases
    case 1
    then have "relaxed env g field maxc (se_dist se) (arc_from a) a" by (intro relaxed_done [where ds = "se_dist se", OF w a(3)]) simp
    with 1 keep show ?thesis by (simp add: relax_arc_def)
  next
    case (2 d)
    with less have "relaxed env g field maxc (se_dist se) (arc_from a) a"
      by (intro relaxed_done [where ds = "se_dist se", OF w a(3)]) auto
    with 2 keep show ?thesis by (simp add: relax_arc_def)
  next
    case 3
    let ?se = "\<lparr>se_dist = (se_dist se)(arc_to a \<mapsto> ?nxt), se_pred = (se_pred se)(arc_to a \<mapsto> (arc_from a, a)),
            se_queue = heap_push item_less (arc_to a, ?nxt) (se_queue se)\<rparr>"
    have eq: "relax_arc env maxc L a w se = ?se" using 3 by (simp add: relax_arc_def Let_def)
    have better: "float_key ?nxt < float_key d" if "se_dist se (arc_to a) = Some d" for d
      using 3(2) less [OF that] that by simp
    note U = update_inv [OF inv a w refl nxt 3(1) better refl]
    from U show ?thesis using queue_push(5) [OF D(1) nxt(1)] by (auto simp: eq)
  qed
qed

lemma relax_arcs_inv:
  assumes env: "rounding_laws env" "costs_finite env g field"
    and inv: "search_inv env g field maxc start S L as se"
    and u: "u \<in> set S" "se_dist se u = Some L" and arcs: "set as \<subseteq> set (arcs_from g u)"
    and res: "relax_arcs env g field maxc L as se = Inr se'"
  shows "search_inv env g field maxc start S L [] se' \<and> length (se_queue se') \<le> length (se_queue se) + length as"
  using inv u(2) arcs res
proof (induction as arbitrary: se)
  case (Cons a as)
  have a: "a \<in> set (g_arcs g)" "arc_from a = u" using Cons.prems(3) arcs_from_arc by auto
  from Cons.prems(4) obtain w where w: "arc_cost env g field a = Inr w" "\<not> float_less w (Finite 0)"
    and rest: "relax_arcs env g field maxc L as (relax_arc env maxc L a w se) = Inr se'"
    by (auto split: sum.splits if_splits)
  note R = relax_arc_inv [OF env Cons.prems(1) a(1) _ _ w, unfolded a(2), OF u(1) Cons.prems(2)]
  have "search_inv env g field maxc start S L [] se' \<and>
      length (se_queue se') \<le> length (se_queue (relax_arc env maxc L a w se)) + length as"
    by (rule Cons.IH) (use R u(1) Cons.prems(2,3) rest in auto)
  with R show ?case by auto
qed simp

lemma relax_arcs_error:
  "relax_arcs env g field maxc L as se = Inl e \<Longrightarrow> \<exists>a\<in>set as. bad_arc env g field a"
proof (induction as arbitrary: se)
  case (Cons a as)
  then show ?case
    by (cases "arc_cost env g field a") (auto simp: bad_arc_def split: if_splits)
qed simp

lemma pred_ok_weaken:
  "pred_ok env g field maxc start S se v d \<Longrightarrow> set S \<subseteq> set S' \<Longrightarrow> pred_ok env g field maxc start S' (se\<lparr>se_queue := q\<rparr>) v d"
  by (auto simp: pred_ok_def split: if_splits)

text \<open>Taking the next entry off the queue.\<close>

lemma pop_stale_inv:
  assumes inv: "search_inv env g field maxc start S L [] se"
    and pop: "mset (se_queue se) = add_mset (u, c) (mset q)" "queue_ok q"
    and stale: "se_dist se u \<noteq> Some c"
  shows "search_inv env g field maxc start S L [] (se\<lparr>se_queue := q\<rparr>)"
proof -
  note D = search_invD [OF inv]
  have m: "mset (se_queue se) = mset ((u, c) # q)" using pop(1) by simp
  have q: "set (se_queue se) = insert (u, c) (set q)" "distinct q"
    using mset_eq_setD [OF m] mset_eq_imp_distinct_iff [OF m] D(2) by simp_all
  show ?thesis unfolding search_inv_def
  proof (intro conjI)
    show "\<forall>v d. se_dist (se\<lparr>se_queue := q\<rparr>) v = Some d \<longrightarrow> pred_ok env g field maxc start S (se\<lparr>se_queue := q\<rparr>) v d"
      by (auto intro!: pred_ok_weaken [OF D(6)])
    show "\<forall>v d. se_dist (se\<lparr>se_queue := q\<rparr>) v = Some d \<longrightarrow> v \<in> set S \<or> (v, d) \<in> set (se_queue (se\<lparr>se_queue := q\<rparr>))"
      using D(7) stale q(1) by auto
  qed (use D q pop(2) in \<open>simp_all, blast?\<close>)
qed

lemma pop_fresh_inv:
  assumes inv: "search_inv env g field maxc start S L [] se"
    and pop: "mset (se_queue se) = add_mset (u, c) (mset q)" "queue_ok q"
      "\<And>y. y \<in> set q \<Longrightarrow> item_key (u, c) \<le> item_key y"
    and fresh: "se_dist se u = Some c"
  shows "search_inv env g field maxc start (u # S) c (arcs_from g u) (se\<lparr>se_queue := q\<rparr>)"
    and "u \<notin> set S" and "cost_value env c" and "\<not> limited maxc c"
proof -
  note D = search_invD [OF inv]
  have m: "mset (se_queue se) = mset ((u, c) # q)" using pop(1) by simp
  have q: "set (se_queue se) = insert (u, c) (set q)" "distinct q" "(u, c) \<notin> set q"
    using mset_eq_setD [OF m] mset_eq_imp_distinct_iff [OF m] D(2) by simp_all
  have uc: "(u, c) \<in> set (se_queue se)" using q(1) by simp
  show new: "u \<notin> set S" using D(11) [OF uc] fresh by auto
  show c: "cost_value env c" "\<not> limited maxc c" using D(10) [OF uc] by simp_all
  have up: "float_key L \<le> float_key c" using D(10) [OF uc] by simp
  have order: "expansion_order (se_pred se) (u # S)"
    using D(6) [OF fresh] D(12) new by (auto simp: pred_ok_def split: if_splits)
  let ?se = "se\<lparr>se_queue := q\<rparr>"
  show "search_inv env g field maxc start (u # S) c (arcs_from g u) ?se"
  proof (rule search_invI)
    show "pred_ok env g field maxc start (u # S) ?se v d" if "se_dist ?se v = Some d" for v d
      using that D(6) by (intro pred_ok_weaken [where S = S]) auto
    show "v \<in> set (u # S) \<or> (v, d) \<in> set (se_queue ?se)" if "se_dist ?se v = Some d" for v d
      using that D(7) q(1) by auto
    show "\<exists>du. se_dist ?se v = Some du \<and> float_key du \<le> float_key c" if "v \<in> set (u # S)" for v
      using that D(8) [of v] fresh up by (auto intro: order_trans)
    show "a \<in> set (arcs_from g u) \<or> relaxed env g field maxc (se_dist ?se) v a"
      if "v \<in> set (u # S)" "a \<in> set (arcs_from g v)" for v a
      using that D(9) [of v a] by auto
    show "cost_value env k \<and> float_key c \<le> float_key k \<and> \<not> limited maxc k" if "(v, k) \<in> set (se_queue ?se)" for v k
      using that D(10) [of v k] pop(3) [of "(v, k)"] q(1) by (simp add: item_key_def)
    show "\<exists>d. se_dist ?se v = Some d \<and> float_key d \<le> float_key k \<and> (v \<in> set (u # S) \<longrightarrow> d \<noteq> k)"
      if "(v, k) \<in> set (se_queue ?se)" for v k
      using that D(11) [of v k] q fresh by auto
  qed (use D q pop(2) c order in simp_all)
qed

section \<open>The search as a whole\<close>

definition unexpanded :: "routing_graph \<Rightarrow> string list \<Rightarrow> nat" where
  "unexpanded g S = length (filter (\<lambda>a. arc_from a \<notin> set S) (g_arcs g))"

lemma unexpanded_Cons:
  assumes "u \<notin> set S"
  shows "unexpanded g S = unexpanded g (u # S) + length (arcs_from g u)"
proof -
  have "length (filter (\<lambda>a. arc_from a \<notin> set S) as)
      = length (filter (\<lambda>a. arc_from a \<notin> set (u # S)) as) + length (filter (\<lambda>a. arc_from a = u) as)" for as
    using assms by (induction as) auto
  then show ?thesis by (simp add: unexpanded_def arcs_from_def)
qed

text \<open>What the loop ends with: a finished search, or a bad arc of an expanded node.\<close>

definition loop_result ::
    "routing_env \<Rightarrow> routing_graph \<Rightarrow> string \<Rightarrow> float_value \<Rightarrow> string \<Rightarrow> string + search \<Rightarrow> bool" where
  "loop_result env g field maxc start r \<longleftrightarrow>
     (case r of
        Inl _ \<Rightarrow> (\<exists>S L pend se u a. search_inv env g field maxc start S L pend se \<and> u \<in> set S
          \<and> a \<in> set (arcs_from g u) \<and> bad_arc env g field a)
      | Inr se \<Rightarrow> se_queue se = [] \<and> (\<exists>S L. search_inv env g field maxc start S L [] se))"

lemma search_loop_result:
  assumes env: "rounding_laws env" "costs_finite env g field"
  shows "search_inv env g field maxc start S L [] se \<Longrightarrow> length (se_queue se) + unexpanded g S < fuel \<Longrightarrow>
    \<exists>r. search_loop env g field maxc fuel se = Some r \<and> loop_result env g field maxc start r"
proof (induction fuel arbitrary: S L se)
  case (Suc fuel)
  note inv = Suc.prems(1) and D = search_invD [OF Suc.prems(1)]
  show ?case
  proof (cases "se_queue se = []")
    case True
    with inv show ?thesis by (auto simp: loop_result_def)
  next
    case False
    then have "mset (se_queue se) \<noteq> {#}" by simp
    from rq.pop_cases [OF D(1) this] obtain x q where pop: "heap_pop item_less (se_queue se) = (x, q)"
      "mset (se_queue se) = add_mset x (mset q)" "queue_ok q" "\<And>y. y \<in># mset q \<Longrightarrow> item_key x \<le> item_key y"
      by metis
    obtain u c where x: "x = (u, c)" by (cases x)
    have len: "length (se_queue se) = Suc (length q)"
      using arg_cong [OF pop(2), of size] by simp
    have "(u, c) \<in># mset (se_queue se)" using pop(2) x by simp
    then have uc: "(u, c) \<in> set (se_queue se)" by simp
    then obtain d where d: "se_dist se u = Some d" using D(11) by blast
    have num: "number c" "number d" using D(10) [OF uc] D(5) [OF d] cost_value_number by blast+
    have eq: "float_equal c d \<longleftrightarrow> c = d" using num by (cases c; cases d) (auto simp: number_def float_equal_def)
    show ?thesis
    proof (cases "c = d")
      case False
      then have "search_inv env g field maxc start S L [] (se\<lparr>se_queue := q\<rparr>)"
        using pop_stale_inv [OF inv pop(2) [unfolded x] pop(3)] d by simp
      from Suc.IH [OF this] Suc.prems(2) len False eq d pop(1) x \<open>se_queue se \<noteq> []\<close> show ?thesis by simp
    next
      case True
      have y: "item_key (u, c) \<le> item_key y" if "y \<in> set q" for y using pop(4) x that by simp
      note F = pop_fresh_inv [OF inv pop(2) [unfolded x] pop(3) y d [folded True]]
      let ?r = "relax_arcs env g field maxc c (arcs_from g u) (se\<lparr>se_queue := q\<rparr>)"
      have step: "search_loop env g field maxc (Suc fuel) se =
          (case ?r of Inl e \<Rightarrow> Some (Inl e) | Inr se' \<Rightarrow> search_loop env g field maxc fuel se')"
        using \<open>se_queue se \<noteq> []\<close> pop(1) x d True eq F(4) by simp
      show ?thesis
      proof (cases ?r)
        case (Inl e)
        with relax_arcs_error [OF Inl] F(1) step show ?thesis by (fastforce simp: loop_result_def)
      next
        case (Inr se')
        have "search_inv env g field maxc start (u # S) c [] se'
            \<and> length (se_queue se') \<le> length q + length (arcs_from g u)"
          using relax_arcs_inv [OF env F(1) _ _ subset_refl Inr] d True by simp
        with Suc.IH [of "u # S" c se'] Suc.prems(2) len unexpanded_Cons [OF F(2), of g] Inr step
        show ?thesis by simp
      qed
    qed
  qed
qed simp

lemma shortest_paths_result:
  assumes "rounding_laws env" "costs_finite env g field"
  obtains r where "shortest_paths env g start field maxc = Some r" "loop_result env g field maxc start r"
proof -
  have "length (se_queue (start_search start)) + unexpanded g [] < length (g_arcs g) + 2"
    by (simp add: start_search_def unexpanded_def)
  from search_loop_result [OF assms start_search_inv [OF assms(1)] this] that show ?thesis
    unfolding shortest_paths_def by blast
qed

section \<open>Distances and routes\<close>

text \<open>Walking the predecessors back yields a route that costs the recorded distance.\<close>

lemma walk_back:
  assumes inv: "search_inv env g field maxc start S L pend se"
  shows "expansion_order (se_pred se) T \<Longrightarrow> v \<in> set T \<Longrightarrow> se_dist se v = Some d \<Longrightarrow>
    \<exists>as. route env g field maxc start as v d \<and> length as < length T
      \<and> (\<forall>fuel ns rest. length as < fuel \<longrightarrow>
          reconstruct_path fuel (se_pred se) start v ns rest = Some (Inr (map arc_from as @ ns, as @ rest)))"
proof (induction T arbitrary: v d)
  case (Cons t T)
  note D = search_invD [OF inv]
  show ?case
  proof (cases "v = t")
    case False
    with Cons.prems have "v \<in> set T" "expansion_order (se_pred se) T" by simp_all
    from Cons.IH [OF this(2,1) Cons.prems(3)] show ?thesis by (elim exE) (rule exI, auto)
  next
    case t: True
    show ?thesis
    proof (cases "v = start")
      case True
      then have "d = Finite 0" using D(3) Cons.prems(3) by simp
      have "reconstruct_path fuel (se_pred se) start v ns rest = Some (Inr (ns, rest))" if "0 < fuel" for fuel ns rest
        using that True by (cases fuel) simp_all
      with True \<open>d = Finite 0\<close> route_start show ?thesis by (intro exI [of _ "[]"]) auto
    next
      case False
      with D(6) [OF Cons.prems(3)] obtain a dp w where a: "se_pred se v = Some (arc_from a, a)" "a \<in> set (g_arcs g)"
        "arc_to a = v" "se_dist se (arc_from a) = Some dp" "arc_cost env g field a = Inr w" "\<not> float_less w (Finite 0)"
        "d = float_add env dp w" "\<not> limited maxc d"
        by (auto simp: pred_ok_def)
      have "arc_from a \<in> set T" "expansion_order (se_pred se) T" using Cons.prems(1) a(1) t by simp_all
      from Cons.IH [OF this(2,1) a(4)] obtain as where as: "route env g field maxc start as (arc_from a) dp"
        "length as < length T" and walk: "\<And>fuel ns rest. length as < fuel \<Longrightarrow>
          reconstruct_path fuel (se_pred se) start (arc_from a) ns rest = Some (Inr (map arc_from as @ ns, as @ rest))"
        by blast
      have "a \<in> set (arcs_from g (arc_from a))" using a(2) by (simp add: arcs_from_def)
      with as(1) a(3,5,6,7,8) have "route env g field maxc start (as @ [a]) v d" using route_step by metis
      moreover have "reconstruct_path fuel (se_pred se) start v ns rest
          = Some (Inr (map arc_from (as @ [a]) @ ns, (as @ [a]) @ rest))" if "length (as @ [a]) < fuel" for fuel ns rest
        using that False a(1) walk by (cases fuel) simp_all
      ultimately show ?thesis using as(2) by (intro exI [of _ "as @ [a]"]) simp
    qed
  qed
qed simp

text \<open>Once the queue is empty, no route is cheaper than the recorded distance.\<close>

lemma finished_covers:
  assumes env: "rounding_laws env" "costs_finite env g field"
    and inv: "search_inv env g field maxc start S L [] se" "se_queue se = []"
  shows "route env g field maxc start as v c \<Longrightarrow>
    \<exists>d. se_dist se v = Some d \<and> float_key d \<le> float_key c
      \<and> (\<forall>a\<in>set (arcs_from g v). \<not> bad_arc env g field a)"
proof (induction rule: route.induct)
  note D = search_invD [OF inv(1)]
  have expanded: "v \<in> set S" if "se_dist se v = Some d" for v d using D(7) [OF that] inv(2) by simp
  have relaxed_all: "relaxed env g field maxc (se_dist se) v a"
    if "se_dist se v = Some d" "a \<in> set (arcs_from g v)" for v d a
    using D(9) [OF expanded [OF that(1)] that(2)] by simp
  case route_start
  show ?case using D(3) relaxed_all [OF D(3)] by (simp add: relaxed_def)
  case (route_step as u c a w)
  from route_step.IH obtain d where d: "se_dist se u = Some d" "float_key d \<le> float_key c" by blast
  obtain x where x: "w = Finite x" "0 \<le> x"
    using good_weight [OF env(2) _ route_step.hyps(3,4)] arcs_from_arc [OF route_step.hyps(2)] by blast
  note c = route_cost_value [OF route_step.hyps(1) env]
  have le: "float_key (float_add env d w) \<le> float_key (float_add env c w)"
    using add_mono [OF env(1) D(5) [OF d(1)] c d(2) x(2)] x(1) by simp
  have "\<not> limited maxc (float_add env d w)"
    using limited_mono [OF _ _ le] add_cost [OF env(1) D(5) [OF d(1)] x(2)] add_cost [OF env(1) c x(2)]
      route_step.hyps(5) x(1) by blast
  then obtain d' where d': "se_dist se (arc_to a) = Some d'" "float_key d' \<le> float_key (float_add env d w)"
    using relaxed_all [OF d(1) route_step.hyps(2)] d(1) route_step.hyps(3) by (auto simp: relaxed_def)
  with le relaxed_all [OF d'(1)] show ?case by (auto simp: relaxed_def intro: order_trans)
qed

lemma expanded_few:
  assumes inv: "search_inv env g field maxc start S L pend se"
  shows "length S \<le> length (g_arcs g) + 1"
proof -
  note D = search_invD [OF inv]
  have distinct_S: "expansion_order preds T \<Longrightarrow> distinct T" for preds T by (induction T) auto
  have "set S \<subseteq> insert start (arc_to ` set (g_arcs g))"
  proof
    fix v assume "v \<in> set S"
    with D(8) obtain d where "se_dist se v = Some d" by blast
    from D(6) [OF this] show "v \<in> insert start (arc_to ` set (g_arcs g))" by (auto simp: pred_ok_def split: if_splits)
  qed
  then have "card (set S) \<le> card (insert start (arc_to ` set (g_arcs g)))" by (simp add: card_mono)
  also have "\<dots> \<le> Suc (card (arc_to ` set (g_arcs g)))" by (rule card_insert_le_m1) simp_all
  also have "\<dots> \<le> Suc (length (g_arcs g))"
    using card_image_le [of "set (g_arcs g)" arc_to] card_length [of "g_arcs g"] by simp
  finally show ?thesis using distinct_card [OF distinct_S [OF D(12)]] by simp
qed

lemma finished_distance:
  assumes env: "rounding_laws env" "costs_finite env g field"
    and inv: "search_inv env g field maxc start S L [] se" "se_queue se = []" and d: "se_dist se v = Some d"
  obtains as where "route env g field maxc start as v d"
    "reconstruct_path (length (g_arcs g) + 2) (se_pred se) start v [v] [] = Some (Inr (map arc_from as @ [v], as))"
proof -
  note D = search_invD [OF inv(1)]
  have "v \<in> set S" using D(7) [OF d] inv(2) by simp
  from walk_back [OF inv(1) D(12) this d] obtain as where as: "route env g field maxc start as v d"
    "length as < length S" and walk: "\<And>fuel ns rest. length as < fuel \<Longrightarrow>
      reconstruct_path fuel (se_pred se) start v ns rest = Some (Inr (map arc_from as @ ns, as @ rest))"
    by blast
  have "length as < length (g_arcs g) + 2" using as(2) expanded_few [OF inv(1)] by simp
  from that [OF as(1)] walk [OF this] show thesis by simp
qed

text \<open>
  The specification of a search: the least cost of a route to each node, and whether a bad arc
  leaves a node that a route reaches.
\<close>

definition least_cost ::
    "routing_env \<Rightarrow> routing_graph \<Rightarrow> string \<Rightarrow> float_value \<Rightarrow> string \<Rightarrow> string \<Rightarrow> float_value option \<Rightarrow> bool" where
  "least_cost env g field maxc start v d \<longleftrightarrow>
     (case d of
        None \<Rightarrow> (\<forall>as c. \<not> route env g field maxc start as v c)
      | Some m \<Rightarrow> (\<exists>as. route env g field maxc start as v m)
          \<and> (\<forall>as c. route env g field maxc start as v c \<longrightarrow> \<not> float_less c m))"

definition bad_arc_reachable ::
    "routing_env \<Rightarrow> routing_graph \<Rightarrow> string \<Rightarrow> float_value \<Rightarrow> string \<Rightarrow> bool" where
  "bad_arc_reachable env g field maxc start \<longleftrightarrow>
     (\<exists>as u c a. route env g field maxc start as u c \<and> a \<in> set (arcs_from g u) \<and> bad_arc env g field a)"

lemma loop_result_exact:
  assumes env: "rounding_laws env" "costs_finite env g field"
    and r: "loop_result env g field maxc start r"
  shows "case r of
      Inl _ \<Rightarrow> bad_arc_reachable env g field maxc start
    | Inr se \<Rightarrow> \<not> bad_arc_reachable env g field maxc start
        \<and> (\<forall>v. least_cost env g field maxc start v (se_dist se v))"
proof (cases r)
  case (Inl e)
  with r obtain S L pend se u a where *: "search_inv env g field maxc start S L pend se" "u \<in> set S"
    "a \<in> set (arcs_from g u)" "bad_arc env g field a"
    by (auto simp: loop_result_def)
  note D = search_invD [OF *(1)]
  from D(8) [OF *(2)] obtain d where "se_dist se u = Some d" by blast
  from walk_back [OF *(1) D(12) *(2) this] *(3,4) Inl show ?thesis by (auto simp: bad_arc_reachable_def)
next
  case (Inr se)
  with r obtain S L where inv: "search_inv env g field maxc start S L [] se" "se_queue se = []"
    by (auto simp: loop_result_def)
  note covers = finished_covers [OF env inv]
  have "least_cost env g field maxc start v (se_dist se v)" for v
  proof (cases "se_dist se v")
    case None
    with covers show ?thesis by (fastforce simp: least_cost_def)
  next
    case (Some d)
    obtain as where "route env g field maxc start as v d"
      by (rule finished_distance [OF env inv Some])
    moreover have "\<not> float_less c d" if "route env g field maxc start as v c" for as c
    proof -
      have "float_key d \<le> float_key c" using covers [OF that] Some by simp
      then show ?thesis
        using float_less_key [of c d] route_cost_value [OF that env]
          search_invD(5) [OF inv(1) Some] cost_value_number by auto
    qed
    ultimately show ?thesis using Some by (auto simp: least_cost_def)
  qed
  moreover have "\<not> bad_arc_reachable env g field maxc start" using covers by (fastforce simp: bad_arc_reachable_def)
  ultimately show ?thesis using Inr by simp
qed

section \<open>Loading the graph\<close>

definition row_edge_ok :: "routing_env \<Rightarrow> routing_edge \<Rightarrow> bool" where
  "row_edge_ok env e \<longleftrightarrow> ed_from e \<noteq> [] \<and> ed_to e \<noteq> []
     \<and> (\<forall>v. ed_cost e = Some v \<or> ed_distance e = Some v \<longrightarrow> is_finite_float v)"

lemma routing_float_finite: "routing_float env raw = Some v \<Longrightarrow> is_finite_float v"
  by (auto simp: routing_float_def split: option.splits if_splits)

lemma add_routing_row_edges:
  "list_all (row_edge_ok env) (snd st) \<Longrightarrow> list_all (row_edge_ok env) (snd (add_routing_row env r st))"
  by (auto simp: add_routing_row_def Let_def row_edge_ok_def routing_float_finite)

lemma rows_edges_ok:
  "list_all (row_edge_ok env) (snd st) \<Longrightarrow> list_all (row_edge_ok env) (snd (fold (add_routing_row env) rs st))"
  by (induction rs arbitrary: st) (simp_all add: add_routing_row_edges)

lemma loaded_parts:
  assumes "load_routing_graph env table directed rows = Inr g"
  obtains edges where "list_all (row_edge_ok env) edges" "g_arcs g \<noteq> []"
    "g_arcs g = concat (map (arcs_of_edge (case directed of None \<Rightarrow> True | Some d \<Rightarrow> d) (g_nodes g)) edges)"
    "is_valid_identifier table" "\<not> is_data_dock_system_object table"
proof -
  from assms obtain rs where rs: "rows = Some rs" by (auto simp: load_routing_graph_def split: if_splits option.splits)
  let ?st = "fold (add_routing_row env) rs ([], [])"
  have "list_all (row_edge_ok env) (snd ?st)" by (rule rows_edges_ok) simp
  moreover obtain nodes edges where st: "?st = (nodes, edges)" by (cases ?st)
  ultimately have "list_all (row_edge_ok env) edges" by simp
  moreover have "is_valid_identifier table" "\<not> is_data_dock_system_object table" "g_arcs g \<noteq> []"
    "g_arcs g = concat (map (arcs_of_edge (case directed of None \<Rightarrow> True | Some d \<Rightarrow> d) (g_nodes g)) edges)"
    using assms rs st by (auto simp: load_routing_graph_def Let_def split: if_splits)
  ultimately show thesis using that by blast
qed

lemma numeric_property_finite: "routing_numeric_property env props key = Some v \<Longrightarrow> is_finite_float v"
  by (auto simp: routing_numeric_property_def routing_float_finite split: option.splits json.splits if_splits)

text \<open>The costs of a loaded graph are finite where the haversine distances are.\<close>

lemma loaded_costs_finite:
  assumes "load_routing_graph env table directed rows = Inr g"
    and "\<And>a d. a \<in> set (g_arcs g) \<Longrightarrow> arc_distance env g a = Some d \<Longrightarrow> is_finite_float d"
  shows "costs_finite env g field"
proof -
  obtain edges where e: "list_all (row_edge_ok env) edges"
    "g_arcs g = concat (map (arcs_of_edge (case directed of None \<Rightarrow> True | Some d \<Rightarrow> d) (g_nodes g)) edges)"
    by (rule loaded_parts [OF assms(1)])
  have "is_finite_float w" if "a \<in> set (g_arcs g)" "arc_cost env g field a = Inr w" for a w
  proof -
    from that(1) e have "row_edge_ok env (arc_edge a)"
      by (auto simp: arcs_of_edge_def list_all_iff split: if_splits)
    with that assms(2) [OF that(1)] show ?thesis
      by (auto simp: arc_cost_def or_distance_def row_edge_ok_def Let_def numeric_property_finite
          split: if_splits option.splits)
  qed
  then show ?thesis by (auto simp: costs_finite_def list_all_iff split: sum.splits)
qed

lemma edges_are_arcs:
  "set (concat (map (arcs_of_edge directed nodes) es)) = (\<Union>e\<in>set es. set (arcs_of_edge directed nodes e))"
  by simp

lemma loaded_undirected:
  assumes "load_routing_graph env table (Some False) rows = Inr g" "a \<in> set (g_arcs g)"
  shows "\<lparr>arc_from = arc_to a, arc_to = arc_from a, arc_edge = arc_edge a, arc_reverse = \<not> arc_reverse a\<rparr> \<in> set (g_arcs g)"
proof -
  obtain edges where e: "g_arcs g = concat (map (arcs_of_edge False (g_nodes g)) edges)"
    using loaded_parts [OF assms(1)] by auto
  from assms(2) obtain x where "x \<in> set edges" "a \<in> set (arcs_of_edge False (g_nodes g) x)"
    unfolding e edges_are_arcs by blast
  then have "x \<in> set edges"
    "\<lparr>arc_from = arc_to a, arc_to = arc_from a, arc_edge = arc_edge a, arc_reverse = \<not> arc_reverse a\<rparr>
      \<in> set (arcs_of_edge False (g_nodes g) x)"
    by (auto simp: arcs_of_edge_def split: if_splits)
  then show ?thesis unfolding e edges_are_arcs by blast
qed

lemma loaded_arcs:
  assumes "load_routing_graph env table directed rows = Inr g" "a \<in> set (g_arcs g)"
  shows "map_of (g_nodes g) (arc_from a) \<noteq> None" "map_of (g_nodes g) (arc_to a) \<noteq> None"
    "arc_from a \<noteq> []" "arc_to a \<noteq> []" "directed \<noteq> Some False \<Longrightarrow> \<not> arc_reverse a"
proof -
  obtain edges where e: "list_all (row_edge_ok env) edges"
    "g_arcs g = concat (map (arcs_of_edge (case directed of None \<Rightarrow> True | Some d \<Rightarrow> d) (g_nodes g)) edges)"
    by (rule loaded_parts [OF assms(1)])
  from assms(2) obtain x where x: "x \<in> set edges"
    "a \<in> set (arcs_of_edge (case directed of None \<Rightarrow> True | Some d \<Rightarrow> d) (g_nodes g) x)"
    unfolding e(2) edges_are_arcs by blast
  with e(1) have "row_edge_ok env x" by (simp add: list_all_iff)
  with x(2) show "map_of (g_nodes g) (arc_from a) \<noteq> None" "map_of (g_nodes g) (arc_to a) \<noteq> None"
    "arc_from a \<noteq> []" "arc_to a \<noteq> []" "directed \<noteq> Some False \<Longrightarrow> \<not> arc_reverse a"
    by (auto simp: arcs_of_edge_def row_edge_ok_def split: if_splits option.splits)
qed

section \<open>A sample graph\<close>

definition sample_routing_env :: routing_env where
  "sample_routing_env =
     \<lparr>re_parse = (\<lambda>s. map_option Finite (map_of [(''1'', 1), (''2'', 2), (''5'', 5)] s)), re_round = Finite,
      re_haversine = (\<lambda>_ _ _ _. Finite 1), re_properties = (\<lambda>_. None), re_print = (\<lambda>_. [])\<rparr>"

definition sample_arc :: "string \<Rightarrow> string \<Rightarrow> rat \<Rightarrow> routing_arc" where
  "sample_arc u v c =
     \<lparr>arc_from = u, arc_to = v, arc_edge = \<lparr>ed_id = [], ed_from = u, ed_to = v, ed_cost = Some (Finite c),
       ed_distance = None, ed_properties = None\<rparr>, arc_reverse = False\<rparr>"

definition sample_graph :: routing_graph where
  "sample_graph =
     \<lparr>g_nodes = map (\<lambda>v. (v, \<lparr>rn_id = v, rn_lon = Finite 0, rn_lat = Finite 0, rn_has_coordinate = False\<rparr>)) [''a'', ''b'', ''c''],
      g_arcs = [sample_arc ''a'' ''b'' 5, sample_arc ''a'' ''c'' 1, sample_arc ''c'' ''b'' 2]\<rparr>"

lemma sample_laws: "rounding_laws sample_routing_env" "costs_finite sample_routing_env sample_graph ''cost''"
proof -
  show "rounding_laws sample_routing_env"
    by (auto simp: rounding_laws_def sample_routing_env_def number_def float_key_def less_eq_prod_def)
  show "costs_finite sample_routing_env sample_graph ''cost''" by code_simp
qed

definition sample_route_request :: routing_request where
  "sample_route_request =
     \<lparr>rt_from_id = ''a'', rt_to_id = ''b'', rt_from_lon = None, rt_from_lat = None, rt_to_lon = None,
      rt_to_lat = None, rt_cost_field = ''cost'', rt_directed = Some False, rt_max_cost = Finite 0\<rparr>"

section \<open>Properties\<close>

text \<open>
  Claim C24: The search is Dijkstra's algorithm done right: for every graph whose usable costs are
  finite, and any IEEE-like rounding, \<open>shortest_paths\<close> ends within its fuel; it fails exactly where some
  node that a route reaches has an outgoing edge with no cost or a negative one, and otherwise the
  distance map holds, for every node, the least cost (in the program's own left-to-right floating-point
  sum) of a route from the start within the maximum, and nothing where there is no such route.
\<close>

theorem shortest_paths_exact:
  assumes "rounding_laws env" "costs_finite env g field"
  shows "case shortest_paths env g start field maxc of
      None \<Rightarrow> False
    | Some (Inl _) \<Rightarrow> bad_arc_reachable env g field maxc start
    | Some (Inr se) \<Rightarrow> \<not> bad_arc_reachable env g field maxc start
        \<and> (\<forall>v. least_cost env g field maxc start v (se_dist se v))"
proof -
  obtain r where "shortest_paths env g start field maxc = Some r" "loop_result env g field maxc start r"
    by (rule shortest_paths_result [OF assms])
  with loop_result_exact [OF assms] show ?thesis by (cases r) fastforce+
qed

theorem shortest_paths_exact_witness:
  "\<exists>se. shortest_paths sample_routing_env sample_graph ''a'' ''cost'' (Finite 0) = Some (Inr se)
     \<and> se_dist se ''b'' = Some (Finite 3)
     \<and> least_cost sample_routing_env sample_graph ''cost'' (Finite 0) ''a'' ''b'' (Some (Finite 3))"
proof -
  have "(case shortest_paths sample_routing_env sample_graph ''a'' ''cost'' (Finite 0) of
      Some (Inr se) \<Rightarrow> se_dist se ''b'' = Some (Finite 3) | _ \<Rightarrow> False)" by code_simp
  then obtain se where "shortest_paths sample_routing_env sample_graph ''a'' ''cost'' (Finite 0) = Some (Inr se)"
    "se_dist se ''b'' = Some (Finite 3)"
    by (auto split: option.splits sum.splits)
  with shortest_paths_exact [OF sample_laws, of "Finite 0" "''a''"] show ?thesis by (auto dest: spec [of _ "''b''"])
qed





definition sample_routing_row :: "string \<Rightarrow> string \<Rightarrow> string \<Rightarrow> string \<Rightarrow> routing_row" where
  "sample_routing_row kind row_id end_id cost =
     \<lparr>rr_record_type = kind, rr_id = row_id, rr_from_id = end_id, rr_to_id = end_id, rr_lat = [], rr_lon = [],
      rr_cost = cost, rr_distance = [], rr_properties = []\<rparr>"

lemma sample_row_texts:
  "trim_space ''Node'' = ''Node''" "trim_space ''edge'' = ''edge''" "trim_space ''a'' = ''a''" "trim_space [] = []"
  "trim_space ''2'' = ''2''" "to_lower ''Node'' = ''node''" "to_lower ''edge'' = ''edge''"
  "is_valid_identifier ''roads''" "\<not> is_data_dock_system_object ''roads''"
  by code_simp+


end
