(* ===== verification/Pipelines.thy ===== *)
theory Pipelines
  imports NamedStore SqlUtil "HOL-Library.Monad_Syntax" "HOL-Library.List_Lexorder" "HOL-Library.Product_Lexorder"
begin

text \<open>
  Versioned SQL pipelines (\<^verbatim>\<open>pipelines.go\<close>): validation, append-only storage of versions, portable
  bundles, the bounded worker pool that runs the steps, and the record of a run.

  \<^verbatim>\<open>encoding/json\<close>, \<^verbatim>\<open>crypto/sha256\<close>, the time format, Unicode case folding and the text of an error
  are parameters (\<open>pipeline_env\<close>).  The two tables are lists of rows; a statement on them
  may fail (\<open>pe_fails\<close>).  Times are integers.
\<close>

section \<open>Definitions and limits\<close>

definition max_pipeline_name_length :: int where "max_pipeline_name_length = 128"
definition max_pipeline_description_length :: int where "max_pipeline_description_length = 4000"
definition max_pipeline_steps :: int where "max_pipeline_steps = 32"
definition max_pipeline_step_name_length :: int where "max_pipeline_step_name_length = 128"
definition max_pipeline_sql_length :: int where "max_pipeline_sql_length = 65536"
definition max_pipeline_parallelism :: int where "max_pipeline_parallelism = 4"
definition max_pipeline_bundle_bytes :: int where "max_pipeline_bundle_bytes = 16777216"
definition max_bundle_pipelines :: int where "max_bundle_pipelines = 512"

definition pipeline_bundle_format :: string where "pipeline_bundle_format = ''datadock.pipeline.bundle''"
definition pipeline_bundle_schema_version :: int where "pipeline_bundle_schema_version = 1"

record pipeline_step =
  ps_name :: string
  ps_sql :: string

record pipeline =
  pl_name :: string
  pl_description :: string
  pl_version :: int
  pl_parallelism :: int
  pl_steps :: "pipeline_step list"
  pl_created :: int
  pl_updated :: int

record pipeline_lineage =
  ln_step_name :: string
  ln_sql_sha256 :: string
  ln_sources :: "string list"
  ln_artifact :: string
  ln_columns :: "string list"
  ln_row_count :: nat
  ln_elapsed :: int
  ln_status :: string
  ln_error :: string

record pipeline_run =
  pr_run_id :: string
  pr_name :: string
  pr_version :: int
  pr_started :: int
  pr_finished :: int
  pr_status :: string
  pr_lineage :: "pipeline_lineage list"
  pr_error :: string

record pipeline_bundle =
  pb_format :: string
  pb_schema_version :: int
  pb_exported :: int
  pb_pipelines :: "pipeline list"

datatype pipeline_failure = Step_Failed string string | Context_Error

datatype trailing_data = Only_Value | More_Than_One_Value | Bad_Trailing_Data

record pipeline_env =
  pe_encode :: "pipeline \<Rightarrow> string"
  pe_decode :: "string \<Rightarrow> pipeline option"
  pe_encode_bundle :: "pipeline_bundle \<Rightarrow> string"
  pe_decode_bundle :: "string \<Rightarrow> (pipeline_bundle \<times> trailing_data) option"
  pe_encode_lineage :: "pipeline_lineage list \<Rightarrow> string"
  pe_decode_lineage :: "string \<Rightarrow> pipeline_lineage list option"
  pe_format_time :: "int \<Rightarrow> string"
  pe_parse_time :: "string \<Rightarrow> int option"
  pe_sha256 :: "string \<Rightarrow> string"
  pe_lower :: "string \<Rightarrow> string"
  pe_failure_text :: "pipeline_failure \<Rightarrow> string"
  pe_fails :: exec_env

section \<open>Validation\<close>

text \<open>The steps after the names in \<open>seen\<close>.\<close>

fun validate_steps :: "pipeline_env \<Rightarrow> string list \<Rightarrow> pipeline_step list \<Rightarrow> app_error + pipeline_step list" where
  "validate_steps env seen [] = Inr []"
| "validate_steps env seen (s # ss) =
     (let nam = trim_space (ps_name s); sql = trim_space (ps_sql s); key = pe_lower env nam in
      if nam = [] then Inl (Message ''step name is required'')
      else if int (length nam) > max_pipeline_step_name_length then Inl (Message ''step name is too long'')
      else if key \<in> set seen then Inl (Message ''step name is duplicated'')
      else if sql = [] then Inl (Message ''step SQL is required'')
      else if int (length sql) > max_pipeline_sql_length then Inl (Message ''step SQL is too long'')
      else if \<not> is_result_producing sql then Inl (Message ''step must be a single result-producing statement'')
      else (case validate_steps env (key # seen) ss of
          Inl e \<Rightarrow> Inl e
        | Inr rest \<Rightarrow> Inr (\<lparr>ps_name = nam, ps_sql = sql\<rparr> # rest)))"

definition validate_pipeline_definition :: "pipeline_env \<Rightarrow> pipeline \<Rightarrow> app_error + pipeline" where
  "validate_pipeline_definition env p =
     (let nam = trim_space (pl_name p); desc = trim_space (pl_description p);
          par = (if pl_parallelism p \<le> 0 then 1 else pl_parallelism p) in
      if nam = [] then Inl (Message ''pipeline name is required'')
      else if int (length nam) > max_pipeline_name_length then Inl (Message ''pipeline name is too long'')
      else if int (length desc) > max_pipeline_description_length then Inl (Message ''pipeline description is too long'')
      else if par > max_pipeline_parallelism then Inl (Message ''pipeline max_parallelism is out of range'')
      else if pl_steps p = [] then Inl (Message ''pipeline requires at least one step'')
      else if int (length (pl_steps p)) > max_pipeline_steps then Inl (Message ''pipeline has too many steps'')
      else (case validate_steps env [] (pl_steps p) of
          Inl e \<Rightarrow> Inl e
        | Inr steps \<Rightarrow>
            Inr (p\<lparr>pl_name := nam, pl_description := desc, pl_parallelism := par, pl_steps := steps\<rparr>)))"

section \<open>The tables\<close>

record definition_row =
  dr_name :: string
  dr_version :: int
  dr_json :: string
  dr_created :: string
  dr_updated :: string

record run_row =
  rr_run_id :: string
  rr_pipeline_name :: string
  rr_pipeline_version :: int
  rr_started :: string
  rr_finished :: string
  rr_status :: string
  rr_lineage :: string
  rr_error :: string

record pipeline_store =
  st_definitions :: "definition_row list"
  st_runs :: "run_row list"

definition exec_result :: "pipeline_env \<Rightarrow> string \<Rightarrow> string \<Rightarrow> app_error + unit" where
  "exec_result env label key = (if pe_fails env label key then Inl (Exec_Failed label) else Inr ())"

definition ensure_pipeline_tables :: "pipeline_env \<Rightarrow> app_error + unit" where
  "ensure_pipeline_tables env =
     (case exec_result env ''pipeline.ensure_table'' [] of
        Inl e \<Rightarrow> Inl e
      | Inr _ \<Rightarrow> exec_result env ''pipeline_run.ensure_table'' [])"

fun decode_definitions :: "pipeline_env \<Rightarrow> definition_row list \<Rightarrow> app_error + pipeline list" where
  "decode_definitions env [] = Inr []"
| "decode_definitions env (r # rs) =
     (case pe_decode env (dr_json r) of
        None \<Rightarrow> Inl (Message ''decode pipeline'')
      | Some p \<Rightarrow>
          (case decode_definitions env rs of
             Inl e \<Rightarrow> Inl e
           | Inr ps \<Rightarrow>
               Inr (p\<lparr>pl_name := dr_name r, pl_version := dr_version r,
                      pl_parallelism := (if pl_parallelism p \<le> 0 then 1 else pl_parallelism p)\<rparr> # ps)))"

text \<open>\<open>rows\<close> is what the query selects.\<close>

definition list_pipeline_rows :: "pipeline_env \<Rightarrow> string \<Rightarrow> definition_row list \<Rightarrow> app_error + pipeline list" where
  "list_pipeline_rows env key rows =
     (case exec_result env ''pipeline.list'' key of Inl e \<Rightarrow> Inl e | Inr _ \<Rightarrow> decode_definitions env rows)"

definition list_pipeline_versions :: "pipeline_env \<Rightarrow> pipeline_store \<Rightarrow> string \<Rightarrow> app_error + pipeline list" where
  "list_pipeline_versions env st raw =
     (let nam = trim_space raw in
      if nam = [] then Inr []
      else (case ensure_pipeline_tables env of
          Inl e \<Rightarrow> Inl e
        | Inr _ \<Rightarrow>
            (case list_pipeline_rows env nam (rows_of dr_name nam (st_definitions st)) of
               Inl e \<Rightarrow> Inl e
             | Inr ps \<Rightarrow> Inr (sort_key pl_version ps))))"

text \<open>The order of the names is the order of their bytes.\<close>

definition list_order :: "pipeline_env \<Rightarrow> pipeline \<Rightarrow> string" where
  "list_order env p = pe_lower env (pl_name p)"

fun keep_latest :: "pipeline list \<Rightarrow> pipeline list \<Rightarrow> pipeline list" where
  "keep_latest latest [] = latest"
| "keep_latest latest (p # ps) =
     keep_latest
       (case find (\<lambda>c. pl_name c = pl_name p) latest of
          None \<Rightarrow> latest @ [p]
        | Some c \<Rightarrow> if pl_version p > pl_version c then map (\<lambda>c. if pl_name c = pl_name p then p else c) latest else latest)
       ps"

definition list_pipelines :: "pipeline_env \<Rightarrow> pipeline_store \<Rightarrow> app_error + pipeline list" where
  "list_pipelines env st =
     (case ensure_pipeline_tables env of
        Inl e \<Rightarrow> Inl e
      | Inr _ \<Rightarrow>
          (case list_pipeline_rows env [] (st_definitions st) of
             Inl e \<Rightarrow> Inl e
           | Inr ps \<Rightarrow> Inr (sort_key (list_order env) (keep_latest [] ps))))"

definition load_pipeline :: "pipeline_env \<Rightarrow> pipeline_store \<Rightarrow> string \<Rightarrow> int \<Rightarrow> app_error + pipeline" where
  "load_pipeline env st nam version =
     (case list_pipeline_versions env st nam of
        Inl e \<Rightarrow> Inl e
      | Inr history \<Rightarrow>
          if history = [] then Inl (Message ''pipeline was not found'')
          else if version \<le> 0 then Inr (last history)
          else (case find (\<lambda>p. pl_version p = version) history of
              Some p \<Rightarrow> Inr p
            | None \<Rightarrow> Inl (Message ''pipeline version was not found'')))"

definition version_row :: "pipeline_env \<Rightarrow> pipeline \<Rightarrow> definition_row" where
  "version_row env p =
     \<lparr>dr_name = pl_name p, dr_version = pl_version p, dr_json = pe_encode env p,
      dr_created = pe_format_time env (pl_created p), dr_updated = pe_format_time env (pl_updated p)\<rparr>"

definition next_version :: "int \<Rightarrow> pipeline list \<Rightarrow> pipeline \<Rightarrow> pipeline" where
  "next_version now history p =
     (if history = [] then p\<lparr>pl_version := 1, pl_created := now, pl_updated := now\<rparr>
      else p\<lparr>pl_version := pl_version (last history) + 1, pl_created := pl_created (last history), pl_updated := now\<rparr>)"

definition save_pipeline ::
    "pipeline_env \<Rightarrow> int \<Rightarrow> pipeline_store \<Rightarrow> pipeline \<Rightarrow> (app_error + pipeline) \<times> pipeline_store" where
  "save_pipeline env now st raw =
     (case validate_pipeline_definition env raw of
        Inl e \<Rightarrow> (Inl e, st)
      | Inr p \<Rightarrow>
          (case ensure_pipeline_tables env of
             Inl e \<Rightarrow> (Inl e, st)
           | Inr _ \<Rightarrow>
               (case list_pipeline_versions env st (pl_name p) of
                  Inl e \<Rightarrow> (Inl e, st)
                | Inr history \<Rightarrow>
                    (let saved = next_version now history p in
                     case exec_result env ''pipeline.insert'' (pl_name p) of
                       Inl e \<Rightarrow> (Inl e, st)
                     | Inr _ \<Rightarrow> (Inr saved, st\<lparr>st_definitions := st_definitions st @ [version_row env saved]\<rparr>)))))"

definition delete_pipeline :: "pipeline_env \<Rightarrow> pipeline_store \<Rightarrow> string \<Rightarrow> app_error option \<times> pipeline_store" where
  "delete_pipeline env st raw =
     (let nam = trim_space raw in
      if nam = [] then (Some (Message ''pipeline name is required''), st)
      else (case ensure_pipeline_tables env of
          Inl e \<Rightarrow> (Some e, st)
        | Inr _ \<Rightarrow>
            (case exec_result env ''pipeline.delete'' nam of
               Inl e \<Rightarrow> (Some e, st)
             | Inr _ \<Rightarrow> (None, st\<lparr>st_definitions := delete_rows dr_name nam (st_definitions st)\<rparr>))))"

section \<open>Bundles\<close>

definition pipeline_definition_digest :: "pipeline_env \<Rightarrow> pipeline \<Rightarrow> string" where
  "pipeline_definition_digest env p =
     pe_sha256 env (pe_encode env (p\<lparr>pl_version := 0, pl_created := 0, pl_updated := 0\<rparr>))"

definition write_pipeline_bundle :: "pipeline_env \<Rightarrow> int \<Rightarrow> pipeline_store \<Rightarrow> app_error + string" where
  "write_pipeline_bundle env now st =
     (case ensure_pipeline_tables env of
        Inl e \<Rightarrow> Inl e
      | Inr _ \<Rightarrow>
          (case list_pipeline_rows env [] (st_definitions st) of
             Inl e \<Rightarrow> Inl e
           | Inr ps \<Rightarrow>
               Inr (pe_encode_bundle env
                 \<lparr>pb_format = pipeline_bundle_format, pb_schema_version = pipeline_bundle_schema_version,
                  pb_exported = now, pb_pipelines = sort_key (\<lambda>p. (list_order env p, pl_version p)) ps\<rparr>)))"

text \<open>The digests already known for a name; they are loaded when the name is first met.\<close>

text \<open>\<open>now k\<close> is the time of the save after \<open>k\<close> imports.\<close>

type_synonym known_digests = "string \<Rightarrow> string list option"

definition digests_for ::
    "pipeline_env \<Rightarrow> pipeline_store \<Rightarrow> known_digests \<Rightarrow> string \<Rightarrow> app_error + string list" where
  "digests_for env st known nam =
     (case known nam of
        Some ds \<Rightarrow> Inr ds
      | None \<Rightarrow>
          (case list_pipeline_versions env st nam of
             Inl e \<Rightarrow> Inl e
           | Inr history \<Rightarrow> Inr (map (pipeline_definition_digest env) history)))"

fun import_pipelines ::
    "pipeline_env \<Rightarrow> (nat \<Rightarrow> int) \<Rightarrow> known_digests \<Rightarrow> pipeline list \<times> nat \<Rightarrow> pipeline list \<Rightarrow> pipeline_store \<Rightarrow>
     (app_error + pipeline list \<times> nat) \<times> pipeline_store" where
  "import_pipelines env now known res [] st = (Inr res, st)"
| "import_pipelines env now known res (c # cs) st =
     (case validate_pipeline_definition env c of
        Inl e \<Rightarrow> (Inl e, st)
      | Inr p \<Rightarrow>
          (case digests_for env st known (pl_name p) of
             Inl e \<Rightarrow> (Inl e, st)
           | Inr ds \<Rightarrow>
               (let digest = pipeline_definition_digest env p in
                if digest \<in> set ds
                then import_pipelines env now (known(pl_name p \<mapsto> ds)) (fst res, Suc (snd res)) cs st
                else (case save_pipeline env (now (length (fst res))) st p of
                    (Inl e, st') \<Rightarrow> (Inl e, st')
                  | (Inr saved, st') \<Rightarrow>
                      import_pipelines env now (known(pl_name p \<mapsto> digest # ds)) (fst res @ [saved], snd res) cs st'))))"

text \<open>The definitions of a bundle in the order of the import.\<close>

definition bundle_definitions :: "pipeline_env \<Rightarrow> string \<Rightarrow> app_error + pipeline list" where
  "bundle_definitions env data =
     (if int (length data) > max_pipeline_bundle_bytes then Inl (Message ''pipeline bundle exceeds the byte limit'')
      else (case pe_decode_bundle env data of
          None \<Rightarrow> Inl (Message ''decode pipeline bundle'')
        | Some (b, tail) \<Rightarrow>
            if tail = More_Than_One_Value then Inl (Message ''pipeline bundle contains more than one JSON value'')
            else if tail = Bad_Trailing_Data then Inl (Message ''decode trailing pipeline bundle data'')
            else if pb_format b \<noteq> pipeline_bundle_format then Inl (Message ''unsupported pipeline bundle format'')
            else if pb_schema_version b \<noteq> pipeline_bundle_schema_version
            then Inl (Message ''unsupported pipeline bundle schema version'')
            else if int (length (pb_pipelines b)) > max_bundle_pipelines
            then Inl (Message ''pipeline bundle contains too many definitions'')
            else Inr (sort_key (\<lambda>p. (pe_lower env (trim_space (pl_name p)), pl_version p)) (pb_pipelines b))))"

definition read_pipeline_bundle ::
    "pipeline_env \<Rightarrow> (nat \<Rightarrow> int) \<Rightarrow> pipeline_store \<Rightarrow> string \<Rightarrow> (app_error + pipeline list \<times> nat) \<times> pipeline_store" where
  "read_pipeline_bundle env now st data =
     (case bundle_definitions env data of
        Inl e \<Rightarrow> (Inl e, st)
      | Inr cs \<Rightarrow> import_pipelines env now (\<lambda>_. None) ([], 0) cs st)"

end
