(* ===== verification/PipelineRuns.thy ===== *)
theory PipelineRuns
  imports Pipelines
begin

text \<open>
  Running a pipeline: the table sources named in the SQL of a step, the worker pool as a state
  machine, the lineage it yields and the record of the run.
\<close>

section \<open>Table sources of a statement\<close>

text \<open>
  The two regular expressions as scanners on bytes.  Their subexpressions never overlap on a byte, so
  the leftmost match is found without backtracking but for the closing quote of a quoted
  name and the optional keyword \<^verbatim>\<open>recursive\<close>.
\<close>

definition is_name_start :: "char \<Rightarrow> bool" where
  "is_name_start c \<longleftrightarrow> is_upper_byte c \<or> is_lower_byte c \<or> c = CHR ''_''"

definition keyword_at :: "string \<Rightarrow> string \<Rightarrow> string option" where
  "keyword_at kw s =
     (if length kw \<le> length s \<and> equal_fold (take (length kw) s) kw then Some (drop (length kw) s) else None)"

text \<open>At least one white-space byte.\<close>

definition skip_spaces :: "string \<Rightarrow> string option" where
  "skip_spaces s = (if s \<noteq> [] \<and> is_space (hd s) then Some (dropWhile is_space s) else None)"

text \<open>The length of the longest quoted body with its closing quote.\<close>

fun quoted_end :: "bool \<Rightarrow> string \<Rightarrow> nat option" where
  "quoted_end started [] = None"
| "quoted_end started (c # cs) =
     (if c \<noteq> CHR 0x22 then map_option Suc (quoted_end True cs)
      else (case cs of
          d # ds \<Rightarrow>
            if d = CHR 0x22
            then (case quoted_end True ds of
                Some n \<Rightarrow> Some (n + 2)
              | None \<Rightarrow> if started then Some 1 else None)
            else if started then Some 1 else None
        | [] \<Rightarrow> if started then Some 1 else None))"

text \<open>The name at the front with its quotes, and the rest.\<close>

definition source_name :: "string \<Rightarrow> (string \<times> string) option" where
  "source_name s =
     (case s of
        [] \<Rightarrow> None
      | c # cs \<Rightarrow>
          if c = CHR 0x22
          then map_option (\<lambda>n. (c # take n cs, drop n cs)) (quoted_end False cs)
          else if c = CHR ''[''
          then (let body = takeWhile (\<lambda>x. x \<noteq> CHR '']'') cs; rest = drop (length body) cs in
            if body \<noteq> [] \<and> rest \<noteq> [] then Some (c # body @ [CHR '']''], tl rest) else None)
          else if is_name_start c
          then (let more = takeWhile (\<lambda>x. is_ident_byte x \<or> x = CHR ''.'' \<or> x = CHR ''$'') cs in
            Some (c # more, drop (length more) cs))
          else None)"

definition source_match :: "string \<Rightarrow> (string \<times> string) option" where
  "source_match s =
     (case (case keyword_at ''from'' s of None \<Rightarrow> keyword_at ''join'' s | Some r \<Rightarrow> Some r) of
        None \<Rightarrow> None
      | Some r \<Rightarrow> (case skip_spaces r of None \<Rightarrow> None | Some t \<Rightarrow> source_name t))"

text \<open>\<^verbatim>\<open>ident as (\<close> at the front.\<close>

definition cte_head :: "string \<Rightarrow> (string \<times> string) option" where
  "cte_head s =
     (if s = [] \<or> \<not> is_name_start (hd s) then None
      else (let nam = takeWhile is_ident_byte s in
        case skip_spaces (drop (length nam) s) of
          None \<Rightarrow> None
        | Some t \<Rightarrow>
            (case keyword_at ''as'' t of
               None \<Rightarrow> None
             | Some u \<Rightarrow>
                 (case dropWhile is_space u of
                    [] \<Rightarrow> None
                  | c # rest \<Rightarrow> if c = CHR ''('' then Some (nam, rest) else None))))"

definition cte_match :: "bool \<Rightarrow> string \<Rightarrow> (string \<times> string) option" where
  "cte_match boundary s =
     (case s of
        [] \<Rightarrow> None
      | c # cs \<Rightarrow>
          if c = CHR '','' then cte_head (dropWhile is_space cs)
          else if \<not> boundary then None
          else (case keyword_at ''with'' s of
              None \<Rightarrow> None
            | Some r \<Rightarrow>
                (case skip_spaces r of
                   None \<Rightarrow> None
                 | Some t \<Rightarrow>
                     (case (case keyword_at ''recursive'' t of None \<Rightarrow> None | Some u \<Rightarrow> Option.bind (skip_spaces u) cte_head) of
                        Some hit \<Rightarrow> Some hit
                      | None \<Rightarrow> cte_head t))))"

text \<open>
  All matches from the left; \<open>prev\<close> says whether the byte in front is a word byte.  The fuel is the
  number of bytes left.
\<close>

fun find_sources :: "nat \<Rightarrow> bool \<Rightarrow> string \<Rightarrow> string list" where
  "find_sources 0 prev s = []"
| "find_sources (Suc n) prev s =
     (case s of
        [] \<Rightarrow> []
      | c # cs \<Rightarrow>
          (case (if \<not> prev \<and> is_ident_byte c then source_match s else None) of
             None \<Rightarrow> find_sources n (is_ident_byte c) cs
           | Some (nam, rest) \<Rightarrow> nam # find_sources n (is_ident_byte (last nam)) rest))"

fun find_ctes :: "nat \<Rightarrow> bool \<Rightarrow> string \<Rightarrow> string list" where
  "find_ctes 0 prev s = []"
| "find_ctes (Suc n) prev s =
     (case s of
        [] \<Rightarrow> []
      | c # cs \<Rightarrow>
          (case cte_match (\<not> prev \<and> is_ident_byte c) s of
             None \<Rightarrow> find_ctes n (is_ident_byte c) cs
           | Some (nam, rest) \<Rightarrow> nam # find_ctes n False rest))"

definition unquote_source :: "string \<Rightarrow> string" where
  "unquote_source raw =
     (let quotes = {CHR 0x22, CHR ''['', CHR '']''} in
      rev (dropWhile (\<lambda>c. c \<in> quotes) (rev (dropWhile (\<lambda>c. c \<in> quotes) (trim_space raw)))))"

definition extract_pipeline_sources :: "pipeline_env \<Rightarrow> string \<Rightarrow> string list" where
  "extract_pipeline_sources env sql =
     (let ctes = map (pe_lower env) (find_ctes (length sql) False sql);
          names = filter (\<lambda>n. n \<noteq> [] \<and> pe_lower env n \<notin> set ctes)
            (map unquote_source (find_sources (length sql) False sql)) in
      sort (remdups names))"

section \<open>One step\<close>

text \<open>What \<^verbatim>\<open>executeTinySQL\<close> reports; an empty error means success.\<close>

record query_result =
  qr_columns :: "string list"
  qr_row_count :: nat
  qr_elapsed :: int
  qr_error :: string

definition decimal_text :: "int \<Rightarrow> string" where
  "decimal_text i = (if i < 0 then CHR ''-'' # nat_digits (nat (- i)) else nat_digits (nat i))"

definition pipeline_result_artifact :: "pipeline \<Rightarrow> pipeline_step \<Rightarrow> string" where
  "pipeline_result_artifact p s =
     ''result://pipeline/'' @ pl_name p @ ''/v'' @ decimal_text (pl_version p) @ ''/'' @ ps_name s"

definition execute_pipeline_step ::
    "pipeline_env \<Rightarrow> pipeline \<Rightarrow> pipeline_step \<Rightarrow> query_result \<Rightarrow> pipeline_lineage \<times> string" where
  "execute_pipeline_step env p s r =
     (\<lparr>ln_step_name = ps_name s, ln_sql_sha256 = pe_sha256 env (ps_sql s),
       ln_sources = extract_pipeline_sources env (ps_sql s), ln_artifact = pipeline_result_artifact p s,
       ln_columns = qr_columns r, ln_row_count = qr_row_count r, ln_elapsed = qr_elapsed r,
       ln_status = (if qr_error r \<noteq> [] then ''failed'' else ''succeeded''), ln_error = qr_error r\<rparr>,
      qr_error r)"

definition skipped_pipeline_lineage ::
    "pipeline_env \<Rightarrow> pipeline \<Rightarrow> pipeline_step \<Rightarrow> pipeline_failure \<Rightarrow> pipeline_lineage" where
  "skipped_pipeline_lineage env p s e =
     \<lparr>ln_step_name = ps_name s, ln_sql_sha256 = pe_sha256 env (ps_sql s),
      ln_sources = extract_pipeline_sources env (ps_sql s), ln_artifact = pipeline_result_artifact p s,
      ln_columns = [], ln_row_count = 0, ln_elapsed = 0, ln_status = ''skipped'',
      ln_error = ''not started after pipeline failure: '' @ pe_failure_text env e\<rparr>"

section \<open>The worker pool\<close>

text \<open>
  \<open>po_next\<close> is the step the producer offers, \<open>po_closed\<close> says that \<^verbatim>\<open>jobs\<close> is closed, \<open>po_idle\<close> counts
  the workers in their \<^verbatim>\<open>select\<close>, \<open>po_running\<close> lists the steps on a worker, \<open>po_channel\<close> is the buffered
  channel of results, \<open>po_lineage\<close> and \<open>po_error\<close> are what the collector has, \<open>po_cancelled\<close> says that it
  called \<^verbatim>\<open>cancel\<close> and \<open>po_expired\<close> that the context of the request has ended.
\<close>

record pool =
  po_next :: nat
  po_closed :: bool
  po_idle :: nat
  po_running :: "nat list"
  po_channel :: "(nat \<times> pipeline_lineage \<times> string) list"
  po_lineage :: "nat \<Rightarrow> pipeline_lineage option"
  po_error :: "pipeline_failure option"
  po_cancelled :: bool
  po_expired :: bool

datatype pool_event =
  Hand_Over
| Close_Jobs
| Stop_Worker
| Finish_Step nat query_result
| Collect_Result
| Context_Ends

definition worker_count :: "pipeline \<Rightarrow> nat" where
  "worker_count p =
     (let n = pl_parallelism p; m = (if n > int (length (pl_steps p)) then int (length (pl_steps p)) else n) in
      if m < 1 then 1 else nat m)"

definition start_pool :: "pipeline \<Rightarrow> pool" where
  "start_pool p =
     \<lparr>po_next = 0, po_closed = False, po_idle = worker_count p, po_running = [], po_channel = [],
      po_lineage = (\<lambda>_. None), po_error = None, po_cancelled = False, po_expired = False\<rparr>"

definition work_done :: "pool \<Rightarrow> bool" where
  "work_done po \<longleftrightarrow> po_cancelled po \<or> po_expired po"

definition collect_result :: "nat \<times> pipeline_lineage \<times> string \<Rightarrow> pool \<Rightarrow> pool" where
  "collect_result res po =
     (case res of (i, l, e) \<Rightarrow>
       if e \<noteq> [] \<and> po_error po = None
       then po\<lparr>po_lineage := (po_lineage po)(i \<mapsto> l), po_error := Some (Step_Failed (ln_step_name l) e), po_cancelled := True\<rparr>
       else po\<lparr>po_lineage := (po_lineage po)(i \<mapsto> l)\<rparr>)"

text \<open>\<open>None\<close> where the event cannot happen.\<close>

fun pool_step :: "pipeline_env \<Rightarrow> pipeline \<Rightarrow> pool_event \<Rightarrow> pool \<Rightarrow> pool option" where
  "pool_step env p Hand_Over po =
     (if \<not> po_closed po \<and> po_next po < length (pl_steps p) \<and> 0 < po_idle po
      then Some (po\<lparr>po_next := Suc (po_next po), po_idle := po_idle po - 1, po_running := po_running po @ [po_next po]\<rparr>)
      else None)"
| "pool_step env p Close_Jobs po =
     (if \<not> po_closed po \<and> (length (pl_steps p) \<le> po_next po \<or> work_done po)
      then Some (po\<lparr>po_closed := True\<rparr>) else None)"
| "pool_step env p Stop_Worker po =
     (if 0 < po_idle po \<and> (work_done po \<or> po_closed po) then Some (po\<lparr>po_idle := po_idle po - 1\<rparr>) else None)"
| "pool_step env p (Finish_Step i r) po =
     (if i \<in> set (po_running po)
      then Some (po\<lparr>po_running := remove1 i (po_running po), po_idle := Suc (po_idle po),
        po_channel := po_channel po @ [(i, execute_pipeline_step env p (pl_steps p ! i) r)]\<rparr>)
      else None)"
| "pool_step env p Collect_Result po =
     (case po_channel po of
        [] \<Rightarrow> None
      | res # rest \<Rightarrow> Some (collect_result res (po\<lparr>po_channel := rest\<rparr>)))"
| "pool_step env p Context_Ends po =
     (if \<not> po_expired po then Some (po\<lparr>po_expired := True\<rparr>) else None)"

fun pool_run :: "pipeline_env \<Rightarrow> pipeline \<Rightarrow> pool_event list \<Rightarrow> pool \<Rightarrow> pool option" where
  "pool_run env p [] po = Some po"
| "pool_run env p (e # es) po = (case pool_step env p e po of None \<Rightarrow> None | Some po' \<Rightarrow> pool_run env p es po')"

text \<open>The results channel is closed once every worker is gone; the collector then drains it.\<close>

definition pool_finished :: "pool \<Rightarrow> bool" where
  "pool_finished po \<longleftrightarrow> po_idle po = 0 \<and> po_running po = [] \<and> po_channel po = []"

definition pool_failure :: "pool \<Rightarrow> pipeline_failure option" where
  "pool_failure po = (case po_error po of Some e \<Rightarrow> Some e | None \<Rightarrow> if po_expired po then Some Context_Error else None)"

definition step_lineage :: "pipeline_env \<Rightarrow> pipeline \<Rightarrow> pool \<Rightarrow> nat \<Rightarrow> pipeline_lineage list" where
  "step_lineage env p po i =
     (case po_lineage po i of
        Some l \<Rightarrow> [l]
      | None \<Rightarrow> (case pool_failure po of Some e \<Rightarrow> [skipped_pipeline_lineage env p (pl_steps p ! i) e] | None \<Rightarrow> []))"

definition pool_result :: "pipeline_env \<Rightarrow> pipeline \<Rightarrow> pool \<Rightarrow> pipeline_lineage list \<times> pipeline_failure option" where
  "pool_result env p po = (concat (map (step_lineage env p po) [0..<length (pl_steps p)]), pool_failure po)"

section \<open>A run and its record\<close>

text \<open>\<open>execute\<close> is what the pool yields; \<open>run_id\<close> is \<open>None\<close> where the random source fails.\<close>

definition new_pipeline_run_id :: "(nat list) option \<Rightarrow> (nat list \<Rightarrow> string) \<Rightarrow> app_error + string" where
  "new_pipeline_run_id random hex =
     (case random of None \<Rightarrow> Inl (Message ''generate pipeline run ID'') | Some bs \<Rightarrow> Inr (''pipeline_'' @ hex bs))"

definition record_pipeline_run :: "pipeline_env \<Rightarrow> pipeline_store \<Rightarrow> pipeline_run \<Rightarrow> app_error option \<times> pipeline_store" where
  "record_pipeline_run env st r =
     (case ensure_pipeline_tables env of
        Inl e \<Rightarrow> (Some e, st)
      | Inr _ \<Rightarrow>
          (case exec_result env ''pipeline_run.insert'' (pr_name r) of
             Inl e \<Rightarrow> (Some e, st)
           | Inr _ \<Rightarrow>
               (None, st\<lparr>st_runs := st_runs st @
                 [\<lparr>rr_run_id = pr_run_id r, rr_pipeline_name = pr_name r, rr_pipeline_version = pr_version r,
                   rr_started = pe_format_time env (pr_started r), rr_finished = pe_format_time env (pr_finished r),
                   rr_status = pr_status r, rr_lineage = pe_encode_lineage env (pr_lineage r), rr_error = pr_error r\<rparr>]\<rparr>)))"

definition run_of ::
    "pipeline_env \<Rightarrow> string \<Rightarrow> int \<Rightarrow> int \<Rightarrow> pipeline \<Rightarrow> pipeline_lineage list \<times> pipeline_failure option \<Rightarrow> pipeline_run" where
  "run_of env run_id started finished p res =
     \<lparr>pr_run_id = run_id, pr_name = pl_name p, pr_version = pl_version p, pr_started = started,
      pr_finished = finished, pr_status = (if snd res = None then ''succeeded'' else ''failed''),
      pr_lineage = fst res,
      pr_error = (case snd res of None \<Rightarrow> [] | Some e \<Rightarrow> pe_failure_text env e)\<rparr>"

definition run_pipeline ::
    "pipeline_env \<Rightarrow> app_error + string \<Rightarrow> int \<Rightarrow> int \<Rightarrow>
     (pipeline \<Rightarrow> pipeline_lineage list \<times> pipeline_failure option) \<Rightarrow>
     pipeline_store \<Rightarrow> string \<Rightarrow> int \<Rightarrow> (app_error + pipeline_run) \<times> pipeline_store" where
  "run_pipeline env run_id started finished execute st nam version =
     (case load_pipeline env st nam version of
        Inl e \<Rightarrow> (Inl e, st)
      | Inr stored \<Rightarrow>
          (case validate_pipeline_definition env stored of
             Inl e \<Rightarrow> (Inl (Message ''validate stored pipeline''), st)
           | Inr p \<Rightarrow>
               (case run_id of
                  Inl e \<Rightarrow> (Inl e, st)
                | Inr rid \<Rightarrow>
                    (let r = run_of env rid started finished p (execute p) in
                     case record_pipeline_run env st r of
                       (Some e, st') \<Rightarrow> (Inl e, st')
                     | (None, st') \<Rightarrow> (Inr r, st')))))"

fun decode_runs :: "pipeline_env \<Rightarrow> run_row list \<Rightarrow> app_error + pipeline_run list" where
  "decode_runs env [] = Inr []"
| "decode_runs env (r # rs) =
     (case (pe_parse_time env (rr_started r), pe_parse_time env (rr_finished r), pe_decode_lineage env (rr_lineage r)) of
        (Some s, Some f, Some l) \<Rightarrow>
          (case decode_runs env rs of
             Inl e \<Rightarrow> Inl e
           | Inr runs \<Rightarrow>
               Inr (\<lparr>pr_run_id = rr_run_id r, pr_name = rr_pipeline_name r, pr_version = rr_pipeline_version r,
                     pr_started = s, pr_finished = f, pr_status = rr_status r, pr_lineage = l,
                     pr_error = rr_error r\<rparr> # runs))
      | _ \<Rightarrow> Inl (Message ''decode pipeline run''))"

definition list_pipeline_runs :: "pipeline_env \<Rightarrow> pipeline_store \<Rightarrow> string \<Rightarrow> app_error + pipeline_run list" where
  "list_pipeline_runs env st raw =
     (case ensure_pipeline_tables env of
        Inl e \<Rightarrow> Inl e
      | Inr _ \<Rightarrow>
          (let nam = trim_space raw;
               rows = (if nam = [] then st_runs st else rows_of rr_pipeline_name nam (st_runs st)) in
           case exec_result env ''pipeline_run.list'' nam of
             Inl e \<Rightarrow> Inl e
           | Inr _ \<Rightarrow>
               (case decode_runs env rows of
                  Inl e \<Rightarrow> Inl e
                | Inr runs \<Rightarrow> Inr (sort_key (\<lambda>r. - pr_started r) runs))))"

end
