(* ===== verification/PipelinesCorrect.thy ===== *)
theory PipelinesCorrect
  imports PipelineRuns
begin

text \<open>
  Correctness of the pipeline store: validation is idempotent, every name has the versions 1 to n,
  a saved version is permanent until its name is deleted, a bundle is imported once.
\<close>

section \<open>Validation is idempotent\<close>

lemma validate_steps_fixed:
  "validate_steps env seen ss = Inr ts \<Longrightarrow> validate_steps env seen ts = Inr ts \<and> length ts = length ss"
  by (induction env seen ss arbitrary: ts rule: validate_steps.induct)
    (auto simp: Let_def split: if_splits sum.splits)

text \<open>What validation promises of its result.\<close>

definition definition_ok :: "pipeline_env \<Rightarrow> pipeline \<Rightarrow> bool" where
  "definition_ok env q \<longleftrightarrow>
     pl_name q \<noteq> [] \<and> trim_space (pl_name q) = pl_name q \<and> trim_space (pl_description q) = pl_description q
     \<and> int (length (pl_name q)) \<le> max_pipeline_name_length
     \<and> int (length (pl_description q)) \<le> max_pipeline_description_length
     \<and> 1 \<le> pl_parallelism q \<and> pl_parallelism q \<le> max_pipeline_parallelism
     \<and> pl_steps q \<noteq> [] \<and> int (length (pl_steps q)) \<le> max_pipeline_steps
     \<and> validate_steps env [] (pl_steps q) = Inr (pl_steps q)"

lemma validated_ok:
  assumes "validate_pipeline_definition env p = Inr q"
  shows "definition_ok env q" "pl_name q = trim_space (pl_name p)"
proof -
  obtain ts where ts: "validate_steps env [] (pl_steps p) = Inr ts"
    using assms by (auto simp: validate_pipeline_definition_def Let_def split: if_splits sum.splits)
  from assms ts have q: "q = p\<lparr>pl_name := trim_space (pl_name p), pl_description := trim_space (pl_description p),
      pl_parallelism := (if pl_parallelism p \<le> 0 then 1 else pl_parallelism p), pl_steps := ts\<rparr>"
    and rest: "trim_space (pl_name p) \<noteq> []" "int (length (trim_space (pl_name p))) \<le> max_pipeline_name_length"
      "int (length (trim_space (pl_description p))) \<le> max_pipeline_description_length"
      "(if pl_parallelism p \<le> 0 then 1 else pl_parallelism p) \<le> max_pipeline_parallelism"
      "pl_steps p \<noteq> []" "int (length (pl_steps p)) \<le> max_pipeline_steps"
    by (simp_all add: validate_pipeline_definition_def Let_def split: if_splits)
  from validate_steps_fixed [OF ts] rest show "definition_ok env q" "pl_name q = trim_space (pl_name p)"
    by (auto simp: definition_ok_def q)
qed

lemma ok_validates: "definition_ok env q \<Longrightarrow> validate_pipeline_definition env q = Inr q"
  by (simp add: definition_ok_def validate_pipeline_definition_def)

lemma ok_stamp [simp]:
  "definition_ok env (q\<lparr>pl_version := v, pl_created := c, pl_updated := u\<rparr>) = definition_ok env q"
  by (simp add: definition_ok_def)

lemma ok_next_version [simp]: "definition_ok env (next_version now h q) = definition_ok env q"
  by (simp add: next_version_def)

lemma next_version_fields [simp]:
  "pl_name (next_version now h q) = pl_name q" "pl_steps (next_version now h q) = pl_steps q"
  "pl_description (next_version now h q) = pl_description q" "pl_parallelism (next_version now h q) = pl_parallelism q"
  by (simp_all add: next_version_def)

section \<open>The store as a map from names to histories\<close>

text \<open>What \<^verbatim>\<open>encoding/json\<close> promises on texts that are valid UTF-8 (the predicate \<open>valid\<close>).\<close>

definition pipeline_texts :: "pipeline \<Rightarrow> string list" where
  "pipeline_texts p = pl_name p # pl_description p # concat (map (\<lambda>s. [ps_name s, ps_sql s]) (pl_steps p))"

definition json_laws :: "pipeline_env \<Rightarrow> (string \<Rightarrow> bool) \<Rightarrow> bool" where
  "json_laws env valid \<longleftrightarrow>
     (\<forall>p. list_all valid (pipeline_texts p) \<longrightarrow> pe_decode env (pe_encode env p) = Some p)
     \<and> (\<forall>t. valid t \<longrightarrow> valid (trim_space t))"

lemma validated_steps_texts:
  "validate_steps env seen ss = Inr ts \<Longrightarrow> \<forall>t. valid t \<longrightarrow> valid (trim_space t) \<Longrightarrow>
   list_all (\<lambda>s. valid (ps_name s) \<and> valid (ps_sql s)) ss \<Longrightarrow>
   list_all (\<lambda>s. valid (ps_name s) \<and> valid (ps_sql s)) ts"
  by (induction env seen ss arbitrary: ts rule: validate_steps.induct)
    (auto simp: Let_def split: if_splits sum.splits)

lemma texts_valid_iff:
  "list_all valid (pipeline_texts p) \<longleftrightarrow>
   valid (pl_name p) \<and> valid (pl_description p) \<and> list_all (\<lambda>s. valid (ps_name s) \<and> valid (ps_sql s)) (pl_steps p)"
  by (auto simp: pipeline_texts_def list_all_iff)

lemma validated_texts:
  assumes "validate_pipeline_definition env p = Inr q" "json_laws env valid" "list_all valid (pipeline_texts p)"
  shows "list_all valid (pipeline_texts q)"
proof -
  obtain ts where ts: "validate_steps env [] (pl_steps p) = Inr ts"
    using assms(1) by (auto simp: validate_pipeline_definition_def Let_def split: if_splits sum.splits)
  from assms(1) ts have q: "pl_name q = trim_space (pl_name p)" "pl_description q = trim_space (pl_description p)"
    "pl_steps q = ts"
    by (auto simp: validate_pipeline_definition_def Let_def split: if_splits)
  from validated_steps_texts [OF ts, of valid] assms(2,3) show ?thesis
    by (simp add: texts_valid_iff json_laws_def q)
qed

text \<open>A row that a save wrote, and the pipeline it stands for.\<close>

definition row_pipeline :: "pipeline_env \<Rightarrow> definition_row \<Rightarrow> pipeline" where
  "row_pipeline env r = the (pe_decode env (dr_json r))"

definition row_ok :: "pipeline_env \<Rightarrow> definition_row \<Rightarrow> bool" where
  "row_ok env r \<longleftrightarrow>
     r = version_row env (row_pipeline env r) \<and> pe_decode env (dr_json r) = Some (row_pipeline env r)
     \<and> definition_ok env (row_pipeline env r)"

definition history :: "pipeline_env \<Rightarrow> pipeline_store \<Rightarrow> string \<Rightarrow> pipeline list" where
  "history env st nam = map (row_pipeline env) (rows_of dr_name nam (st_definitions st))"

definition store_ok :: "pipeline_env \<Rightarrow> pipeline_store \<Rightarrow> bool" where
  "store_ok env st \<longleftrightarrow>
     list_all (row_ok env) (st_definitions st)
     \<and> (\<forall>nam. map pl_version (history env st nam) = map int [1..<Suc (length (history env st nam))])"

definition reads_ok :: "pipeline_env \<Rightarrow> string \<Rightarrow> bool" where
  "reads_ok env nam \<longleftrightarrow>
     ensure_pipeline_tables env = Inr () \<and> exec_result env ''pipeline.list'' nam = Inr ()"

lemma row_ok_version:
  assumes "row_ok env r"
  shows "dr_name r = pl_name (row_pipeline env r)" "dr_version r = pl_version (row_pipeline env r)"
    "pe_decode env (dr_json r) = Some (row_pipeline env r)" "definition_ok env (row_pipeline env r)"
proof -
  have r: "r = version_row env (row_pipeline env r)" using assms by (simp add: row_ok_def)
  show "dr_name r = pl_name (row_pipeline env r)" by (subst r) (simp add: version_row_def)
  show "dr_version r = pl_version (row_pipeline env r)" by (subst r) (simp add: version_row_def)
qed (use assms in \<open>simp_all add: row_ok_def\<close>)

lemma decode_rows:
  "list_all (row_ok env) rs \<Longrightarrow> decode_definitions env rs = Inr (map (row_pipeline env) rs)"
proof (induction rs)
  case (Cons r rs)
  then have "row_ok env r" by simp
  note r = row_ok_version [OF this]
  have "1 \<le> pl_parallelism (row_pipeline env r)" using r(4) by (simp add: definition_ok_def)
  with Cons r show ?case by simp
qed simp

lemma rows_of_list_all: "list_all P t \<Longrightarrow> list_all P (rows_of key k t)"
  by (auto simp: rows_of_def list_all_iff)

lemma listed_versions:
  assumes "store_ok env st" "reads_ok env (trim_space nam)" "trim_space nam \<noteq> []"
  shows "list_pipeline_versions env st nam = Inr (history env st (trim_space nam))"
proof -
  let ?h = "history env st (trim_space nam)"
  have "map pl_version ?h = map int [1..<Suc (length ?h)]" using assms(1) by (simp add: store_ok_def)
  then have "sorted (map pl_version ?h)" by (simp add: sorted_map sorted_wrt_iff_nth_less del: upt_Suc)
  then have "sort_key pl_version ?h = ?h" by (rule sort_key_id_if_sorted)
  moreover have "decode_definitions env (rows_of dr_name (trim_space nam) (st_definitions st)) = Inr ?h"
    unfolding history_def by (rule decode_rows) (use assms(1) in \<open>simp add: store_ok_def rows_of_list_all\<close>)
  ultimately show ?thesis
    using assms(2,3) by (simp add: list_pipeline_versions_def list_pipeline_rows_def reads_ok_def)
qed

lemma history_facts:
  assumes "store_ok env st" "p \<in> set (history env st nam)"
  shows "pl_name p = nam" "definition_ok env p"
proof -
  from assms(2) obtain r where r: "r \<in> set (st_definitions st)" "dr_name r = nam" "p = row_pipeline env r"
    by (auto simp: history_def rows_of_def)
  then have "row_ok env r" using assms(1) by (simp add: store_ok_def list_all_iff)
  from row_ok_version [OF this] r show "pl_name p = nam" "definition_ok env p" by simp_all
qed

lemma history_nth:
  assumes "store_ok env st" "k < length (history env st nam)"
  shows "pl_version (history env st nam ! k) = int k + 1"
proof -
  have "map pl_version (history env st nam) ! k = map int [1..<Suc (length (history env st nam))] ! k"
    using assms(1) by (simp add: store_ok_def)
  with assms(2) show ?thesis by (simp del: upt_Suc)
qed

section \<open>The operations on histories\<close>

lemma listing_reads:
  "list_pipeline_versions env st nam = Inr h \<Longrightarrow> trim_space nam \<noteq> [] \<Longrightarrow> reads_ok env (trim_space nam)"
  by (auto simp: list_pipeline_versions_def list_pipeline_rows_def reads_ok_def Let_def split: sum.splits)

lemma row_pipeline_version_row:
  "pe_decode env (pe_encode env q) = Some q \<Longrightarrow> row_pipeline env (version_row env q) = q"
  by (simp add: row_pipeline_def version_row_def)

lemma versions_append: "[Suc 0..<Suc (Suc n)] = [Suc 0..<Suc n] @ [Suc n]"
  by simp

lemma append_version_ok:
  assumes "store_ok env st" "pe_decode env (pe_encode env q) = Some q" "definition_ok env q"
    and "pl_version q = int (length (history env st (pl_name q))) + 1"
    and "st_definitions st' = st_definitions st @ [version_row env q]"
  shows "history env st' nam = (if nam = pl_name q then history env st nam @ [q] else history env st nam)"
    and "store_ok env st'"
proof -
  note q = row_pipeline_version_row [OF assms(2)]
  have nam: "dr_name (version_row env q) = pl_name q" by (simp add: version_row_def)
  show h: "history env st' nam = (if nam = pl_name q then history env st nam @ [q] else history env st nam)" for nam
    by (simp add: history_def assms(5) q nam)
  have "row_ok env (version_row env q)"
    using q assms(2,3) by (simp add: row_ok_def) (simp add: version_row_def)
  with assms(1,4,5) show "store_ok env st'" by (simp add: store_ok_def h versions_append del: upt_Suc)
qed

lemma save_appends:
  assumes "store_ok env st" "json_laws env valid" "list_all valid (pipeline_texts p)"
    and save: "save_pipeline env now st p = (Inr q, st')"
  shows "validate_pipeline_definition env p = Inr (q\<lparr>pl_version := pl_version p, pl_created := pl_created p, pl_updated := pl_updated p\<rparr>)"
    and "pl_version q = int (length (history env st (pl_name q))) + 1" "definition_ok env q"
    and "pe_decode env (pe_encode env q) = Some q"
    and "st_definitions st' = st_definitions st @ [version_row env q]" "st_runs st' = st_runs st"
    and "reads_ok env (pl_name q)"
proof -
  obtain v where v: "validate_pipeline_definition env p = Inr v"
    using save by (auto simp: save_pipeline_def split: sum.splits)
  obtain h where h: "list_pipeline_versions env st (pl_name v) = Inr h"
    and q: "q = next_version now h v" and st': "st' = st\<lparr>st_definitions := st_definitions st @ [version_row env q]\<rparr>"
    using save v by (auto simp: save_pipeline_def Let_def split: sum.splits)
  note ok = validated_ok [OF v]
  have nam: "trim_space (pl_name v) = pl_name v" "pl_name v \<noteq> []" using ok(1) by (simp_all add: definition_ok_def)
  have reads: "reads_ok env (pl_name v)" using listing_reads [OF h] nam by simp
  with h listed_versions [OF assms(1), of "pl_name v"] nam have hist: "h = history env st (pl_name v)" by simp
  have name_q: "pl_name q = pl_name v" using q by simp
  show "pl_version q = int (length (history env st (pl_name q))) + 1"
  proof (cases "h = []")
    case True
    with q hist show ?thesis by (simp add: next_version_def)
  next
    case False
    then have "last h = h ! (length h - 1)" "length h - 1 < length h" by (simp_all add: last_conv_nth)
    moreover have "int (length h - 1) + 1 = int (length h)" using False by (cases h) simp_all
    ultimately have "pl_version (last h) = int (length h)"
      using history_nth [OF assms(1), of "length h - 1" "pl_name v"] hist by simp
    with False q hist show ?thesis by (simp add: next_version_def)
  qed
  show "definition_ok env q" using ok(1) q by simp
  have "list_all valid (pipeline_texts q)"
    using validated_texts [OF v assms(2,3)] by (simp add: texts_valid_iff q)
  then show "pe_decode env (pe_encode env q) = Some q" using assms(2) by (simp add: json_laws_def)
  show "st_definitions st' = st_definitions st @ [version_row env q]" "st_runs st' = st_runs st"
    by (simp_all add: st')
  show "reads_ok env (pl_name q)" using reads name_q by simp
  have "pl_version v = pl_version p" "pl_created v = pl_created p" "pl_updated v = pl_updated p"
    using v by (auto simp: validate_pipeline_definition_def Let_def split: if_splits sum.splits)
  then have "v = q\<lparr>pl_version := pl_version p, pl_created := pl_created p, pl_updated := pl_updated p\<rparr>"
    unfolding q next_version_def by (cases v) simp
  with v show "validate_pipeline_definition env p = Inr (q\<lparr>pl_version := pl_version p, pl_created := pl_created p, pl_updated := pl_updated p\<rparr>)"
    by simp
qed

lemma save_fails: "save_pipeline env now st p = (Inl e, st') \<Longrightarrow> st' = st"
  by (auto simp: save_pipeline_def Let_def split: sum.splits)

lemma delete_clears:
  assumes "delete_pipeline env st nam = (res, st')" "store_ok env st"
  shows "store_ok env st'"
    and "history env st' k = (if k = trim_space nam \<and> res = None then [] else history env st k)"
    and "st_runs st' = st_runs st"
proof -
  have cases: "st' = st \<and> res \<noteq> None \<or>
      st' = st\<lparr>st_definitions := delete_rows dr_name (trim_space nam) (st_definitions st)\<rparr> \<and> res = None"
    using assms(1) by (auto simp: delete_pipeline_def Let_def split: if_splits sum.splits)
  then show h: "history env st' k = (if k = trim_space nam \<and> res = None then [] else history env st k)" for k
    by (auto simp: history_def)
  have "list_all (row_ok env) (st_definitions st')"
    using cases assms(2) by (auto simp: store_ok_def delete_rows_def list_all_iff)
  with h assms(2) show "store_ok env st'" by (simp add: store_ok_def del: upt_Suc)
  show "st_runs st' = st_runs st" using cases by auto
qed

section \<open>Imports\<close>

text \<open>One definition of a bundle: an error, a skip, or a save.\<close>

lemma import_cases:
  assumes "import_pipelines env now known res (c # cs) st = (r, st')"
  obtains (failed) e where "r = Inl e" "st' = st"
    | (skipped) p ds where "validate_pipeline_definition env c = Inr p" "digests_for env st known (pl_name p) = Inr ds"
      "pipeline_definition_digest env p \<in> set ds"
      "import_pipelines env now (known(pl_name p \<mapsto> ds)) (fst res, Suc (snd res)) cs st = (r, st')"
    | (saved) p ds q st1 where "validate_pipeline_definition env c = Inr p" "digests_for env st known (pl_name p) = Inr ds"
      "save_pipeline env (now (length (fst res))) st p = (Inr q, st1)"
      "import_pipelines env now (known(pl_name p \<mapsto> pipeline_definition_digest env p # ds)) (fst res @ [q], snd res) cs st1
        = (r, st')"
proof (cases "validate_pipeline_definition env c")
  case Inl
  with assms failed show thesis by auto
next
  case v: (Inr p)
  show thesis
  proof (cases "digests_for env st known (pl_name p)")
    case Inl
    with v assms failed show thesis by auto
  next
    case ds: (Inr ds)
    obtain sres st1 where save: "save_pipeline env (now (length (fst res))) st p = (sres, st1)"
      by (cases "save_pipeline env (now (length (fst res))) st p")
    consider "pipeline_definition_digest env p \<in> set ds"
      | e where "pipeline_definition_digest env p \<notin> set ds" "sres = Inl e"
      | q where "pipeline_definition_digest env p \<notin> set ds" "sres = Inr q"
      by (cases sres) auto
    then show thesis
    proof cases
      case 1
      show thesis by (rule skipped [OF v ds 1]) (use assms v ds 1 in \<open>simp add: Let_def\<close>)
    next
      case (2 e)
      with save save_fails have "st1 = st" by blast
      show thesis by (rule failed [of e]) (use assms v ds 2 save \<open>st1 = st\<close> in \<open>simp_all add: Let_def\<close>)
    next
      case (3 q)
      show thesis by (rule saved [OF v ds save [unfolded 3(2)]]) (use assms v ds 3 save in \<open>simp add: Let_def\<close>)
    qed
  qed
qed

text \<open>What a successful save does, as needed by the loop.\<close>

lemma save_step:
  assumes "store_ok env st" "json_laws env valid" "list_all valid (pipeline_texts c)"
    and v: "validate_pipeline_definition env c = Inr p" and save: "save_pipeline env now st p = (Inr q, st1)"
  shows "store_ok env st1" "st_runs st1 = st_runs st"
    and "history env st1 nam = (if nam = pl_name p then history env st nam @ [q] else history env st nam)"
    and "pipeline_definition_digest env q = pipeline_definition_digest env p"
proof -
  note S = save_appends [OF assms(1,2) validated_texts [OF v assms(2,3)] save]
  have p: "p = q\<lparr>pl_version := pl_version p, pl_created := pl_created p, pl_updated := pl_updated p\<rparr>"
    using S(1) ok_validates [OF validated_ok(1) [OF v]] by simp
  then have nam: "pl_name q = pl_name p" by (metis pipeline.select_convs(1) pipeline.surjective pipeline.update_convs(3,6,7))
  show "pipeline_definition_digest env q = pipeline_definition_digest env p"
    by (subst p) (simp add: pipeline_definition_digest_def)
  note A = append_version_ok [OF assms(1) S(4,3,2,5)]
  show "store_ok env st1" by (rule A(2))
  show "st_runs st1 = st_runs st" by (rule S(6))
  show "history env st1 nam = (if nam = pl_name p then history env st nam @ [q] else history env st nam)"
    using A(1) nam by simp
qed

lemma import_keeps:
  assumes "json_laws env valid"
  shows "import_pipelines env now known res cs st = (r, st') \<Longrightarrow> store_ok env st \<Longrightarrow>
    list_all (\<lambda>c. list_all valid (pipeline_texts c)) cs \<Longrightarrow>
    store_ok env st' \<and> st_runs st' = st_runs st \<and> (\<forall>nam. prefix (history env st nam) (history env st' nam))"
proof (induction cs arbitrary: known res st)
  case (Cons c cs)
  from Cons.prems(3) have texts: "list_all valid (pipeline_texts c)" "list_all (\<lambda>c. list_all valid (pipeline_texts c)) cs"
    by simp_all
  from Cons.prems(1) show ?case
  proof (cases rule: import_cases)
    case failed
    with Cons.prems(2) show ?thesis by simp
  next
    case (skipped p ds)
    show ?thesis by (rule Cons.IH [OF skipped(4) Cons.prems(2) texts(2)])
  next
    case (saved p ds q st1)
    note S = save_step [OF Cons.prems(2) assms texts(1) saved(1,3)]
    have "prefix (history env st nam) (history env st1 nam)" for nam using S(3) [of nam] by simp
    with Cons.IH [OF saved(4) S(1) texts(2)] S(2) show ?thesis by (auto intro: prefix_order.trans)
  qed
qed simp

text \<open>The digests of a name, and the digests the loop already holds.\<close>

definition digests :: "pipeline_env \<Rightarrow> pipeline_store \<Rightarrow> string \<Rightarrow> string set" where
  "digests env st nam = pipeline_definition_digest env ` set (history env st nam)"

definition known_ok :: "pipeline_env \<Rightarrow> pipeline_store \<Rightarrow> known_digests \<Rightarrow> bool" where
  "known_ok env st known \<longleftrightarrow> (\<forall>nam ds. known nam = Some ds \<longrightarrow> reads_ok env nam \<and> set ds = digests env st nam)"

lemma digests_for_known: "known nam = Some ds \<Longrightarrow> digests_for env st known nam = Inr ds"
  by (simp add: digests_for_def)

lemma digests_for_iff:
  assumes "store_ok env st" "known_ok env st known" "validate_pipeline_definition env c = Inr p"
  shows "digests_for env st known (pl_name p) = Inr ds \<Longrightarrow> reads_ok env (pl_name p) \<and> set ds = digests env st (pl_name p)"
    and "reads_ok env (pl_name p) \<Longrightarrow> \<exists>ds. digests_for env st known (pl_name p) = Inr ds"
proof -
  have nam: "trim_space (pl_name p) = pl_name p" "pl_name p \<noteq> []"
    using validated_ok(1) [OF assms(3)] by (simp_all add: definition_ok_def)
  note listed = listed_versions [OF assms(1), of "pl_name p", unfolded nam(1), OF _ nam(2)]
  show "\<exists>ds. digests_for env st known (pl_name p) = Inr ds" if "reads_ok env (pl_name p)"
    using listed [OF that] by (cases "known (pl_name p)") (simp_all add: digests_for_def)
  assume d: "digests_for env st known (pl_name p) = Inr ds"
  show "reads_ok env (pl_name p) \<and> set ds = digests env st (pl_name p)"
  proof (cases "known (pl_name p)")
    case None
    with d obtain h where h: "list_pipeline_versions env st (pl_name p) = Inr h"
      "ds = map (pipeline_definition_digest env) h"
      by (auto simp: digests_for_def split: sum.splits)
    from listing_reads [OF h(1)] nam have "reads_ok env (pl_name p)" by simp
    with listed h show ?thesis by (simp add: digests_def)
  next
    case (Some ds')
    with d assms(2) show ?thesis by (simp add: digests_for_def known_ok_def)
  qed
qed

lemma known_ok_update:
  assumes "known_ok env st known" "reads_ok env nam" "set ds = digests env st' nam"
    and "\<And>k. k \<noteq> nam \<Longrightarrow> digests env st' k = digests env st k"
  shows "known_ok env st' (known(nam \<mapsto> ds))"
  using assms by (auto simp: known_ok_def)

definition collected :: "pipeline_env \<Rightarrow> pipeline_store \<Rightarrow> pipeline \<Rightarrow> bool" where
  "collected env st c \<longleftrightarrow>
     (\<exists>p. validate_pipeline_definition env c = Inr p \<and> reads_ok env (pl_name p)
       \<and> pipeline_definition_digest env p \<in> digests env st (pl_name p))"

lemma digests_prefix: "prefix (history env st nam) (history env st' nam) \<Longrightarrow> digests env st nam \<subseteq> digests env st' nam"
  by (auto simp: digests_def prefix_def)

lemma import_collects:
  assumes "json_laws env valid"
  shows "import_pipelines env now known res cs st = (Inr res', st') \<Longrightarrow> store_ok env st \<Longrightarrow>
    list_all (\<lambda>c. list_all valid (pipeline_texts c)) cs \<Longrightarrow> known_ok env st known \<Longrightarrow> list_all (collected env st') cs"
proof (induction cs arbitrary: known res st)
  case (Cons c cs)
  from Cons.prems(3) have texts: "list_all valid (pipeline_texts c)" "list_all (\<lambda>c. list_all valid (pipeline_texts c)) cs"
    by simp_all
  from Cons.prems(1) show ?case
  proof (cases rule: import_cases)
    case failed
    then show ?thesis by simp
  next
    case (skipped p ds)
    note D = digests_for_iff(1) [OF Cons.prems(2,4) skipped(1,2)]
    have "known_ok env st (known(pl_name p \<mapsto> ds))"
      by (rule known_ok_update [OF Cons.prems(4)]) (use D in simp_all)
    from Cons.IH [OF skipped(4) Cons.prems(2) texts(2) this]
    have "list_all (collected env st') cs" .
    moreover have "digests env st (pl_name p) \<subseteq> digests env st' (pl_name p)"
      using import_keeps [OF assms skipped(4) Cons.prems(2) texts(2)] digests_prefix by blast
    ultimately have "collected env st' c" using D skipped(1,3) by (auto simp: collected_def)
    with \<open>list_all (collected env st') cs\<close> show ?thesis by simp
  next
    case (saved p ds q st1)
    note D = digests_for_iff(1) [OF Cons.prems(2,4) saved(1,2)]
    note S = save_step [OF Cons.prems(2) assms texts(1) saved(1,3)]
    have dig: "digests env st1 k = (if k = pl_name p then insert (pipeline_definition_digest env p) (digests env st k) else digests env st k)" for k
      using S(3) [of k] S(4) by (simp add: digests_def)
    have "known_ok env st1 (known(pl_name p \<mapsto> pipeline_definition_digest env p # ds))"
      by (rule known_ok_update [OF Cons.prems(4)]) (use D dig in simp_all)
    from Cons.IH [OF saved(4) S(1) texts(2) this]
    have "list_all (collected env st') cs" .
    moreover have "digests env st1 (pl_name p) \<subseteq> digests env st' (pl_name p)"
      using import_keeps [OF assms saved(4) S(1) texts(2)] digests_prefix by blast
    ultimately have "collected env st' c" using D dig saved(1) by (auto simp: collected_def)
    with \<open>list_all (collected env st') cs\<close> show ?thesis by simp
  qed
qed simp

lemma import_again:
  "list_all (collected env st) cs \<Longrightarrow> store_ok env st \<Longrightarrow> known_ok env st known \<Longrightarrow>
   import_pipelines env now known res cs st = (Inr (fst res, snd res + length cs), st)"
proof (induction cs arbitrary: known res)
  case (Cons c cs)
  then obtain p where p: "validate_pipeline_definition env c = Inr p" "reads_ok env (pl_name p)"
    "pipeline_definition_digest env p \<in> digests env st (pl_name p)"
    by (auto simp: collected_def)
  note D = digests_for_iff [OF Cons.prems(2,3) p(1)]
  obtain ds where ds: "digests_for env st known (pl_name p) = Inr ds" using D(2) [OF p(2)] by blast
  with D(1) have set_ds: "set ds = digests env st (pl_name p)" by blast
  have "known_ok env st (known(pl_name p \<mapsto> ds))"
    by (rule known_ok_update [OF Cons.prems(3) p(2) set_ds]) simp
  then have "import_pipelines env now (known(pl_name p \<mapsto> ds)) (fst res, Suc (snd res)) cs st
      = (Inr (fst res, Suc (snd res) + length cs), st)"
    using Cons.IH [OF _ Cons.prems(2), of "known(pl_name p \<mapsto> ds)" "(fst res, Suc (snd res))"] Cons.prems(1)
    by (simp del: fun_upd_apply)
  with p(1,3) ds set_ds show ?case by (simp add: Let_def)
qed simp

section \<open>Sequences of operations\<close>

datatype store_op =
  Save_Op int pipeline
| Delete_Op string
| Import_Op "nat \<Rightarrow> int" string
| Run_Op "app_error + string" int int "pipeline \<Rightarrow> pipeline_lineage list \<times> pipeline_failure option" string int

fun apply_op :: "pipeline_env \<Rightarrow> store_op \<Rightarrow> pipeline_store \<Rightarrow> pipeline_store" where
  "apply_op env (Save_Op now p) st = snd (save_pipeline env now st p)"
| "apply_op env (Delete_Op nam) st = snd (delete_pipeline env st nam)"
| "apply_op env (Import_Op now data) st = snd (read_pipeline_bundle env now st data)"
| "apply_op env (Run_Op rid s f execute nam v) st = snd (run_pipeline env rid s f execute st nam v)"

definition apply_ops :: "pipeline_env \<Rightarrow> store_op list \<Rightarrow> pipeline_store \<Rightarrow> pipeline_store" where
  "apply_ops env ops st = fold (apply_op env) ops st"

definition empty_store :: pipeline_store where
  "empty_store = \<lparr>st_definitions = [], st_runs = []\<rparr>"

text \<open>The texts of the requests are valid UTF-8.\<close>

fun op_texts_ok :: "pipeline_env \<Rightarrow> (string \<Rightarrow> bool) \<Rightarrow> store_op \<Rightarrow> bool" where
  "op_texts_ok env valid (Save_Op now p) = list_all valid (pipeline_texts p)"
| "op_texts_ok env valid (Import_Op now data) =
     (case bundle_definitions env data of
        Inl _ \<Rightarrow> True | Inr cs \<Rightarrow> list_all (\<lambda>c. list_all valid (pipeline_texts c)) cs)"
| "op_texts_ok env valid _ = True"

fun spares_name :: "string \<Rightarrow> store_op \<Rightarrow> bool" where
  "spares_name nam (Delete_Op raw) = (trim_space raw \<noteq> nam)"
| "spares_name nam _ = True"

lemma run_keeps:
  "st_definitions (snd (run_pipeline env rid s f execute st nam v)) = st_definitions st
   \<and> prefix (st_runs st) (st_runs (snd (run_pipeline env rid s f execute st nam v)))"
  by (auto simp: run_pipeline_def record_pipeline_run_def Let_def split: sum.splits option.splits)

lemma history_definitions: "st_definitions st' = st_definitions st \<Longrightarrow> history env st' nam = history env st nam"
  by (simp add: history_def)

lemma apply_op_keeps:
  assumes "json_laws env valid" "op_texts_ok env valid op" "store_ok env st"
  shows "store_ok env (apply_op env op st) \<and> prefix (st_runs st) (st_runs (apply_op env op st))
    \<and> (spares_name nam op \<longrightarrow> prefix (history env st nam) (history env (apply_op env op st) nam))"
proof (cases op)
  case (Save_Op now p)
  obtain r st' where save: "save_pipeline env now st p = (r, st')" by (cases "save_pipeline env now st p")
  show ?thesis
  proof (cases r)
    case Inl
    with save save_fails assms(3) Save_Op show ?thesis by (metis apply_op.simps(1) prefix_order.refl snd_conv)
  next
    case (Inr q)
    from assms(2) Save_Op have texts: "list_all valid (pipeline_texts p)" by simp
    note S = save_appends [OF assms(3,1) texts save [unfolded Inr]]
    from append_version_ok [OF assms(3) S(4,3,2,5)] S(6) save Save_Op show ?thesis by simp
  qed
next
  case (Delete_Op raw)
  obtain r st' where del: "delete_pipeline env st raw = (r, st')" by (cases "delete_pipeline env st raw")
  from delete_clears [OF del assms(3)] del Delete_Op show ?thesis by simp
next
  case (Import_Op now data)
  show ?thesis
  proof (cases "bundle_definitions env data")
    case Inl
    with Import_Op assms(3) show ?thesis by (simp add: read_pipeline_bundle_def)
  next
    case (Inr cs)
    obtain r st' where imp: "import_pipelines env now (\<lambda>_. None) ([], 0) cs st = (r, st')"
      by (cases "import_pipelines env now (\<lambda>_. None) ([], 0) cs st")
    from assms(2) Inr Import_Op have "list_all (\<lambda>c. list_all valid (pipeline_texts c)) cs" by simp
    from import_keeps [OF assms(1) imp assms(3) this] imp Inr Import_Op show ?thesis
      by (simp add: read_pipeline_bundle_def)
  qed
next
  case (Run_Op rid s f execute nam' v)
  let ?st = "snd (run_pipeline env rid s f execute st nam' v)"
  have same: "st_definitions ?st = st_definitions st" "prefix (st_runs st) (st_runs ?st)"
    using run_keeps [of env rid s f execute st nam' v] by simp_all
  note h = history_definitions [OF same(1)]
  have "store_ok env ?st" using assms(3) unfolding store_ok_def same(1) h .
  with same(2) h show ?thesis by (simp add: Run_Op)
qed

lemma apply_ops_keeps:
  assumes "json_laws env valid"
  shows "list_all (op_texts_ok env valid) ops \<Longrightarrow> store_ok env st \<Longrightarrow>
    store_ok env (apply_ops env ops st) \<and> prefix (st_runs st) (st_runs (apply_ops env ops st))
    \<and> (list_all (spares_name nam) ops \<longrightarrow> prefix (history env st nam) (history env (apply_ops env ops st) nam))"
proof (induction ops arbitrary: st)
  case (Cons op ops)
  then have K: "store_ok env (apply_op env op st)" "prefix (st_runs st) (st_runs (apply_op env op st))"
    "spares_name nam op \<Longrightarrow> prefix (history env st nam) (history env (apply_op env op st) nam)"
    using apply_op_keeps [OF assms, of op st nam] by simp_all
  from Cons.IH [OF _ K(1)] Cons.prems(1) K(2,3) show ?case
    by (auto simp: apply_ops_def intro: prefix_order.trans)
qed (simp add: apply_ops_def)

lemma empty_store_ok [simp]: "store_ok env empty_store"
  by (simp add: store_ok_def empty_store_def history_def)

lemma reached_store_ok:
  "json_laws env valid \<Longrightarrow> list_all (op_texts_ok env valid) ops \<Longrightarrow> store_ok env (apply_ops env ops empty_store)"
  using apply_ops_keeps [of env valid ops empty_store] by simp

section \<open>Loading\<close>

lemma find_version:
  assumes "store_ok env st"
  shows "find (\<lambda>p. pl_version p = v) (history env st nam) =
    (if 1 \<le> v \<and> v \<le> int (length (history env st nam)) then Some (history env st nam ! nat (v - 1)) else None)"
proof (cases "1 \<le> v \<and> v \<le> int (length (history env st nam))")
  case True
  then have "nat (v - 1) < length (history env st nam)" by linarith
  moreover have "pl_version (history env st nam ! nat (v - 1)) = v"
    using history_nth [OF assms calculation] True by simp
  moreover have "pl_version (history env st nam ! j) \<noteq> v" if "j < nat (v - 1)" for j
    using history_nth [OF assms, of j nam] that calculation(1) True by simp
  ultimately show ?thesis using True by (auto simp: find_Some_iff intro!: exI [of _ "nat (v - 1)"])
next
  case False
  have "pl_version p \<noteq> v" if "p \<in> set (history env st nam)" for p
  proof -
    from that obtain k where "k < length (history env st nam)" "p = history env st nam ! k"
      by (auto simp: in_set_conv_nth)
    with history_nth [OF assms this(1)] False show ?thesis by auto
  qed
  with False show ?thesis by (auto simp: find_None_iff)
qed

lemma load_iff:
  assumes "store_ok env st" "reads_ok env (trim_space nam)" "trim_space nam \<noteq> []"
  shows "load_pipeline env st nam v = Inr p \<longleftrightarrow>
    (let h = history env st (trim_space nam) in
     if v \<le> 0 then h \<noteq> [] \<and> p = last h else v \<le> int (length h) \<and> p = h ! nat (v - 1))"
  using listed_versions [OF assms] find_version [OF assms(1), of v "trim_space nam"]
  by (auto simp: load_pipeline_def Let_def)

lemma load_reads:
  assumes "load_pipeline env st nam v = Inr p"
  shows "reads_ok env (trim_space nam) \<and> trim_space nam \<noteq> []"
proof -
  obtain h where h: "list_pipeline_versions env st nam = Inr h" "h \<noteq> []"
    using assms by (auto simp: load_pipeline_def split: sum.splits if_splits)
  then have "trim_space nam \<noteq> []" by (auto simp: list_pipeline_versions_def)
  with listing_reads [OF h(1)] show ?thesis by simp
qed

lemma load_kept:
  assumes "store_ok env st" "store_ok env st'" "prefix (history env st (trim_space nam)) (history env st' (trim_space nam))"
    and "load_pipeline env st nam v = Inr p" "1 \<le> v"
  shows "load_pipeline env st' nam v = Inr p"
proof -
  note R = load_reads [OF assms(4)]
  have R1: "reads_ok env (trim_space nam)" "trim_space nam \<noteq> []" using R by simp_all
  from assms(3) obtain t where t: "history env st' (trim_space nam) = history env st (trim_space nam) @ t"
    by (auto simp: prefix_def)
  from assms(4,5) load_iff [OF assms(1) R1, of v p]
  have "v \<le> int (length (history env st (trim_space nam)))" "p = history env st (trim_space nam) ! nat (v - 1)"
    by (simp_all add: Let_def)
  with t assms(5) show ?thesis
    by (simp add: load_iff [OF assms(2) R1] Let_def nth_append)
qed

section \<open>A sample codec\<close>

text \<open>Every byte of a text is marked, a full stop ends the text.\<close>

definition write_text :: "string \<Rightarrow> string" where
  "write_text s = concat (map (\<lambda>c. [CHR ''x'', c]) s) @ ''.''"

fun read_text :: "string \<Rightarrow> string \<times> string" where
  "read_text (m # c # r) = (if m = CHR ''x'' then (case read_text r of (s, t) \<Rightarrow> (c # s, t)) else ([], c # r))"
| "read_text _ = ([], [])"

lemma read_write_text: "read_text (write_text s @ t) = (s, t)"
  by (induction s) (cases t; simp add: write_text_def)+

fun read_texts :: "nat \<Rightarrow> string \<Rightarrow> string list" where
  "read_texts 0 s = []"
| "read_texts (Suc n) s = (if s = [] then [] else (case read_text s of (x, t) \<Rightarrow> x # read_texts n t))"

lemma length_write_text [simp]: "1 \<le> length (write_text s)" "write_text s \<noteq> []"
  by (simp_all add: write_text_def)

lemma read_write_texts:
  "length ss \<le> n \<Longrightarrow> read_texts n (concat (map write_text ss)) = ss"
proof (induction ss arbitrary: n)
  case Nil
  then show ?case by (cases n) simp_all
next
  case (Cons x ss)
  then obtain k where "n = Suc k" by (cases n) simp_all
  with Cons show ?case by (simp add: read_write_text)
qed

definition write_int :: "int \<Rightarrow> string" where
  "write_int i = (if i < 0 then CHR ''-'' else CHR ''+'') # replicate (nat \<bar>i\<bar>) CHR ''1''"

definition read_int :: "string \<Rightarrow> int" where
  "read_int s = (if hd s = CHR ''-'' then - int (length (tl s)) else int (length (tl s)))"

lemma read_write_int [simp]: "read_int (write_int i) = i"
  by (simp add: read_int_def write_int_def)

fun read_steps :: "string list \<Rightarrow> pipeline_step list" where
  "read_steps (n # s # r) = \<lparr>ps_name = n, ps_sql = s\<rparr> # read_steps r"
| "read_steps _ = []"

definition pipeline_fields :: "pipeline \<Rightarrow> string list" where
  "pipeline_fields p =
     [pl_name p, pl_description p, write_int (pl_version p), write_int (pl_parallelism p), write_int (pl_created p),
      write_int (pl_updated p)] @ concat (map (\<lambda>s. [ps_name s, ps_sql s]) (pl_steps p))"

definition write_pipeline :: "pipeline \<Rightarrow> string" where
  "write_pipeline p = concat (map write_text (pipeline_fields p))"

definition read_pipeline :: "string \<Rightarrow> pipeline option" where
  "read_pipeline s =
     (case read_texts (length s) s of
        n # d # v # par # c # u # steps \<Rightarrow>
          Some \<lparr>pl_name = n, pl_description = d, pl_version = read_int v, pl_parallelism = read_int par,
            pl_steps = read_steps steps, pl_created = read_int c, pl_updated = read_int u\<rparr>
      | _ \<Rightarrow> None)"

lemma length_concat_write: "length ss \<le> length (concat (map write_text ss))"
proof (induction ss)
  case (Cons x ss)
  with length_write_text(1) [of x] show ?case unfolding list.map concat.simps length_append list.size by linarith
qed simp

lemma read_steps_fields: "read_steps (concat (map (\<lambda>s. [ps_name s, ps_sql s]) ss)) = ss"
  by (induction ss) simp_all

lemma read_write_pipeline: "read_pipeline (write_pipeline p) = Some p"
proof -
  have "read_texts (length (write_pipeline p)) (write_pipeline p) = pipeline_fields p"
    unfolding write_pipeline_def by (rule read_write_texts) (rule length_concat_write)
  then show ?thesis by (simp add: read_pipeline_def pipeline_fields_def read_steps_fields)
qed

definition sample_pipeline :: "string \<Rightarrow> pipeline" where
  "sample_pipeline sql =
     \<lparr>pl_name = '' daily '', pl_description = [], pl_version = 7, pl_parallelism = 0,
      pl_steps = [\<lparr>ps_name = ''first'', ps_sql = sql\<rparr>], pl_created = 0, pl_updated = 0\<rparr>"

definition sample_bundle :: pipeline_bundle where
  "sample_bundle =
     \<lparr>pb_format = pipeline_bundle_format, pb_schema_version = 1, pb_exported = 0,
      pb_pipelines = [sample_pipeline ''SELECT 1'', sample_pipeline '' SELECT 1'']\<rparr>"

definition sample_pipeline_env :: pipeline_env where
  "sample_pipeline_env =
     \<lparr>pe_encode = write_pipeline, pe_decode = read_pipeline, pe_encode_bundle = (\<lambda>_. []),
      pe_decode_bundle = (\<lambda>_. Some (sample_bundle, Only_Value)), pe_encode_lineage = (\<lambda>_. []),
      pe_decode_lineage = (\<lambda>_. None), pe_format_time = write_int, pe_parse_time = (\<lambda>s. Some (read_int s)),
      pe_sha256 = (\<lambda>s. s), pe_lower = to_lower, pe_failure_text = (\<lambda>_. []), pe_fails = no_failures\<rparr>"

lemma sample_json_laws: "json_laws sample_pipeline_env (\<lambda>_. True)"
  by (simp add: json_laws_def sample_pipeline_env_def read_write_pipeline)

section \<open>Properties\<close>

text \<open>
  Claim C27: A saved pipeline version is permanent.  After any sequence of saves, deletions, imports and
  runs, a version that loads still loads as exactly the same definition after every further sequence that
  does not delete its name; what is stored is a definition that passes validation as it is; and records of
  runs are never removed or changed.
\<close>

theorem saved_versions_are_permanent:
  assumes "json_laws env valid" "list_all (op_texts_ok env valid) (ops @ later)"
    and "list_all (spares_name (trim_space nam)) later" "1 \<le> v"
    and "load_pipeline env (apply_ops env ops empty_store) nam v = Inr p"
  shows "load_pipeline env (apply_ops env (ops @ later) empty_store) nam v = Inr p
    \<and> pl_version p = v \<and> pl_name p = trim_space nam \<and> validate_pipeline_definition env p = Inr p
    \<and> prefix (st_runs (apply_ops env ops empty_store)) (st_runs (apply_ops env (ops @ later) empty_store))"
proof -
  let ?st = "apply_ops env ops empty_store"
  have ok: "store_ok env ?st" using reached_store_ok [OF assms(1)] assms(2) by simp
  have eq: "apply_ops env (ops @ later) empty_store = apply_ops env later ?st" by (simp add: apply_ops_def)
  have K: "store_ok env (apply_ops env later ?st)" "prefix (st_runs ?st) (st_runs (apply_ops env later ?st))"
    "prefix (history env ?st (trim_space nam)) (history env (apply_ops env later ?st) (trim_space nam))"
    using apply_ops_keeps [OF assms(1) _ ok, of later "trim_space nam"] assms(2,3) by simp_all
  have R: "reads_ok env (trim_space nam)" "trim_space nam \<noteq> []" using load_reads [OF assms(5)] by simp_all
  from assms(4,5) load_iff [OF ok R, of v p]
  have p: "v \<le> int (length (history env ?st (trim_space nam)))" "p = history env ?st (trim_space nam) ! nat (v - 1)"
    by (simp_all add: Let_def)
  then have k: "nat (v - 1) < length (history env ?st (trim_space nam))" using assms(4) by linarith
  then have "p \<in> set (history env ?st (trim_space nam))" using p(2) by simp
  from history_facts [OF ok this] have "pl_name p = trim_space nam" "validate_pipeline_definition env p = Inr p"
    by (simp_all add: ok_validates)
  moreover have "pl_version p = v" using history_nth [OF ok k] p(2) assms(4) by simp
  ultimately show ?thesis using load_kept [OF ok K(1,3) assms(5,4)] K(2) eq by simp
qed

abbreviation sample_valid :: "string \<Rightarrow> pipeline" where
  "sample_valid sql \<equiv> (sample_pipeline sql)\<lparr>pl_name := ''daily'', pl_parallelism := 1\<rparr>"

lemma sample_texts:
  "trim_space '' daily '' = ''daily''" "trim_space ''daily'' = ''daily''" "trim_space ''first'' = ''first''"
  "trim_space ''SELECT 1'' = ''SELECT 1''" "trim_space '' SELECT 1'' = ''SELECT 1''"
  "is_result_producing ''SELECT 1''"
  by code_simp+

lemmas limits = max_pipeline_name_length_def max_pipeline_description_length_def max_pipeline_steps_def
  max_pipeline_step_name_length_def max_pipeline_sql_length_def max_pipeline_parallelism_def

lemma sample_validates:
  "validate_pipeline_definition sample_pipeline_env (sample_pipeline ''SELECT 1'') = Inr (sample_valid ''SELECT 1'')"
  "validate_pipeline_definition sample_pipeline_env (sample_pipeline '' SELECT 1'') = Inr (sample_valid ''SELECT 1'')"
  "validate_pipeline_definition sample_pipeline_env (sample_valid ''SELECT 1'') = Inr (sample_valid ''SELECT 1'')"
  by (simp_all add: validate_pipeline_definition_def sample_pipeline_def sample_texts limits Let_def)

lemma sample_env_simps [simp]:
  "pe_fails sample_pipeline_env = no_failures" "pe_decode sample_pipeline_env = read_pipeline"
  "pe_encode sample_pipeline_env = write_pipeline" "pe_lower sample_pipeline_env = to_lower"
  by (simp_all add: sample_pipeline_env_def)

lemma sample_reads [simp]: "exec_result sample_pipeline_env label key = Inr ()" "reads_ok sample_pipeline_env nam"
  "ensure_pipeline_tables sample_pipeline_env = Inr ()"
  by (simp_all add: exec_result_def no_failures_def reads_ok_def ensure_pipeline_tables_def)

lemma sample_new_name: "list_pipeline_versions sample_pipeline_env empty_store nam = Inr []"
  by (simp add: list_pipeline_versions_def list_pipeline_rows_def empty_store_def Let_def)

abbreviation first_daily :: pipeline where
  "first_daily \<equiv> (sample_valid ''SELECT 1'')\<lparr>pl_version := 1, pl_created := 3, pl_updated := 3\<rparr>"

abbreviation daily_store :: pipeline_store where
  "daily_store \<equiv> \<lparr>st_definitions = [version_row sample_pipeline_env first_daily], st_runs = []\<rparr>"

lemma sample_saves:
  "save_pipeline sample_pipeline_env 3 empty_store (sample_pipeline ''SELECT 1'') = (Inr first_daily, daily_store)"
  "save_pipeline sample_pipeline_env 3 empty_store (sample_valid ''SELECT 1'') = (Inr first_daily, daily_store)"
  by (simp_all add: save_pipeline_def sample_validates sample_new_name next_version_def)
    (simp_all add: empty_store_def Let_def)

lemma sample_loads: "load_pipeline sample_pipeline_env daily_store ''daily'' 1 = Inr first_daily"
  by (simp add: load_pipeline_def list_pipeline_versions_def list_pipeline_rows_def sample_texts version_row_def
      sample_pipeline_def rows_of_def read_write_pipeline Let_def)

theorem saved_versions_are_permanent_witness:
  "load_pipeline sample_pipeline_env
     (apply_ops sample_pipeline_env
       ([Save_Op 3 (sample_pipeline ''SELECT 1'')] @ [Save_Op 5 (sample_pipeline ''SELECT 2''), Delete_Op ''other''])
       empty_store) ''daily'' 1 = Inr first_daily"
proof -
  let ?ops = "[Save_Op 3 (sample_pipeline ''SELECT 1'')]"
  let ?later = "[Save_Op 5 (sample_pipeline ''SELECT 2''), Delete_Op ''other'']"
  have "load_pipeline sample_pipeline_env (apply_ops sample_pipeline_env ?ops empty_store) ''daily'' 1 = Inr first_daily"
    by (simp add: apply_ops_def sample_saves sample_loads)
  moreover have "list_all (op_texts_ok sample_pipeline_env (\<lambda>_. True)) (?ops @ ?later)" by (simp add: list_all_iff)
  moreover have "list_all (spares_name (trim_space ''daily'')) ?later" by code_simp
  ultimately show ?thesis using saved_versions_are_permanent [OF sample_json_laws] by fastforce
qed

text \<open>
  Claim C28: Saving appends: the saved definition is the validated one under the next version number of its name (1
  for a new name, the count of its versions plus one otherwise), it is at once what the name and that version
  load, and a save that fails leaves the store as it was.
\<close>

theorem save_then_load:
  assumes "json_laws env valid" "list_all (op_texts_ok env valid) ops" "list_all valid (pipeline_texts p)"
  shows "case save_pipeline env now (apply_ops env ops empty_store) p of
      (Inl _, st') \<Rightarrow> st' = apply_ops env ops empty_store
    | (Inr q, st') \<Rightarrow>
        validate_pipeline_definition env p
          = Inr (q\<lparr>pl_version := pl_version p, pl_created := pl_created p, pl_updated := pl_updated p\<rparr>)
        \<and> pl_version q
            = int (length (rows_of dr_name (pl_name q) (st_definitions (apply_ops env ops empty_store)))) + 1
        \<and> load_pipeline env st' (pl_name q) 0 = Inr q
        \<and> load_pipeline env st' (pl_name q) (pl_version q) = Inr q"
proof -
  let ?st = "apply_ops env ops empty_store"
  have ok: "store_ok env ?st" by (rule reached_store_ok [OF assms(1,2)])
  obtain r st' where save: "save_pipeline env now ?st p = (r, st')" by (cases "save_pipeline env now ?st p")
  show ?thesis
  proof (cases r)
    case Inl
    with save save_fails show ?thesis by simp
  next
    case (Inr q)
    note S = save_appends [OF ok assms(1,3) save [unfolded Inr]]
    note A = append_version_ok [OF ok S(4,3,2,5)]
    have nam: "trim_space (pl_name q) = pl_name q" "pl_name q \<noteq> []" using S(3) by (simp_all add: definition_ok_def)
    note L = load_iff [OF A(2), of "pl_name q", unfolded nam(1), OF S(7) nam(2)]
    have "load_pipeline env st' (pl_name q) 0 = Inr q" "load_pipeline env st' (pl_name q) (pl_version q) = Inr q"
      unfolding L A(1) S(2) by simp_all
    with save Inr S(1,2) show ?thesis by (simp add: history_def)
  qed
qed

theorem save_then_load_witness:
  "\<exists>q st'. save_pipeline sample_pipeline_env 3 empty_store (sample_pipeline ''SELECT 1'') = (Inr q, st')
     \<and> load_pipeline sample_pipeline_env st' (pl_name q) 0 = Inr q"
proof -
  have "list_all (op_texts_ok sample_pipeline_env (\<lambda>_. True)) []"
    "list_all (\<lambda>_. True) (pipeline_texts (sample_pipeline ''SELECT 1''))"
    by (simp_all add: list_all_iff)
  from save_then_load [OF sample_json_laws this, of 3] show ?thesis
    unfolding apply_ops_def List.fold_simps id_apply sample_saves by (simp only: prod.case sum.case) blast
qed

text \<open>
  Claim C29: Importing a bundle is idempotent: when an import succeeded, importing the same bundle again (at any
  time) saves nothing, skips every definition and leaves the store as it is.
\<close>

theorem import_is_idempotent:
  assumes "json_laws env valid" "list_all (op_texts_ok env valid) (ops @ [Import_Op now data])"
    and "read_pipeline_bundle env now (apply_ops env ops empty_store) data = (Inr res, st')"
    and "bundle_definitions env data = Inr cs"
  shows "read_pipeline_bundle env now' st' data = (Inr ([], length cs), st')"
proof -
  let ?st = "apply_ops env ops empty_store"
  have ok: "store_ok env ?st" using reached_store_ok [OF assms(1)] assms(2) by simp
  from assms(3,4) have imp: "import_pipelines env now (\<lambda>_. None) ([], 0) cs ?st = (Inr res, st')"
    by (simp add: read_pipeline_bundle_def)
  have texts: "list_all (\<lambda>c. list_all valid (pipeline_texts c)) cs" using assms(2,4) by simp
  have "known_ok env st (\<lambda>_. None)" for st by (simp add: known_ok_def)
  note fresh = this
  have "list_all (collected env st') cs" by (rule import_collects [OF assms(1) imp ok texts fresh])
  moreover have "store_ok env st'" using import_keeps [OF assms(1) imp ok texts] by simp
  ultimately have "import_pipelines env now' (\<lambda>_. None) ([], 0) cs st' = (Inr ([], length cs), st')"
    using import_again [of env st' cs "\<lambda>_. None" now' "([], 0)"] fresh by simp
  with assms(4) show ?thesis by (simp add: read_pipeline_bundle_def)
qed

theorem import_is_idempotent_witness:
  "\<exists>saved st'. read_pipeline_bundle sample_pipeline_env (\<lambda>_. 3) empty_store [] = (Inr ([saved], 1), st')
     \<and> read_pipeline_bundle sample_pipeline_env (\<lambda>_. 9) st' [] = (Inr ([], 2), st')"
proof -
  let ?cs = "[sample_pipeline ''SELECT 1'', sample_pipeline '' SELECT 1'']"
  have cs: "bundle_definitions sample_pipeline_env [] = Inr ?cs" by code_simp
  have "digests_for sample_pipeline_env empty_store (\<lambda>_. None) nam = Inr []" for nam
    by (simp add: digests_for_def sample_new_name)
  then have r: "read_pipeline_bundle sample_pipeline_env (\<lambda>_. 3) empty_store [] = (Inr ([first_daily], 1), daily_store)"
    by (simp add: read_pipeline_bundle_def cs sample_validates sample_saves digests_for_known)
  have "list_all (op_texts_ok sample_pipeline_env (\<lambda>_. True)) ([] @ [Import_Op (\<lambda>_. 3) []])"
    by (simp add: list_all_iff cs)
  from import_is_idempotent [OF sample_json_laws this _ cs, unfolded apply_ops_def List.fold_simps id_apply, OF r] r
  show ?thesis by auto
qed

end
