(* ===== verification/PipelinePool.thy ===== *)
theory PipelinePool
  imports PipelinesCorrect
begin

text \<open>
  The worker pool of a pipeline run: every schedule ends after a bounded number of events, none gets
  stuck, and the lineage it yields has one record per step in the order of the definition, whatever the
  interleaving.
\<close>

section \<open>The invariant\<close>

definition occurrences :: "pool \<Rightarrow> nat \<Rightarrow> nat" where
  "occurrences po i =
     count_list (po_running po) i + count_list (map fst (po_channel po)) i
     + (if po_lineage po i = None then 0 else 1)"

definition entry_ok :: "pipeline_env \<Rightarrow> pipeline \<Rightarrow> nat \<times> pipeline_lineage \<times> string \<Rightarrow> bool" where
  "entry_ok env p x \<longleftrightarrow> (\<exists>r. snd x = execute_pipeline_step env p (pl_steps p ! fst x) r)"

definition lineage_ok :: "pipeline_env \<Rightarrow> pipeline \<Rightarrow> pool \<Rightarrow> bool" where
  "lineage_ok env p po \<longleftrightarrow>
     (\<forall>i l. po_lineage po i = Some l \<longrightarrow>
        (\<exists>r. l = fst (execute_pipeline_step env p (pl_steps p ! i) r))
        \<and> (ln_error l \<noteq> [] \<longrightarrow> po_error po \<noteq> None))"

definition error_ok :: "pool \<Rightarrow> bool" where
  "error_ok po \<longleftrightarrow>
     (\<forall>e. po_error po = Some e \<longrightarrow>
        (\<exists>i l. po_lineage po i = Some l \<and> ln_error l \<noteq> [] \<and> e = Step_Failed (ln_step_name l) (ln_error l)))"

definition pool_inv :: "pipeline_env \<Rightarrow> pipeline \<Rightarrow> pool \<Rightarrow> bool" where
  "pool_inv env p po \<longleftrightarrow>
     (\<forall>i. occurrences po i = (if i < po_next po then 1 else 0))
     \<and> po_next po \<le> length (pl_steps p)
     \<and> po_idle po + length (po_running po) \<le> worker_count p
     \<and> (po_idle po + length (po_running po) < worker_count p \<longrightarrow> po_closed po \<or> work_done po)
     \<and> (po_closed po \<longrightarrow> length (pl_steps p) \<le> po_next po \<or> work_done po)
     \<and> (po_cancelled po \<longleftrightarrow> po_error po \<noteq> None)
     \<and> list_all (entry_ok env p) (po_channel po) \<and> lineage_ok env p po \<and> error_ok po"

lemma pool_invD:
  assumes "pool_inv env p po"
  shows "occurrences po i = (if i < po_next po then 1 else 0)" "po_next po \<le> length (pl_steps p)"
    "po_idle po + length (po_running po) \<le> worker_count p"
    "po_idle po + length (po_running po) < worker_count p \<Longrightarrow> po_closed po \<or> work_done po"
    "po_closed po \<Longrightarrow> length (pl_steps p) \<le> po_next po \<or> work_done po"
    "po_cancelled po \<longleftrightarrow> po_error po \<noteq> None" "list_all (entry_ok env p) (po_channel po)"
    "lineage_ok env p po" "error_ok po"
  using assms unfolding pool_inv_def by blast+

lemma pool_invI:
  assumes "\<And>i. occurrences po i = (if i < po_next po then 1 else 0)" "po_next po \<le> length (pl_steps p)"
    "po_idle po + length (po_running po) \<le> worker_count p"
    "po_idle po + length (po_running po) < worker_count p \<Longrightarrow> po_closed po \<or> work_done po"
    "po_closed po \<Longrightarrow> length (pl_steps p) \<le> po_next po \<or> work_done po"
    "po_cancelled po \<longleftrightarrow> po_error po \<noteq> None" "list_all (entry_ok env p) (po_channel po)"
    "lineage_ok env p po" "error_ok po"
  shows "pool_inv env p po"
  unfolding pool_inv_def using assms by blast

text \<open>\<open>lineage_ok\<close> and \<open>error_ok\<close> only look at what the collector holds.\<close>

lemma held_same:
  assumes "po_lineage po' = po_lineage po" "po_error po' = po_error po"
  shows "lineage_ok env p po' = lineage_ok env p po" "error_ok po' = error_ok po"
  using assms by (simp_all add: lineage_ok_def error_ok_def)

lemma worker_count_pos: "0 < worker_count p"
  by (simp add: worker_count_def Let_def)

lemma start_pool_inv: "pool_inv env p (start_pool p)"
  by (simp add: pool_inv_def start_pool_def occurrences_def lineage_ok_def error_ok_def)

lemma count_list_remove1: "count_list (remove1 x xs) y = (if x = y then count_list xs y - 1 else count_list xs y)"
  by (induction xs) auto

lemma length_remove1_Suc: "i \<in> set xs \<Longrightarrow> length xs = Suc (length (remove1 i xs))"
  by (simp add: length_remove1) (cases xs; simp)

lemma count_list_pos: "x \<in> set xs \<Longrightarrow> 0 < count_list xs x"
  by (induction xs) auto

lemma count_list_snoc [simp]: "count_list (xs @ [x]) y = count_list xs y + (if x = y then 1 else 0)"
  by (induction xs) auto

lemma finish_occurrences:
  assumes "i \<in> set (po_running po)"
  shows "occurrences (po\<lparr>po_running := remove1 i (po_running po), po_idle := m, po_channel := po_channel po @ [(i, x)]\<rparr>) j
    = occurrences po j"
  using count_list_pos [OF assms] by (cases "i = j") (simp_all add: occurrences_def count_list_remove1)

lemma collect_fields:
  "po_next (collect_result (i, l, e) po) = po_next po" "po_closed (collect_result (i, l, e) po) = po_closed po"
  "po_idle (collect_result (i, l, e) po) = po_idle po" "po_running (collect_result (i, l, e) po) = po_running po"
  "po_channel (collect_result (i, l, e) po) = po_channel po" "po_expired (collect_result (i, l, e) po) = po_expired po"
  "po_lineage (collect_result (i, l, e) po) = (po_lineage po)(i \<mapsto> l)"
  "po_error (collect_result (i, l, e) po) =
     (if e \<noteq> [] \<and> po_error po = None then Some (Step_Failed (ln_step_name l) e) else po_error po)"
  "po_cancelled (collect_result (i, l, e) po) = (po_cancelled po \<or> e \<noteq> [] \<and> po_error po = None)"
  by (auto simp: collect_result_def)

lemma executed_error: "ln_error (fst (execute_pipeline_step env p s r)) = snd (execute_pipeline_step env p s r)"
  by (simp add: execute_pipeline_step_def)

lemma collect_held:
  assumes "lineage_ok env p po" "error_ok po" "po_lineage po i = None"
    and x: "(l, e) = execute_pipeline_step env p (pl_steps p ! i) r"
  shows "lineage_ok env p (collect_result (i, l, e) po)" "error_ok (collect_result (i, l, e) po)"
proof -
  have l: "l = fst (execute_pipeline_step env p (pl_steps p ! i) r)" "ln_error l = e"
    using x executed_error by (metis fst_conv snd_conv)+
  show "lineage_ok env p (collect_result (i, l, e) po)"
    unfolding lineage_ok_def
  proof (intro allI impI)
    fix j m assume m: "po_lineage (collect_result (i, l, e) po) j = Some m"
    show "(\<exists>r. m = fst (execute_pipeline_step env p (pl_steps p ! j) r))
        \<and> (ln_error m \<noteq> [] \<longrightarrow> po_error (collect_result (i, l, e) po) \<noteq> None)"
    proof (cases "j = i")
      case True
      with m l show ?thesis by (auto simp: collect_fields)
    next
      case False
      with m assms(1) show ?thesis by (auto simp: collect_fields lineage_ok_def)
    qed
  qed
  show "error_ok (collect_result (i, l, e) po)"
  proof (cases "po_error po")
    case None
    then show ?thesis using l(2) by (auto simp: error_ok_def collect_fields)
  next
    case (Some x)
    then obtain k m where km: "po_lineage po k = Some m" "ln_error m \<noteq> []" "x = Step_Failed (ln_step_name m) (ln_error m)"
      using assms(2) by (auto simp: error_ok_def)
    moreover have "k \<noteq> i" using km(1) assms(3) by auto
    ultimately show ?thesis using Some by (auto simp: error_ok_def collect_fields)
  qed
qed

lemma collect_inv:
  assumes inv: "pool_inv env p po" and ch: "po_channel po = (i, l, e) # rest"
  shows "pool_inv env p (collect_result (i, l, e) (po\<lparr>po_channel := rest\<rparr>))"
proof -
  let ?q = "po\<lparr>po_channel := rest\<rparr>"
  let ?po = "collect_result (i, l, e) ?q"
  note D = pool_invD [OF inv]
  have fresh: "po_lineage po i = None"
    using D(1) [of i] ch by (auto simp: occurrences_def split: if_splits)
  obtain r where r: "(l, e) = execute_pipeline_step env p (pl_steps p ! i) r"
    using D(7) ch by (auto simp: entry_ok_def)
  have held: "lineage_ok env p ?q" "error_ok ?q" using D(8,9) held_same [of ?q po] by simp_all
  have "po_lineage ?q i = None" using fresh by simp
  note H = collect_held [OF held this r]
  have wd: "work_done po \<Longrightarrow> work_done ?po" by (auto simp: work_done_def collect_fields)
  show ?thesis
  proof (rule pool_invI)
    show "occurrences ?po j = (if j < po_next ?po then 1 else 0)" for j
      using D(1) [of j] fresh ch by (cases "i = j") (auto simp: occurrences_def collect_fields)
    show "po_cancelled ?po \<longleftrightarrow> po_error ?po \<noteq> None" using D(6) by (auto simp: collect_fields)
    show "list_all (entry_ok env p) (po_channel ?po)" using D(7) ch by (simp add: collect_fields)
    show "po_idle ?po + length (po_running ?po) < worker_count p \<Longrightarrow> po_closed ?po \<or> work_done ?po"
      using D(4) wd by (auto simp: collect_fields)
    show "po_closed ?po \<Longrightarrow> length (pl_steps p) \<le> po_next ?po \<or> work_done ?po"
      using D(5) wd by (auto simp: collect_fields)
  qed (use D H in \<open>simp_all add: collect_fields\<close>)
qed

lemma hand_over_inv:
  assumes inv: "pool_inv env p po" and g: "\<not> po_closed po" "po_next po < length (pl_steps p)" "0 < po_idle po"
  shows "pool_inv env p (po\<lparr>po_next := Suc (po_next po), po_idle := po_idle po - 1, po_running := po_running po @ [po_next po]\<rparr>)"
    (is "pool_inv env p ?po")
proof (rule pool_invI)
  note D = pool_invD [OF inv]
  show "occurrences ?po j = (if j < po_next ?po then 1 else 0)" for j
    using D(1) [of j] by (auto simp: occurrences_def less_Suc_eq)
  show "lineage_ok env p ?po" "error_ok ?po" using D(8,9) held_same [of ?po po] by simp_all
qed (use pool_invD [OF inv] g in \<open>auto simp: work_done_def\<close>)

lemma finish_inv:
  assumes inv: "pool_inv env p po" and i: "i \<in> set (po_running po)"
  shows "pool_inv env p (po\<lparr>po_running := remove1 i (po_running po), po_idle := Suc (po_idle po),
        po_channel := po_channel po @ [(i, execute_pipeline_step env p (pl_steps p ! i) r)]\<rparr>)"
    (is "pool_inv env p ?po")
proof (rule pool_invI)
  note D = pool_invD [OF inv]
  show "occurrences ?po j = (if j < po_next ?po then 1 else 0)" for j
    using D(1) [of j] finish_occurrences [OF i] by simp
  have len: "po_idle ?po + length (po_running ?po) = po_idle po + length (po_running po)"
    using length_remove1_Suc [OF i] by simp
  show "po_idle ?po + length (po_running ?po) \<le> worker_count p" using len D(3) by simp
  show "po_idle ?po + length (po_running ?po) < worker_count p \<Longrightarrow> po_closed ?po \<or> work_done ?po"
    using len D(4) by (simp add: work_done_def)
  show "lineage_ok env p ?po" "error_ok ?po" using D(8,9) held_same [of ?po po] by simp_all
  show "list_all (entry_ok env p) (po_channel ?po)" using D(7) by (auto simp: entry_ok_def)
qed (use pool_invD [OF inv] in \<open>auto simp: work_done_def\<close>)

lemma flags_inv:
  assumes inv: "pool_inv env p po"
  shows "length (pl_steps p) \<le> po_next po \<or> work_done po \<Longrightarrow> pool_inv env p (po\<lparr>po_closed := True\<rparr>)"
    and "work_done po \<or> po_closed po \<Longrightarrow> pool_inv env p (po\<lparr>po_idle := po_idle po - 1\<rparr>)"
    and "pool_inv env p (po\<lparr>po_expired := True\<rparr>)"
proof -
  note D = pool_invD [OF inv]
  have held: "lineage_ok env p (po\<lparr>po_closed := True\<rparr>)" "error_ok (po\<lparr>po_closed := True\<rparr>)"
    "lineage_ok env p (po\<lparr>po_idle := k\<rparr>)" "error_ok (po\<lparr>po_idle := k\<rparr>)"
    "lineage_ok env p (po\<lparr>po_expired := True\<rparr>)" "error_ok (po\<lparr>po_expired := True\<rparr>)" for k
    using D(8,9) by (simp_all add: lineage_ok_def error_ok_def)
  have occ: "occurrences (po\<lparr>po_closed := True\<rparr>) = occurrences po" "occurrences (po\<lparr>po_idle := k\<rparr>) = occurrences po"
    "occurrences (po\<lparr>po_expired := True\<rparr>) = occurrences po" for k
    by (simp_all add: occurrences_def fun_eq_iff)
  show "pool_inv env p (po\<lparr>po_closed := True\<rparr>)" if "length (pl_steps p) \<le> po_next po \<or> work_done po"
    by (rule pool_invI) (use D that held occ in \<open>auto simp: work_done_def\<close>)
  show "pool_inv env p (po\<lparr>po_idle := po_idle po - 1\<rparr>)" if "work_done po \<or> po_closed po"
    by (rule pool_invI) (use D that held occ in \<open>auto simp: work_done_def\<close>)
  show "pool_inv env p (po\<lparr>po_expired := True\<rparr>)"
    by (rule pool_invI) (use D held occ in \<open>auto simp: work_done_def\<close>)
qed

lemma pool_step_inv:
  assumes inv: "pool_inv env p po" and step: "pool_step env p ev po = Some po'"
  shows "pool_inv env p po'"
proof (cases ev)
  case Hand_Over
  with step hand_over_inv [OF inv] show ?thesis by (auto split: if_splits)
next
  case Close_Jobs
  with step flags_inv(1) [OF inv] show ?thesis by (auto split: if_splits)
next
  case Stop_Worker
  with step flags_inv(2) [OF inv] show ?thesis by (auto split: if_splits)
next
  case (Finish_Step i r)
  with step finish_inv [OF inv] show ?thesis by (auto split: if_splits)
next
  case Collect_Result
  then obtain i l e rest where ch: "po_channel po = (i, l, e) # rest"
    using step by (cases "po_channel po") auto
  with collect_inv [OF inv ch] step Collect_Result show ?thesis by simp
next
  case Context_Ends
  with step flags_inv(3) [OF inv] show ?thesis by (auto split: if_splits)
qed

lemma pool_run_inv: "pool_run env p es po = Some po' \<Longrightarrow> pool_inv env p po \<Longrightarrow> pool_inv env p po'"
  by (induction es arbitrary: po) (auto split: option.splits dest: pool_step_inv)

lemma reached_inv: "pool_run env p es (start_pool p) = Some po \<Longrightarrow> pool_inv env p po"
  by (rule pool_run_inv [OF _ start_pool_inv])

section \<open>Every schedule ends\<close>

definition pool_measure :: "pipeline \<Rightarrow> pool \<Rightarrow> nat" where
  "pool_measure p po =
     6 * (length (pl_steps p) - po_next po) + 4 * length (po_running po) + 2 * po_idle po
     + length (po_channel po) + (if po_closed po then 0 else 1) + (if po_expired po then 0 else 1)"

lemma pool_step_measure:
  assumes "pool_step env p ev po = Some po'"
  shows "pool_measure p po' < pool_measure p po"
proof (cases ev)
  case (Finish_Step i r)
  then have i: "i \<in> set (po_running po)" using assms by (auto split: if_splits)
  have "length (po_running po) = Suc (length (remove1 i (po_running po)))"
    by (rule length_remove1_Suc [OF i])
  with assms Finish_Step i show ?thesis by (auto simp: pool_measure_def)
next
  case Collect_Result
  then obtain i l e rest where ch: "po_channel po = (i, l, e) # rest"
    using assms by (cases "po_channel po") auto
  with assms Collect_Result have "po' = collect_result (i, l, e) (po\<lparr>po_channel := rest\<rparr>)" by simp
  with ch show ?thesis by (simp add: pool_measure_def collect_fields)
qed (use assms in \<open>auto simp: pool_measure_def split: if_splits\<close>)

lemma pool_run_measure: "pool_run env p es po = Some po' \<Longrightarrow> length es + pool_measure p po' \<le> pool_measure p po"
proof (induction es arbitrary: po)
  case (Cons ev es)
  then obtain po1 where "pool_step env p ev po = Some po1" "pool_run env p es po1 = Some po'"
    by (auto split: option.splits)
  with pool_step_measure [OF this(1)] Cons.IH [OF this(2)] show ?case by simp
qed simp

lemma pool_progress:
  assumes "pool_inv env p po" "\<not> pool_finished po"
  shows "\<exists>ev. ev \<noteq> Context_Ends \<and> pool_step env p ev po \<noteq> None"
proof -
  consider "po_channel po \<noteq> []" | "po_channel po = []" "po_running po \<noteq> []" | "0 < po_idle po"
    using assms(2) by (auto simp: pool_finished_def)
  then show ?thesis
  proof cases
    case 1
    then have "pool_step env p Collect_Result po \<noteq> None" by (cases "po_channel po") auto
    then show ?thesis by blast
  next
    case 2
    then obtain i where "i \<in> set (po_running po)" by (cases "po_running po") auto
    then have "pool_step env p (Finish_Step i r) po \<noteq> None" for r by simp
    then show ?thesis by blast
  next
    case 3
    consider "work_done po \<or> po_closed po" | "\<not> po_closed po" "length (pl_steps p) \<le> po_next po"
      | "\<not> po_closed po" "po_next po < length (pl_steps p)"
      by fastforce
    then show ?thesis
    proof cases
      case 1
      with 3 have "pool_step env p Stop_Worker po \<noteq> None" by simp
      then show ?thesis by blast
    next
      case 2
      then have "pool_step env p Close_Jobs po \<noteq> None" by simp
      then show ?thesis by blast
    next
      case 3
      with \<open>0 < po_idle po\<close> have "pool_step env p Hand_Over po \<noteq> None" by simp
      then show ?thesis by blast
    qed
  qed
qed

section \<open>The result\<close>

lemma finished_lineage:
  assumes inv: "pool_inv env p po" and fin: "pool_finished po"
  shows "po_lineage po i \<noteq> None \<longleftrightarrow> i < po_next po"
    and "pool_failure po = None \<Longrightarrow> po_next po = length (pl_steps p)"
proof -
  note D = pool_invD [OF inv]
  have "occurrences po i = (if i < po_next po then 1 else 0)" by (rule D(1))
  then show "po_lineage po i \<noteq> None \<longleftrightarrow> i < po_next po"
    using fin by (auto simp: occurrences_def pool_finished_def split: if_splits)
  assume "pool_failure po = None"
  then have "po_error po = None" "\<not> po_expired po" by (auto simp: pool_failure_def split: option.splits if_splits)
  with D(6) have "\<not> work_done po" by (simp add: work_done_def)
  moreover have "po_closed po \<or> work_done po"
    using D(4) fin worker_count_pos [of p] by (simp add: pool_finished_def)
  ultimately show "po_next po = length (pl_steps p)" using D(2,5) by auto
qed

text \<open>The record of step \<open>i\<close> after a finished run.\<close>

definition record_of :: "pipeline_env \<Rightarrow> pipeline \<Rightarrow> pool \<Rightarrow> nat \<Rightarrow> pipeline_lineage" where
  "record_of env p po i =
     (case po_lineage po i of
        Some l \<Rightarrow> l
      | None \<Rightarrow> skipped_pipeline_lineage env p (pl_steps p ! i) (the (pool_failure po)))"

lemma finished_records:
  assumes "pool_inv env p po" "pool_finished po"
  shows "fst (pool_result env p po) = map (record_of env p po) [0..<length (pl_steps p)]"
proof -
  have "step_lineage env p po i = [record_of env p po i]" if "i < length (pl_steps p)" for i
    using finished_lineage(1) [OF assms, of i] finished_lineage(2) [OF assms] that
    by (cases "po_lineage po i"; cases "pool_failure po") (auto simp: step_lineage_def record_of_def)
  then have "concat (map (step_lineage env p po) [0..<length (pl_steps p)])
      = concat (map (\<lambda>i. [record_of env p po i]) [0..<length (pl_steps p)])"
    by (intro arg_cong [where f = concat] map_cong) auto
  then show ?thesis by (simp add: pool_result_def)
qed

lemma record_step:
  assumes "pool_inv env p po"
  shows "ln_step_name (record_of env p po i) = ps_name (pl_steps p ! i)"
    and "ln_sql_sha256 (record_of env p po i) = pe_sha256 env (ps_sql (pl_steps p ! i))"
    and "po_lineage po i \<noteq> None \<Longrightarrow> \<exists>r. record_of env p po i = fst (execute_pipeline_step env p (pl_steps p ! i) r)"
    and "po_lineage po i = None \<Longrightarrow> ln_status (record_of env p po i) = ''skipped''"
proof -
  have ex: "\<exists>r. record_of env p po i = fst (execute_pipeline_step env p (pl_steps p ! i) r)" if "po_lineage po i = Some l" for l
    using pool_invD(8) [OF assms] that by (simp add: lineage_ok_def record_of_def)
  then show "po_lineage po i \<noteq> None \<Longrightarrow> \<exists>r. record_of env p po i = fst (execute_pipeline_step env p (pl_steps p ! i) r)"
    by blast
  show "ln_step_name (record_of env p po i) = ps_name (pl_steps p ! i)"
    "ln_sql_sha256 (record_of env p po i) = pe_sha256 env (ps_sql (pl_steps p ! i))"
    using ex by (cases "po_lineage po i"; fastforce simp: execute_pipeline_step_def record_of_def skipped_pipeline_lineage_def)+
  show "po_lineage po i = None \<Longrightarrow> ln_status (record_of env p po i) = ''skipped''"
    by (simp add: record_of_def skipped_pipeline_lineage_def)
qed

lemma count_list_distinct: "\<forall>i. count_list xs i \<le> 1 \<Longrightarrow> distinct xs"
proof (induction xs)
  case (Cons x xs)
  have "count_list xs i \<le> 1" for i using Cons.prems [rule_format, of i] by (simp split: if_splits)
  moreover have "count_list xs x = 0" using Cons.prems [rule_format, of x] by simp
  ultimately show ?case using Cons.IH by (simp add: count_list_0_iff)
qed simp

lemma running_distinct:
  assumes "pool_inv env p po"
  shows "distinct (po_running po)"
proof -
  have "count_list (po_running po) i \<le> 1" for i
    using pool_invD(1) [OF assms, of i] by (simp add: occurrences_def split: if_splits)
  then show ?thesis by (intro count_list_distinct) simp
qed

text \<open>With one worker a step is handed over only when no other step runs.\<close>

lemma one_worker_runs_in_order:
  assumes "pool_inv env p po" "worker_count p = 1" "pool_step env p Hand_Over po = Some po'" "i < po_next po"
  shows "i \<notin> set (po_running po)"
proof -
  have "0 < po_idle po" using assms(3) by (auto split: if_splits)
  with pool_invD(3) [OF assms(1)] assms(2) have "po_running po = []" by (cases "po_running po") simp_all
  then show ?thesis by simp
qed

lemma finished_facts:
  assumes inv: "pool_inv env p po" and fin: "pool_finished po" and res: "pool_result env p po = (lin, failure)"
  shows "map ln_step_name lin = map ps_name (pl_steps p)"
    and "map ln_sql_sha256 lin = map (\<lambda>s. pe_sha256 env (ps_sql s)) (pl_steps p)"
    and "i < length (pl_steps p) \<Longrightarrow> ln_status (lin ! i) = ''skipped'' \<longleftrightarrow> po_next po \<le> i"
    and "(failure = None \<and> \<not> po_expired po) \<longleftrightarrow> (list_all (\<lambda>l. ln_status l = ''succeeded'') lin \<and> \<not> po_expired po)"
    and "failure = Some (Step_Failed nam e) \<Longrightarrow> \<exists>l\<in>set lin. ln_status l = ''failed'' \<and> ln_step_name l = nam \<and> ln_error l = e"
proof -
  let ?n = "length (pl_steps p)"
  have lin: "lin = map (record_of env p po) [0..<?n]" and f: "failure = pool_failure po"
    using finished_records [OF inv fin] res by (simp_all add: pool_result_def)
  note R = record_step [OF inv] and L = finished_lineage [OF inv fin] and D = pool_invD [OF inv]
  show "map ln_step_name lin = map ps_name (pl_steps p)"
    by (rule nth_equalityI) (simp_all add: lin R)
  show "map ln_sql_sha256 lin = map (\<lambda>s. pe_sha256 env (ps_sql s)) (pl_steps p)"
    by (rule nth_equalityI) (simp_all add: lin R)
  have skipped: "ln_status (record_of env p po i) = ''skipped'' \<longleftrightarrow> po_next po \<le> i" for i
  proof (cases "i < po_next po")
    case True
    with L(1) R(3) [of i] show ?thesis by (auto simp: execute_pipeline_step_def split: if_splits)
  next
    case False
    with L(1) [of i] R(4) [of i] show ?thesis by auto
  qed
  then show "i < ?n \<Longrightarrow> ln_status (lin ! i) = ''skipped'' \<longleftrightarrow> po_next po \<le> i" by (simp add: lin)
  have held: "record_of env p po i = l" if "po_lineage po i = Some l" for i l
    using that by (simp add: record_of_def)
  have succeeded: "ln_status (record_of env p po i) = ''succeeded'' \<longleftrightarrow> i < po_next po \<and> ln_error (record_of env p po i) = []" for i
    using skipped [of i] L(1) [of i] R(3) [of i]
    by (cases "i < po_next po") (auto simp: execute_pipeline_step_def split: if_splits)
  have errors: "po_error po \<noteq> None" if lt: "i < po_next po" "ln_error (record_of env p po i) \<noteq> []" for i
  proof -
    obtain l where "po_lineage po i = Some l" using L(1) [of i] lt(1) by auto
    with lt(2) held D(8) show ?thesis by (auto simp: lineage_ok_def)
  qed
  show "(failure = None \<and> \<not> po_expired po) \<longleftrightarrow> (list_all (\<lambda>l. ln_status l = ''succeeded'') lin \<and> \<not> po_expired po)"
  proof (cases "po_expired po")
    case False
    have "failure = None" if all: "list_all (\<lambda>l. ln_status l = ''succeeded'') lin"
    proof (rule ccontr)
      assume "failure \<noteq> None"
      with False f obtain e where "po_error po = Some e" by (auto simp: pool_failure_def split: option.splits)
      with D(9) obtain i l where il: "po_lineage po i = Some l" "ln_error l \<noteq> []" by (auto simp: error_ok_def)
      then have "i < ?n" using L(1) [of i] D(2) by auto
      with all succeeded [of i] held [OF il(1)] il(2) show False by (auto simp: lin list_all_iff)
    qed
    moreover have "list_all (\<lambda>l. ln_status l = ''succeeded'') lin" if "failure = None"
    proof -
      have "po_error po = None" using that f by (auto simp: pool_failure_def split: option.splits)
      with errors have "ln_error (record_of env p po i) = []" if "i < po_next po" for i using that by blast
      with L(2) that f succeeded show ?thesis by (simp add: lin list_all_iff)
    qed
    ultimately show ?thesis using False by blast
  qed simp
  show "\<exists>l\<in>set lin. ln_status l = ''failed'' \<and> ln_step_name l = nam \<and> ln_error l = e"
    if "failure = Some (Step_Failed nam e)"
  proof -
    have "po_error po = Some (Step_Failed nam e)" using that f by (auto simp: pool_failure_def split: option.splits if_splits)
    with D(9) obtain i l where il: "po_lineage po i = Some l" "ln_error l \<noteq> []" "ln_step_name l = nam" "ln_error l = e"
      by (auto simp: error_ok_def)
    then have i: "i < po_next po" "i < ?n" using L(1) [of i] D(2) by auto
    with R(3) [of i] il L(1) [of i] held [OF il(1)] have "ln_status l = ''failed''"
      by (auto simp: execute_pipeline_step_def)
    with i(2) il held [OF il(1)] show ?thesis by (intro bexI [of _ l]) (auto simp: lin)
  qed
qed

section \<open>Properties\<close>

text \<open>
  Claim C30: The worker pool always comes to an end: in every interleaving of its producer, workers and
  collector (and whenever the request is cancelled) at most a fixed number of events happen, at
  most \<open>worker_count\<close> distinct steps run at a time, and as long as the pool is not finished one of its own
  events is possible, so it neither deadlocks nor runs for ever.
\<close>

theorem pool_always_finishes:
  assumes "pool_run env p es (start_pool p) = Some po"
  shows "length es \<le> 6 * length (pl_steps p) + 2 * worker_count p + 2
    \<and> length (po_running po) \<le> worker_count p \<and> distinct (po_running po)
    \<and> (pool_finished po \<or> (\<exists>ev. ev \<noteq> Context_Ends \<and> pool_step env p ev po \<noteq> None))"
proof -
  have inv: "pool_inv env p po" by (rule reached_inv [OF assms])
  have "pool_measure p (start_pool p) = 6 * length (pl_steps p) + 2 * worker_count p + 2"
    by (simp add: pool_measure_def start_pool_def)
  with pool_run_measure [OF assms] have "length es \<le> 6 * length (pl_steps p) + 2 * worker_count p + 2" by simp
  with pool_invD(3) [OF inv] running_distinct [OF inv] pool_progress [OF inv] show ?thesis by auto
qed

definition sample_two_steps :: pipeline where
  "sample_two_steps =
     \<lparr>pl_name = ''daily'', pl_description = [], pl_version = 1, pl_parallelism = 1,
      pl_steps = [\<lparr>ps_name = ''first'', ps_sql = ''SELECT x''\<rparr>, \<lparr>ps_name = ''second'', ps_sql = ''SELECT 1''\<rparr>],
      pl_created = 0, pl_updated = 0\<rparr>"

definition good_query :: query_result where
  "good_query = \<lparr>qr_columns = [''a''], qr_row_count = 1, qr_elapsed = 0, qr_error = []\<rparr>"

definition bad_query :: query_result where
  "bad_query = \<lparr>qr_columns = [], qr_row_count = 0, qr_elapsed = 0, qr_error = ''no such column''\<rparr>"

text \<open>A schedule in which the first step fails before the second is handed over.\<close>

definition overrun_events :: "pool_event list" where
  "overrun_events =
     [Hand_Over, Finish_Step 0 bad_query, Hand_Over, Finish_Step 1 good_query, Collect_Result, Collect_Result, Stop_Worker]"

lemma overrun:
  "\<exists>po. pool_run env sample_two_steps overrun_events (start_pool sample_two_steps) = Some po \<and> pool_finished po
    \<and> map ln_status (fst (pool_result env sample_two_steps po)) = [''failed'', ''succeeded'']"
  by (simp add: overrun_events_def sample_two_steps_def start_pool_def worker_count_def collect_result_def
      pool_finished_def pool_result_def step_lineage_def execute_pipeline_step_def good_query_def bad_query_def
      work_done_def upt_rec numeral_2_eq_2)

theorem pool_always_finishes_witness:
  "length overrun_events \<le> 6 * length (pl_steps sample_two_steps) + 2 * worker_count sample_two_steps + 2"
proof -
  obtain po where "pool_run sample_pipeline_env sample_two_steps overrun_events (start_pool sample_two_steps) = Some po"
    using overrun by blast
  from pool_always_finishes [OF this] show ?thesis by blast
qed



text \<open>
  A failed step does not keep the next one from running, even with one worker: the worker that reports the
  failure may take the next step before the collector cancels, so a run can record the first step as failed
  and the second as succeeded.
\<close>

theorem failure_may_overrun:
  "\<exists>es po. worker_count sample_two_steps = 1
    \<and> pool_run env sample_two_steps es (start_pool sample_two_steps) = Some po \<and> pool_finished po
    \<and> map ln_status (fst (pool_result env sample_two_steps po)) = [''failed'', ''succeeded'']"
proof -
  have "worker_count sample_two_steps = 1" by (simp add: worker_count_def sample_two_steps_def)
  with overrun [of env] have "\<exists>po. worker_count sample_two_steps = 1
    \<and> pool_run env sample_two_steps overrun_events (start_pool sample_two_steps) = Some po \<and> pool_finished po
    \<and> map ln_status (fst (pool_result env sample_two_steps po)) = [''failed'', ''succeeded'']" by (elim exE) (rule exI, rule conjI, assumption, assumption)
  then show ?thesis by (rule exI [of _ overrun_events])
qed

lemma recorded:
  assumes "record_pipeline_run env st r = (None, st')"
  shows "st_definitions st' = st_definitions st"
    and "\<exists>row. st_runs st' = st_runs st @ [row] \<and> rr_pipeline_name row = pr_name r
      \<and> rr_pipeline_version row = pr_version r \<and> rr_status row = pr_status r
      \<and> rr_lineage row = pe_encode_lineage env (pr_lineage r)"
  using assms by (auto simp: record_pipeline_run_def split: sum.splits)



end
