(* ===== verification/MatchText.thy ===== *)
theory MatchText
  imports GoText GoFloat
begin

text \<open>
  Text preparation and similarity of the matching engine (\<^verbatim>\<open>internal/match/normalize.go\<close>).

  The functions work rune by rune, so a text is the list of its code points (the texts are valid
  UTF-8).  The Unicode tables \<^verbatim>\<open>unicode.IsLetter\<close>, \<^verbatim>\<open>IsDigit\<close>, \<^verbatim>\<open>ToUpper\<close> and case folding, the rounding of
  floats and \<^verbatim>\<open>strconv.ParseFloat\<close> are parameters (\<open>match_env\<close>).
\<close>

type_synonym rune = nat
type_synonym runes = "rune list"

record match_env =
  me_letter :: "rune \<Rightarrow> bool"
  me_digit :: "rune \<Rightarrow> bool"
  me_upper :: "rune \<Rightarrow> rune"
  me_fold :: "rune \<Rightarrow> rune"
  me_round :: rounding
  me_parse :: "runes \<Rightarrow> float_value option"
  me_group_order :: "runes list \<Rightarrow> runes list"

text \<open>A literal of the source in ASCII.\<close>

definition ascii :: "string \<Rightarrow> runes" where
  "ascii s = map of_char s"

section \<open>The parts of package strings\<close>

definition is_space_rune :: "rune \<Rightarrow> bool" where
  "is_space_rune r \<longleftrightarrow>
     9 \<le> r \<and> r \<le> 13 \<or> r = 32 \<or> r = 133 \<or> r = 160 \<or> r = 5760 \<or> 8192 \<le> r \<and> r \<le> 8202
     \<or> r = 8232 \<or> r = 8233 \<or> r = 8239 \<or> r = 8287 \<or> r = 12288"

definition trim_runes :: "runes \<Rightarrow> runes" where
  "trim_runes s = rev (dropWhile is_space_rune (rev (dropWhile is_space_rune s)))"

text \<open>\<^verbatim>\<open>strings.Fields\<close>; \<open>cur\<close> is the field being read, reversed.\<close>

fun fields_from :: "runes \<Rightarrow> runes \<Rightarrow> runes list" where
  "fields_from cur [] = (if cur = [] then [] else [rev cur])"
| "fields_from cur (r # rs) =
     (if is_space_rune r then (if cur = [] then fields_from [] rs else rev cur # fields_from [] rs)
      else fields_from (r # cur) rs)"

definition text_fields :: "runes \<Rightarrow> runes list" where
  "text_fields s = fields_from [] s"

fun join_fields :: "runes list \<Rightarrow> runes" where
  "join_fields [] = []"
| "join_fields [t] = t"
| "join_fields (t # u # ts) = t @ 32 # join_fields (u # ts)"

text \<open>The number of bytes of a rune in UTF-8.\<close>

definition rune_bytes :: "rune \<Rightarrow> nat" where
  "rune_bytes r = (if r < 128 then 1 else if r < 2048 then 2 else if r < 65536 then 3 else 4)"

definition byte_length :: "runes \<Rightarrow> nat" where
  "byte_length s = sum_list (map rune_bytes s)"

section \<open>Canonical names\<close>

definition diacritic_fold :: "(rune list \<times> char) list" where
  "diacritic_fold =
     [([228, 224, 225, 226, 227, 229], CHR ''a''), ([246, 242, 243, 244, 245], CHR ''o''),
      ([252, 249, 250, 251], CHR ''u''), ([196, 192, 193, 194, 195, 197], CHR ''A''),
      ([214, 210, 211, 212, 213], CHR ''O''), ([220, 217, 218, 219], CHR ''U''), ([223], CHR ''s''),
      ([232, 233, 234, 235], CHR ''e''), ([236, 237, 238, 239], CHR ''i''), ([241], CHR ''n''),
      ([231], CHR ''c''), ([253], CHR ''y''), ([200, 201, 202, 203], CHR ''E''),
      ([204, 205, 206, 207], CHR ''I''), ([209], CHR ''N''), ([199], CHR ''C''), ([221], CHR ''Y'')]"

definition fold_rune :: "rune \<Rightarrow> rune" where
  "fold_rune r =
     (case find (\<lambda>(rs, c). r \<in> set rs) diacritic_fold of Some (_, c) \<Rightarrow> of_char c | None \<Rightarrow> r)"

definition fold_diacritics :: "runes \<Rightarrow> runes" where
  "fold_diacritics s = map fold_rune s"

definition strip_punctuation :: "match_env \<Rightarrow> runes \<Rightarrow> runes" where
  "strip_punctuation env s = map (\<lambda>r. if me_letter env r \<or> me_digit env r then r else 32) s"

text \<open>The replacer of \<^verbatim>\<open>AE\<close>, \<^verbatim>\<open>OE\<close>, \<^verbatim>\<open>UE\<close>, from the left and without overlap.\<close>

fun fold_german_digraphs :: "runes \<Rightarrow> runes" where
  "fold_german_digraphs (a # e # s) =
     (if e = of_char CHR ''E'' \<and> a \<in> {of_char CHR ''A'', of_char CHR ''O'', of_char CHR ''U''}
      then a # fold_german_digraphs s else a # fold_german_digraphs (e # s))"
| "fold_german_digraphs s = s"

definition legal_forms :: "runes list" where
  "legal_forms = map ascii
     [''GMBH'', ''MBH'', ''GMBHCOKG'', ''GGMBH'', ''AG'', ''KG'', ''KGAA'', ''OHG'', ''GBR'', ''EK'', ''EG'',
      ''UG'', ''EV'', ''STIFTUNG'', ''CO'', ''COKG'', ''INC'', ''LLC'', ''LLP'', ''LTD'', ''LTDA'', ''CORP'',
      ''SA'', ''SAS'', ''SARL'', ''SRL'', ''SPA'', ''SL'', ''BV'', ''NV'', ''PLC'', ''OY'', ''AB'', ''AS'', ''APS'']"

definition upper_runes :: "match_env \<Rightarrow> runes \<Rightarrow> runes" where
  "upper_runes env s = map (me_upper env) s"

definition name_tokens :: "match_env \<Rightarrow> runes \<Rightarrow> runes list" where
  "name_tokens env s =
     text_fields (fold_german_digraphs (upper_runes env (strip_punctuation env (fold_diacritics s))))"

definition canonicalize_name :: "match_env \<Rightarrow> runes \<Rightarrow> runes" where
  "canonicalize_name env s =
     (let tokens = name_tokens env s; kept = filter (\<lambda>t. t \<notin> set legal_forms) tokens in
      join_fields (if kept = [] then tokens else kept))"

section \<open>Jaro-Winkler\<close>

definition match_distance :: "runes \<Rightarrow> runes \<Rightarrow> nat" where
  "match_distance a b =
     (let d = length a div 2 - 1 in if d < length b div 2 - 1 then length b div 2 - 1 else d)"

text \<open>Rune \<open>i\<close> of \<open>a\<close> takes the first free equal rune of \<open>b\<close> in its window.\<close>

definition take_match :: "runes \<Rightarrow> runes \<Rightarrow> nat \<Rightarrow> bool list \<times> bool list \<Rightarrow> bool list \<times> bool list" where
  "take_match a b i st =
     (let d = match_distance a b in
      case find (\<lambda>j. \<not> snd st ! j \<and> a ! i = b ! j) [i - d..<min (i + d + 1) (length b)] of
        None \<Rightarrow> st
      | Some j \<Rightarrow> ((fst st)[i := True], (snd st)[j := True]))"

definition jaro_matches :: "runes \<Rightarrow> runes \<Rightarrow> bool list \<times> bool list" where
  "jaro_matches a b =
     fold (take_match a b) [0..<length a] (replicate (length a) False, replicate (length b) False)"

definition match_count :: "bool list \<Rightarrow> nat" where
  "match_count ms = length (filter id ms)"

text \<open>
  Counting transpositions: \<open>None\<close> where the search for the next matched rune of \<open>b\<close> runs past the end,
  which is a panic in Go.
\<close>

definition transposition_step ::
    "runes \<Rightarrow> runes \<Rightarrow> bool list \<times> bool list \<Rightarrow> nat \<Rightarrow> (nat \<times> nat) option \<Rightarrow> (nat \<times> nat) option" where
  "transposition_step a b ms i st =
     (case st of
        None \<Rightarrow> None
      | Some (k, t) \<Rightarrow>
          if \<not> fst ms ! i then Some (k, t)
          else (case find (\<lambda>j. snd ms ! j) [k..<length b] of
              None \<Rightarrow> None
            | Some j \<Rightarrow> Some (Suc j, if a ! i \<noteq> b ! j then Suc t else t)))"

definition half_transpositions :: "runes \<Rightarrow> runes \<Rightarrow> bool list \<times> bool list \<Rightarrow> nat option" where
  "half_transpositions a b ms =
     map_option (\<lambda>(k, t). t div 2) (fold (transposition_step a b ms) [0..<length a] (Some (0, 0)))"

fun common_prefix :: "nat \<Rightarrow> runes \<Rightarrow> runes \<Rightarrow> nat" where
  "common_prefix (Suc n) (x # xs) (y # ys) = (if x = y then Suc (common_prefix n xs ys) else 0)"
| "common_prefix _ _ _ = 0"

definition of_count :: "rounding \<Rightarrow> nat \<Rightarrow> float_value" where
  "of_count rnd n = rnd (of_nat n)"

definition jaro_value :: "rounding \<Rightarrow> nat \<Rightarrow> nat \<Rightarrow> nat \<Rightarrow> nat \<Rightarrow> float_value" where
  "jaro_value rnd la lb m t =
     (let fm = of_count rnd m in
      float_div rnd
        (float_plus rnd
          (float_plus rnd (float_div rnd fm (of_count rnd la)) (float_div rnd fm (of_count rnd lb)))
          (float_div rnd (float_minus rnd fm (of_count rnd t)) fm))
        (rnd 3))"

definition jaro_winkler :: "rounding \<Rightarrow> runes \<Rightarrow> runes \<Rightarrow> float_value option" where
  "jaro_winkler rnd a b =
     (if a = b then Some (rnd 1)
      else if a = [] \<or> b = [] then Some (rnd 0)
      else (let ms = jaro_matches a b; m = match_count (fst ms) in
        if m = 0 then Some (rnd 0)
        else (case half_transpositions a b ms of
            None \<Rightarrow> None
          | Some t \<Rightarrow>
              (let jaro = jaro_value rnd (length a) (length b) m t in
               Some (float_plus rnd jaro
                 (float_times rnd (float_times rnd (of_count rnd (common_prefix 4 a b)) (rnd (1 / 10)))
                   (float_minus rnd (rnd 1) jaro)))))))"

section \<open>Addresses\<close>

definition is_ascii_letter :: "rune \<Rightarrow> bool" where
  "is_ascii_letter r \<longleftrightarrow> 97 \<le> r \<and> r \<le> 122 \<or> 65 \<le> r \<and> r \<le> 90"

definition atoi_runes :: "runes \<Rightarrow> int option" where
  "atoi_runes s = (if list_all (\<lambda>r. r < 128) s then atoi (map char_of s) else None)"

definition is_house_number :: "runes \<Rightarrow> bool" where
  "is_house_number tok =
     (if tok = [] then False
      else (let digits = (if is_ascii_letter (last tok) then butlast tok else tok) in
        digits \<noteq> [] \<and> atoi_runes digits \<noteq> None))"

definition split_house_number :: "match_env \<Rightarrow> runes \<Rightarrow> runes \<times> runes" where
  "split_house_number env s =
     (let tokens = text_fields (strip_punctuation env (fold_diacritics (trim_runes s))) in
      if tokens = [] then ([], [])
      else if is_house_number (last tokens) then (join_fields (butlast tokens), upper_runes env (last tokens))
      else (join_fields tokens, []))"

definition expand_street :: "runes \<Rightarrow> runes" where
  "expand_street tok =
     (let str = ascii ''STR'' in
      if tok = str \<or> tok = ascii ''STR.'' then ascii ''STRASSE''
      else if suffix str tok then take (length tok - 3) tok @ ascii ''STRASSE''
      else tok)"

definition normalize_street :: "match_env \<Rightarrow> runes \<Rightarrow> runes" where
  "normalize_street env s =
     canonicalize_name env (join_fields (map expand_street (text_fields (upper_runes env (fold_diacritics s)))))"

definition jaccard :: "rounding \<Rightarrow> runes list \<Rightarrow> runes list \<Rightarrow> float_value" where
  "jaccard rnd a b =
     (let inter = length (filter (\<lambda>t. t \<in> set b) (remdups a));
          union = length (remdups a) + length (remdups b) - inter in
      if union = 0 then rnd 0 else float_div rnd (of_count rnd inter) (of_count rnd union))"

definition address_score :: "match_env \<Rightarrow> runes \<Rightarrow> runes \<Rightarrow> float_value" where
  "address_score env a b =
     (let rnd = me_round env; (street_a, num_a) = split_house_number env a; (street_b, num_b) = split_house_number env b;
          ta = text_fields (normalize_street env street_a); tb = text_fields (normalize_street env street_b);
          street = (if ta \<noteq> [] \<and> tb \<noteq> [] then jaccard rnd ta tb else rnd 0) in
      if num_a = [] \<and> num_b = [] then street
      else float_plus rnd (float_times rnd (rnd (7 / 10)) street)
        (float_times rnd (rnd (3 / 10)) (if num_a = num_b then rnd 1 else rnd 0)))"

section \<open>Product codes\<close>

fun ean_sum :: "bool \<Rightarrow> nat list \<Rightarrow> nat" where
  "ean_sum triple [] = 0"
| "ean_sum triple (d # ds) = (if triple then 3 * d else d) + ean_sum (\<not> triple) ds"

definition validate_ean :: "runes \<Rightarrow> bool" where
  "validate_ean raw =
     (let s = trim_runes raw in
      (length s = 8 \<or> length s = 13) \<and> list_all (\<lambda>r. 48 \<le> r \<and> r \<le> 57) s
      \<and> (10 - ean_sum (length s = 8) (map (\<lambda>r. r - 48) (butlast s)) mod 10) mod 10 = last s - 48)"

definition ean_score :: "rounding \<Rightarrow> runes \<Rightarrow> runes \<Rightarrow> float_value option" where
  "ean_score rnd a b =
     (if \<not> validate_ean a \<or> \<not> validate_ean b then None else Some (if a = b then rnd 1 else rnd 0))"

end
