(* ===== verification/Matching.thy ===== *)
theory Matching
  imports MatchText
begin

text \<open>
  The matching engine (\<^verbatim>\<open>internal/match/match.go\<close>): scoring a pair of rows by field rules, candidate
  selection by token blocking, the best candidates per source row and the statistics of a run.
\<close>

section \<open>Rules, rows, options\<close>

datatype match_method =
  Method_Exact | Method_Exact_CI | Method_Normalized | Method_Similarity | Method_Token_Set
| Method_Address | Method_Numeric | Method_EAN | Method_Other

record field_rule =
  fr_method :: match_method
  fr_weight :: float_value
  fr_tolerance :: float_value
  fr_group :: runes

record match_row =
  mr_key :: string
  mr_values :: "runes list"

record match_options =
  mo_fields :: "field_rule list"
  mo_auto :: float_value
  mo_review :: float_value
  mo_no_blocking :: bool
  mo_max_candidates :: int
  mo_max_comparisons :: int

datatype match_status = Status_Auto | Status_Review

record match_candidate =
  mc_source :: nat
  mc_target :: nat
  mc_score :: float_value
  mc_field_scores :: "float_value list"
  mc_status :: match_status

record match_stats =
  ms_total_source :: nat
  ms_total_target :: nat
  ms_comparisons :: nat
  ms_auto :: nat
  ms_review :: nat
  ms_unmatched :: nat
  ms_blocking :: bool

section \<open>Comparing one field\<close>

definition replace_commas :: "runes \<Rightarrow> runes" where
  "replace_commas s = map (\<lambda>r. if r = of_char CHR '','' then of_char CHR ''.'' else r) s"

definition float_abs :: "float_value \<Rightarrow> float_value" where
  "float_abs v = (if float_less v (Finite 0) then float_neg v else v)"

definition numeric_score :: "match_env \<Rightarrow> runes \<Rightarrow> runes \<Rightarrow> float_value \<Rightarrow> float_value option" where
  "numeric_score env a b tolerance =
     (let rnd = me_round env in
      case (me_parse env (replace_commas a), me_parse env (replace_commas b)) of
        (Some x, Some y) \<Rightarrow>
          if float_eq x y then Some (rnd 1)
          else if float_at_least (Finite 0) tolerance then Some (rnd 0)
          else (let diff = float_abs (float_minus rnd x y);
                    base = (if float_less (float_abs x) (float_abs y) then float_abs y else float_abs x);
                    base' = (if float_eq base (Finite 0) then rnd 1 else base);
                    score = float_minus rnd (rnd 1) (float_div rnd (float_div rnd diff base') tolerance) in
                Some (if float_less score (Finite 0) then rnd 0 else score))
      | _ \<Rightarrow> None)"

text \<open>
  \<open>None\<close>: the field is not comparable.  A panic of \<open>jaro_winkler\<close> would be \<open>None\<close> as well; it does
  not happen (\<open>jaro_winkler_returns\<close>).
\<close>

definition compare_field :: "match_env \<Rightarrow> runes \<Rightarrow> runes \<Rightarrow> field_rule \<Rightarrow> float_value option" where
  "compare_field env a b f =
     (let rnd = me_round env; yes_no = (\<lambda>c. Some (if c then rnd 1 else rnd 0)) in
      case fr_method f of
        Method_Exact \<Rightarrow> yes_no (a = b)
      | Method_Exact_CI \<Rightarrow> yes_no (map (me_fold env) a = map (me_fold env) b)
      | Method_Normalized \<Rightarrow> yes_no (canonicalize_name env a = canonicalize_name env b)
      | Method_Similarity \<Rightarrow> jaro_winkler rnd (canonicalize_name env a) (canonicalize_name env b)
      | Method_Token_Set \<Rightarrow>
          (let ta = text_fields (canonicalize_name env a); tb = text_fields (canonicalize_name env b) in
           if ta = [] \<or> tb = [] then None else Some (jaccard rnd ta tb))
      | Method_Address \<Rightarrow> Some (address_score env a b)
      | Method_Numeric \<Rightarrow> numeric_score env a b (fr_tolerance f)
      | Method_EAN \<Rightarrow> ean_score rnd a b
      | Method_Other \<Rightarrow> None)"

section \<open>Scoring a pair\<close>

text \<open>The score of field \<open>i\<close>, \<open>None\<close> where a side is missing, blank or not comparable.\<close>

definition field_score :: "match_env \<Rightarrow> match_row \<Rightarrow> match_row \<Rightarrow> nat \<Rightarrow> field_rule \<Rightarrow> float_value option" where
  "field_score env a b i f =
     (if i \<ge> length (mr_values a) \<or> i \<ge> length (mr_values b) then None
      else (let av = trim_runes (mr_values a ! i); bv = trim_runes (mr_values b ! i) in
        if av = [] \<or> bv = [] then None else compare_field env av bv f))"

definition rule_weight :: "match_env \<Rightarrow> field_rule \<Rightarrow> float_value" where
  "rule_weight env f = (if float_at_least (Finite 0) (fr_weight f) then me_round env 1 else fr_weight f)"

record score_sums =
  ss_sum :: float_value
  ss_total :: float_value
  ss_any :: bool
  ss_groups :: "(runes \<times> float_value \<times> float_value) list"

text \<open>A group keeps the least score of its members and the sum of their weights.\<close>

definition join_group ::
    "rounding \<Rightarrow> runes \<Rightarrow> float_value \<Rightarrow> float_value \<Rightarrow> (runes \<times> float_value \<times> float_value) list \<Rightarrow>
     (runes \<times> float_value \<times> float_value) list" where
  "join_group rnd g score w groups =
     (case map_of groups g of
        None \<Rightarrow> groups @ [(g, score, w)]
      | Some _ \<Rightarrow>
          map (\<lambda>(h, s, v). if h = g then (h, if float_less score s then score else s, float_plus rnd v w) else (h, s, v))
            groups)"

definition add_score :: "match_env \<Rightarrow> field_rule \<times> float_value option \<Rightarrow> score_sums \<Rightarrow> score_sums" where
  "add_score env fs ss =
     (case snd fs of
        None \<Rightarrow> ss
      | Some score \<Rightarrow>
          (let w = rule_weight env (fst fs); rnd = me_round env in
           if fr_group (fst fs) = []
           then ss\<lparr>ss_sum := float_plus rnd (ss_sum ss) (float_times rnd w score),
                   ss_total := float_plus rnd (ss_total ss) w, ss_any := True\<rparr>
           else ss\<lparr>ss_groups := join_group rnd (fr_group (fst fs)) score w (ss_groups ss)\<rparr>))"

definition weigh_group :: "match_env \<Rightarrow> runes \<times> float_value \<times> float_value \<Rightarrow> score_sums \<Rightarrow> score_sums" where
  "weigh_group env g ss =
     (let rnd = me_round env in
      ss\<lparr>ss_sum := float_plus rnd (ss_sum ss) (float_times rnd (snd (snd g)) (fst (snd g))),
         ss_total := float_plus rnd (ss_total ss) (snd (snd g)), ss_any := True\<rparr>)"

text \<open>Go visits the groups in the order of a map iteration, here \<open>me_group_order\<close>.\<close>

definition ordered_groups ::
    "match_env \<Rightarrow> (runes \<times> float_value \<times> float_value) list \<Rightarrow> (runes \<times> float_value \<times> float_value) list" where
  "ordered_groups env groups =
     concat (map (\<lambda>g. case map_of groups g of None \<Rightarrow> [] | Some v \<Rightarrow> [(g, v)]) (me_group_order env (map fst groups)))"

definition combine_scores :: "match_env \<Rightarrow> (field_rule \<times> float_value option) list \<Rightarrow> float_value option" where
  "combine_scores env fs =
     (let s1 = fold (add_score env) fs \<lparr>ss_sum = Finite 0, ss_total = Finite 0, ss_any = False, ss_groups = []\<rparr>;
          s2 = fold (weigh_group env) (ordered_groups env (ss_groups s1)) s1 in
      if \<not> ss_any s2 \<or> float_eq (ss_total s2) (Finite 0) then None
      else Some (float_div (me_round env) (ss_sum s2) (ss_total s2)))"

definition pair_scores :: "match_env \<Rightarrow> match_row \<Rightarrow> match_row \<Rightarrow> field_rule list \<Rightarrow> float_value option list" where
  "pair_scores env a b rules = map (\<lambda>i. field_score env a b i (rules ! i)) [0..<length rules]"

definition score_pair ::
    "match_env \<Rightarrow> match_row \<Rightarrow> match_row \<Rightarrow> field_rule list \<Rightarrow> float_value option \<times> float_value list" where
  "score_pair env a b rules =
     (combine_scores env (zip rules (pair_scores env a b rules)),
      map (\<lambda>s. case s of None \<Rightarrow> Finite (- 1) | Some v \<Rightarrow> v) (pair_scores env a b rules))"

section \<open>Candidates\<close>

definition is_blockable :: "match_method \<Rightarrow> bool" where
  "is_blockable m \<longleftrightarrow> m \<in> {Method_Normalized, Method_Similarity, Method_Token_Set, Method_Address}"

definition field_keys :: "match_env \<Rightarrow> match_row \<Rightarrow> nat \<Rightarrow> (nat \<times> runes) list" where
  "field_keys env row i =
     (if i \<ge> length (mr_values row) then []
      else (let v = trim_runes (mr_values row ! i) in
        if v = [] then []
        else map (\<lambda>t. (i, t)) (filter (\<lambda>t. 3 \<le> byte_length t) (text_fields (canonicalize_name env v)))))"

text \<open>A key is the pair of the field and the token; Go joins them as text with a colon.\<close>

definition block_keys :: "match_env \<Rightarrow> match_row \<Rightarrow> nat list \<Rightarrow> (nat \<times> runes) list" where
  "block_keys env row idx = concat (map (field_keys env row) idx)"

text \<open>The targets under a key, in the order they were indexed.\<close>

definition target_index :: "match_env \<Rightarrow> match_row list \<Rightarrow> nat list \<Rightarrow> nat \<times> runes \<Rightarrow> nat list" where
  "target_index env target idx key =
     concat (map (\<lambda>ti. map (\<lambda>_. ti) (filter (\<lambda>k. k = key) (block_keys env (target ! ti) idx))) [0..<length target])"

text \<open>New targets are appended once.\<close>

definition add_candidate :: "nat \<Rightarrow> nat list \<Rightarrow> nat list" where
  "add_candidate ti cs = (if ti \<in> set cs then cs else cs @ [ti])"

definition row_candidates :: "match_env \<Rightarrow> match_row list \<Rightarrow> nat list \<Rightarrow> match_row \<Rightarrow> nat list" where
  "row_candidates env target idx row =
     fold (\<lambda>key cs. fold add_candidate (target_index env target idx key) cs) (block_keys env row idx) []"

fun blocked_candidates ::
    "match_env \<Rightarrow> match_row list \<Rightarrow> nat list \<Rightarrow> int \<Rightarrow> int \<Rightarrow> match_row list \<Rightarrow> nat list list option" where
  "blocked_candidates env target idx limit sofar [] = Some []"
| "blocked_candidates env target idx limit sofar (row # rows) =
     (let cs = row_candidates env target idx row; sofar' = sofar + int (length cs) in
      if sofar' > limit then None
      else map_option ((#) cs) (blocked_candidates env target idx limit sofar' rows))"

definition full_candidates :: "match_row list \<Rightarrow> match_row list \<Rightarrow> int \<Rightarrow> nat list list option" where
  "full_candidates source target limit =
     (if int (length source) * int (length target) > limit then None
      else Some (map (\<lambda>_. [0..<length target]) source))"

definition blockable_fields :: "field_rule list \<Rightarrow> nat list" where
  "blockable_fields rules = filter (\<lambda>i. is_blockable (fr_method (rules ! i))) [0..<length rules]"

definition build_candidate_index ::
    "match_env \<Rightarrow> match_row list \<Rightarrow> match_row list \<Rightarrow> match_options \<Rightarrow> int \<Rightarrow> string + nat list list \<times> bool" where
  "build_candidate_index env source target opts limit =
     (let idx = blockable_fields (mo_fields opts) in
      if mo_no_blocking opts \<or> idx = []
      then (case full_candidates source target limit of
          None \<Rightarrow> Inl ''over the safety limit; enable blocking or reduce the table size''
        | Some cs \<Rightarrow> Inr (cs, False))
      else (case blocked_candidates env target idx limit 0 source of
          None \<Rightarrow> Inl ''blocking still produced too many candidate comparisons''
        | Some cs \<Rightarrow> Inr (cs, True)))"

section \<open>The run\<close>

text \<open>
  Appending and sorting by descending score: Go's insertion sort on a sorted list moves the new entry left
  past the entries with a smaller score.
\<close>

fun insert_right :: "match_candidate \<Rightarrow> match_candidate list \<Rightarrow> match_candidate list" where
  "insert_right c [] = [c]"
| "insert_right c (x # xs) =
     (if list_all (\<lambda>y. float_less (mc_score y) (mc_score c)) (x # xs) then c # x # xs else x # insert_right c xs)"

definition insert_top_k :: "match_candidate list \<Rightarrow> match_candidate \<Rightarrow> nat \<Rightarrow> match_candidate list" where
  "insert_top_k xs c k = take k (insert_right c xs)"

definition candidate_of ::
    "match_env \<Rightarrow> match_row list \<Rightarrow> field_rule list \<Rightarrow> float_value \<Rightarrow> float_value \<Rightarrow> nat \<Rightarrow> match_row \<Rightarrow> nat \<Rightarrow> match_candidate option" where
  "candidate_of env target rules auto review si row ti =
     (case score_pair env row (target ! ti) rules of
        (None, _) \<Rightarrow> None
      | (Some score, field_scores) \<Rightarrow>
          if float_less score review then None
          else Some \<lparr>mc_source = si, mc_target = ti, mc_score = score, mc_field_scores = field_scores,
            mc_status = (if float_at_least score auto then Status_Auto else Status_Review)\<rparr>)"

definition best_candidates ::
    "match_env \<Rightarrow> match_row list \<Rightarrow> field_rule list \<Rightarrow> float_value \<Rightarrow> float_value \<Rightarrow> nat \<Rightarrow> nat \<Rightarrow> match_row \<Rightarrow> nat list \<Rightarrow>
     match_candidate list" where
  "best_candidates env target rules auto review k si row targets =
     fold (\<lambda>ti best. case candidate_of env target rules auto review si row ti of
         None \<Rightarrow> best | Some c \<Rightarrow> insert_top_k best c k) targets []"

definition count_status :: "match_status \<Rightarrow> match_candidate list \<Rightarrow> nat" where
  "count_status s cs = length (filter (\<lambda>c. mc_status c = s) cs)"

fun match_rows ::
    "match_env \<Rightarrow> match_row list \<Rightarrow> field_rule list \<Rightarrow> float_value \<Rightarrow> float_value \<Rightarrow> nat \<Rightarrow> nat \<Rightarrow>
     (match_row \<times> nat list) list \<Rightarrow> match_stats \<Rightarrow> match_candidate list \<times> match_stats" where
  "match_rows env target rules auto review k si [] st = ([], st)"
| "match_rows env target rules auto review k si ((row, targets) # rest) st =
     (let best = best_candidates env target rules auto review k si row targets;
          st1 = st\<lparr>ms_comparisons := ms_comparisons st + length targets\<rparr>;
          st2 = (if best = [] then st1\<lparr>ms_unmatched := Suc (ms_unmatched st1)\<rparr>
            else st1\<lparr>ms_auto := ms_auto st1 + count_status Status_Auto best,
                     ms_review := ms_review st1 + count_status Status_Review best\<rparr>);
          (results, st') = match_rows env target rules auto review k (Suc si) rest st2 in
      (best @ results, st'))"

definition default_max_candidates :: nat where "default_max_candidates = 3"
definition default_max_comparisons :: int where "default_max_comparisons = 4000000"

definition match_tables ::
    "match_env \<Rightarrow> match_row list \<Rightarrow> match_row list \<Rightarrow> match_options \<Rightarrow> string + match_candidate list \<times> match_stats" where
  "match_tables env source target opts =
     (if mo_fields opts = [] then Inl ''at least one field rule is required''
      else (let k = (if mo_max_candidates opts \<le> 0 then default_max_candidates else nat (mo_max_candidates opts));
                limit = (if mo_max_comparisons opts \<le> 0 then default_max_comparisons else mo_max_comparisons opts);
                review = mo_review opts;
                auto = (if float_less (mo_auto opts) review then review else mo_auto opts) in
        case build_candidate_index env source target opts limit of
          Inl e \<Rightarrow> Inl e
        | Inr (sets, blocking) \<Rightarrow>
            Inr (match_rows env target (mo_fields opts) auto review k 0 (zip source sets)
              \<lparr>ms_total_source = length source, ms_total_target = length target, ms_comparisons = 0, ms_auto = 0,
               ms_review = 0, ms_unmatched = 0, ms_blocking = blocking\<rparr>)))"

end
