(* ===== verification/MatchingCorrect.thy ===== *)
theory MatchingCorrect
  imports Matching "HOL-Library.Multiset" "HOL-Library.Product_Lexorder"
begin

text \<open>
  Correctness of the matching engine: the similarity never reads past its input, blocking finds
  exactly the rows that share a token, the result is the best candidates of every source row by a stable
  sort.
\<close>

section \<open>Jaro-Winkler never runs past the end\<close>

lemma take_match_counts:
  assumes "length (fst st) = length a" "length (snd st) = length b" "i < length a" "\<not> fst st ! i"
    and "match_count (fst st) = match_count (snd st)"
  shows "length (fst (take_match a b i st)) = length a" "length (snd (take_match a b i st)) = length b"
    and "match_count (fst (take_match a b i st)) = match_count (snd (take_match a b i st))"
    and "\<And>j. j \<noteq> i \<Longrightarrow> fst (take_match a b i st) ! j = fst st ! j"
proof -
  have grow: "match_count (xs[k := True]) = Suc (match_count xs)" if "k < length xs" "\<not> xs ! k" for xs k
    using that unfolding match_count_def
  proof (induction xs arbitrary: k)
    case (Cons x xs)
    then show ?case by (cases k) auto
  qed simp
  let ?find = "find (\<lambda>j. \<not> snd st ! j \<and> a ! i = b ! j) [i - match_distance a b..<min (i + match_distance a b + 1) (length b)]"
  show "length (fst (take_match a b i st)) = length a" "length (snd (take_match a b i st)) = length b"
    "\<And>j. j \<noteq> i \<Longrightarrow> fst (take_match a b i st) ! j = fst st ! j"
    using assms(1,2) by (simp_all add: take_match_def Let_def split: option.splits)
  show "match_count (fst (take_match a b i st)) = match_count (snd (take_match a b i st))"
  proof (cases ?find)
    case None
    with assms(5) show ?thesis by (simp add: take_match_def Let_def)
  next
    case (Some j)
    from find_SomeD [OF this] have "j < length b" "\<not> snd st ! j" by auto
    with Some assms grow show ?thesis by (simp add: take_match_def Let_def)
  qed
qed

lemma jaro_matches_counts:
  "length (fst (jaro_matches a b)) = length a \<and> length (snd (jaro_matches a b)) = length b
   \<and> match_count (fst (jaro_matches a b)) = match_count (snd (jaro_matches a b))"
proof -
  have "length (fst (fold (take_match a b) [0..<n] st)) = length a
      \<and> length (snd (fold (take_match a b) [0..<n] st)) = length b
      \<and> match_count (fst (fold (take_match a b) [0..<n] st)) = match_count (snd (fold (take_match a b) [0..<n] st))
      \<and> (\<forall>j\<ge>n. fst (fold (take_match a b) [0..<n] st) ! j = fst st ! j)"
    if "n \<le> length a" "length (fst st) = length a" "length (snd st) = length b"
      "match_count (fst st) = match_count (snd st)" "\<forall>j<length a. \<not> fst st ! j" for n st
    using that
  proof (induction n)
    case (Suc n)
    then have IH: "length (fst (fold (take_match a b) [0..<n] st)) = length a"
      "length (snd (fold (take_match a b) [0..<n] st)) = length b"
      "match_count (fst (fold (take_match a b) [0..<n] st)) = match_count (snd (fold (take_match a b) [0..<n] st))"
      "\<forall>j\<ge>n. fst (fold (take_match a b) [0..<n] st) ! j = fst st ! j"
      by simp_all
    have "n < length a" "\<not> fst (fold (take_match a b) [0..<n] st) ! n" using Suc.prems IH(4) by auto
    from take_match_counts [OF IH(1,2) this IH(3)] IH(4) show ?case by simp
  qed simp
  from this [of "length a" "(replicate (length a) False, replicate (length b) False)"]
  show ?thesis by (simp add: jaro_matches_def match_count_def)
qed

text \<open>The marks from position \<open>i\<close> on.\<close>

definition marks_from :: "bool list \<Rightarrow> nat \<Rightarrow> nat" where
  "marks_from ms i = length (filter (\<lambda>j. ms ! j) [i..<length ms])"

lemma marks_from_0: "marks_from ms 0 = match_count ms"
proof -
  have "filter id ms = filter id (map ((!) ms) [0..<length ms])" by (simp add: map_nth)
  then show ?thesis by (simp add: marks_from_def match_count_def filter_map comp_def)
qed

lemma marks_from_step: "i < length ms \<Longrightarrow> marks_from ms i = (if ms ! i then 1 else 0) + marks_from ms (Suc i)"
  by (simp add: marks_from_def upt_conv_Cons)

lemma marks_from_pos:
  assumes "0 < marks_from ms k"
  obtains j where "find (\<lambda>j. ms ! j) [k..<length ms] = Some j" "marks_from ms k = Suc (marks_from ms (Suc j))"
proof -
  have "\<exists>j. find (\<lambda>j. ms ! j) [k..<length ms] = Some j \<and> marks_from ms k = Suc (marks_from ms (Suc j))"
    using assms
  proof (induction "length ms - k" arbitrary: k)
    case 0
    then show ?case by (simp add: marks_from_def)
  next
    case (Suc n)
    then have k: "k < length ms" "[k..<length ms] = k # [Suc k..<length ms]" by (simp_all add: upt_conv_Cons)
    show ?case
    proof (cases "ms ! k")
      case True
      with k marks_from_step [OF k(1)] show ?thesis by simp
    next
      case False
      with Suc.hyps(1) [of "Suc k"] Suc.hyps(2) Suc.prems k marks_from_step [OF k(1)] show ?thesis by simp
    qed
  qed
  with that show thesis by blast
qed

lemma transpositions_return:
  assumes "length (fst ms) = length a" "length (snd ms) = length b"
    and "marks_from (fst ms) i = marks_from (snd ms) k"
  shows "\<exists>x. fold (transposition_step a b ms) [i..<length a] (Some (k, t)) = Some x"
  using assms(3)
proof (induction "length a - i" arbitrary: i k t)
  case (Suc n)
  then have i: "i < length a" "[i..<length a] = i # [Suc i..<length a]" by (simp_all add: upt_conv_Cons)
  show ?case
  proof (cases "fst ms ! i")
    case False
    with Suc.hyps(1) [of "Suc i" k t] Suc.hyps(2) Suc.prems i assms(1) marks_from_step [of i "fst ms"]
    show ?thesis by (simp add: transposition_step_def)
  next
    case True
    then have "0 < marks_from (snd ms) k" using Suc.prems i assms(1) marks_from_step [of i "fst ms"] by simp
    then obtain j where j: "find (\<lambda>j. snd ms ! j) [k..<length (snd ms)] = Some j"
      "marks_from (snd ms) k = Suc (marks_from (snd ms) (Suc j))" by (rule marks_from_pos)
    with Suc.hyps(1) [of "Suc i" "Suc j" "if a ! i \<noteq> b ! j then Suc t else t"] Suc.hyps(2) Suc.prems i True assms(1,2)
      marks_from_step [of i "fst ms"]
    show ?thesis by (simp add: transposition_step_def)
  qed
qed simp

lemma half_transpositions_return: "\<exists>t. half_transpositions a b (jaro_matches a b) = Some t"
proof -
  have "marks_from (fst (jaro_matches a b)) 0 = marks_from (snd (jaro_matches a b)) 0"
    using jaro_matches_counts [of a b] by (simp add: marks_from_0)
  from transpositions_return [OF _ _ this] jaro_matches_counts [of a b]
  show ?thesis by (fastforce simp: half_transpositions_def)
qed

text \<open>
  the similarity of two texts never reads past the end of either: for every pair of texts, the
  empty ones included, and every rounding the search for the next matched rune ends inside the second
  text, because the greedy matching marks equally many runes on both sides.
\<close>

theorem jaro_winkler_returns: "\<exists>v. jaro_winkler rnd a b = Some v"
  using half_transpositions_return [of a b] by (auto simp: jaro_winkler_def Let_def)

section \<open>Blocking\<close>

lemma add_candidate_set: "set (fold add_candidate ts cs) = set ts \<union> set cs"
  by (induction ts arbitrary: cs) (auto simp: add_candidate_def)

lemma add_candidate_distinct: "distinct cs \<Longrightarrow> distinct (fold add_candidate ts cs)"
  by (induction ts arbitrary: cs) (auto simp: add_candidate_def)

lemma target_index_set:
  "set (target_index env target idx key) = {ti. ti < length target \<and> key \<in> set (block_keys env (target ! ti) idx)}"
  by (auto simp: target_index_def)

lemma row_candidates_exact:
  "distinct (row_candidates env target idx row)
   \<and> set (row_candidates env target idx row)
     = {ti. ti < length target \<and> set (block_keys env row idx) \<inter> set (block_keys env (target ! ti) idx) \<noteq> {}}"
proof -
  have "distinct (fold (\<lambda>key cs. fold add_candidate (target_index env target idx key) cs) ks cs)
      \<and> set (fold (\<lambda>key cs. fold add_candidate (target_index env target idx key) cs) ks cs)
        = set cs \<union> {ti. ti < length target \<and> set ks \<inter> set (block_keys env (target ! ti) idx) \<noteq> {}}"
    if "distinct cs" for ks cs
    using that
  proof (induction ks arbitrary: cs)
    case (Cons k ks)
    from Cons.IH [OF add_candidate_distinct [OF Cons.prems]]
    show ?case by (auto simp: add_candidate_set target_index_set)
  qed simp
  from this [of "[]"] show ?thesis by (simp add: row_candidates_def)
qed

lemma block_keys_iff:
  "(i, t) \<in> set (block_keys env row idx) \<longleftrightarrow>
   i \<in> set idx \<and> i < length (mr_values row) \<and> t \<in> set (text_fields (canonicalize_name env (trim_runes (mr_values row ! i))))
   \<and> trim_runes (mr_values row ! i) \<noteq> [] \<and> 3 \<le> byte_length t"
  by (auto simp: block_keys_def field_keys_def Let_def not_le)

lemma blocked_candidates_rows:
  "blocked_candidates env target idx limit sofar rows = Some cs \<Longrightarrow>
   cs = map (row_candidates env target idx) rows
   \<and> (rows \<noteq> [] \<longrightarrow> sofar + int (sum_list (map length cs)) \<le> limit)"
proof (induction rows arbitrary: sofar cs)
  case (Cons row rows)
  then obtain cs' where cs': "cs = row_candidates env target idx row # cs'"
    "blocked_candidates env target idx limit (sofar + int (length (row_candidates env target idx row))) rows = Some cs'"
    "sofar + int (length (row_candidates env target idx row)) \<le> limit"
    by (auto simp: Let_def split: if_splits)
  from Cons.IH [OF cs'(2)] cs'(1,3) show ?case by (cases "rows = []") auto
qed simp

section \<open>Words\<close>

text \<open>The word \<open>w\<close> occurs in field \<open>i\<close> of the row after normalisation.\<close>

definition has_word :: "match_env \<Rightarrow> match_row \<Rightarrow> nat \<Rightarrow> runes \<Rightarrow> bool" where
  "has_word env row i w \<longleftrightarrow>
     i < length (mr_values row) \<and> w \<in> set (text_fields (canonicalize_name env (trim_runes (mr_values row ! i))))"

lemma canonicalize_blank: "canonicalize_name env [] = []"
  by (simp add: canonicalize_name_def name_tokens_def fold_diacritics_def strip_punctuation_def upper_runes_def
      text_fields_def)

lemma block_keys_words: "(i, w) \<in> set (block_keys env row idx) \<longleftrightarrow> i \<in> set idx \<and> 3 \<le> byte_length w \<and> has_word env row i w"
proof -
  have "text_fields (canonicalize_name env []) = []" by (simp add: canonicalize_blank text_fields_def)
  then show ?thesis by (auto simp: block_keys_iff has_word_def)
qed

text \<open>
  Claim C34: token blocking selects exactly the target rows that share a word of at least three bytes with
  the source row in one of the fields blocked on, after the normalisation of the names, each of them once.
\<close>

theorem blocking_finds_shared_words:
  "distinct (row_candidates env target idx row)
   \<and> set (row_candidates env target idx row) =
     {ti. ti < length target \<and> (\<exists>i w. i \<in> set idx \<and> 3 \<le> byte_length w \<and> has_word env row i w \<and> has_word env (target ! ti) i w)}"
proof -
  have "set (block_keys env row idx) \<inter> set (block_keys env t idx) \<noteq> {} \<longleftrightarrow>
    (\<exists>i w. i \<in> set idx \<and> 3 \<le> byte_length w \<and> has_word env row i w \<and> has_word env t i w)" for t
    by (auto simp: disjoint_iff block_keys_words)
  with row_candidates_exact [of env target idx row] show ?thesis by simp
qed

section \<open>The best candidates\<close>

text \<open>Descending scores as an ascending key.\<close>

fun desc_key :: "float_value \<Rightarrow> nat \<times> rat" where
  "desc_key Pos_Inf = (0, 0)"
| "desc_key (Finite a) = (1, - a)"
| "desc_key Neg_Inf = (2, 0)"
| "desc_key Not_A_Number = (3, 0)"

definition score_key :: "match_candidate \<Rightarrow> nat \<times> rat" where
  "score_key c = desc_key (mc_score c)"

lemma float_less_desc_key:
  "a \<noteq> Not_A_Number \<Longrightarrow> b \<noteq> Not_A_Number \<Longrightarrow> float_less b a \<longleftrightarrow> desc_key a < desc_key b"
  by (cases a; cases b) (auto simp: less_prod_def)

lemma insert_right_sorted:
  assumes "sorted (map score_key xs)" "mc_score c \<noteq> Not_A_Number" "\<forall>y\<in>set xs. mc_score y \<noteq> Not_A_Number"
  shows "insert_right c xs = takeWhile (\<lambda>y. score_key y \<le> score_key c) xs @ c # dropWhile (\<lambda>y. score_key y \<le> score_key c) xs"
  using assms
proof (induction xs)
  case (Cons x xs)
  have later: "list_all (\<lambda>y. float_less (mc_score y) (mc_score c)) (x # xs) \<longleftrightarrow> score_key c < score_key x"
    using Cons.prems by (fastforce simp: list_all_iff float_less_desc_key score_key_def)
  show ?case
  proof (cases "score_key c < score_key x")
    case True
    with later show ?thesis by (simp add: not_le [symmetric])
  next
    case False
    with later have "insert_right c (x # xs) = x # insert_right c xs" by (simp only: insert_right.simps if_False)
    with False Cons show ?thesis by (simp add: not_less)
  qed
qed simp

lemma insert_right_is_stable_sort:
  assumes "mc_score c \<noteq> Not_A_Number" "\<forall>y\<in>set xs. mc_score y \<noteq> Not_A_Number"
  shows "insert_right c (sort_key score_key xs) = sort_key score_key (xs @ [c])"
proof -
  let ?s = "sort_key score_key xs" and ?le = "\<lambda>y. score_key y \<le> score_key c"
  have split: "insert_right c ?s = takeWhile ?le ?s @ c # dropWhile ?le ?s"
    using assms by (intro insert_right_sorted) auto
  have sorted: "sorted (map score_key (takeWhile ?le ?s))" "sorted (map score_key (dropWhile ?le ?s))"
    using sorted_takeWhile [of "map score_key ?s" "\<lambda>k. k \<le> score_key c"]
      sorted_dropWhile [of "map score_key ?s" "\<lambda>k. k \<le> score_key c"]
    by (simp_all add: dropWhile_map takeWhile_map comp_def)
  have drop: "score_key c < score_key y" if "y \<in> set (dropWhile ?le ?s)" for y
  proof -
    from that obtain z zs where z: "dropWhile ?le ?s = z # zs" by (cases "dropWhile ?le ?s") simp_all
    then have "\<not> ?le z" using hd_dropWhile [of ?le ?s] by simp
    then show ?thesis using that sorted(2) unfolding z by auto
  qed
  show ?thesis unfolding split
  proof (rule properties_for_sort_key [symmetric])
    have "mset (takeWhile ?le ?s) + mset (dropWhile ?le ?s) = mset xs"
      by (simp flip: mset_append)
    then show "mset (takeWhile ?le ?s @ c # dropWhile ?le ?s) = mset (xs @ [c])" by simp
  next
    fix d
    have stable: "filter (\<lambda>y. score_key d = score_key y) ?s = filter (\<lambda>y. score_key d = score_key y) xs"
      by (simp add: eq_commute [of "score_key d"] sort_key_stable)
    have "filter (\<lambda>y. score_key d = score_key y) ?s
      = filter (\<lambda>y. score_key d = score_key y) (takeWhile ?le ?s) @ filter (\<lambda>y. score_key d = score_key y) (dropWhile ?le ?s)"
      by (simp flip: filter_append)
    moreover have "filter (\<lambda>y. score_key d = score_key y) (dropWhile ?le ?s) = []" if "score_key d = score_key c"
      using drop that by (fastforce simp: filter_empty_conv)
    ultimately show "filter (\<lambda>y. score_key d = score_key y) (takeWhile ?le ?s @ c # dropWhile ?le ?s)
      = filter (\<lambda>y. score_key d = score_key y) (xs @ [c])" using stable by auto
  next
    show "sorted (map score_key (takeWhile ?le ?s @ c # dropWhile ?le ?s))"
      using drop sorted by (fastforce simp: sorted_append dest: set_takeWhileD)
  qed
qed

lemma insert_right_take:
  assumes "sorted (map score_key xs)" "mc_score c \<noteq> Not_A_Number" "\<forall>y\<in>set xs. mc_score y \<noteq> Not_A_Number"
  shows "take k (insert_right c (take k xs)) = take k (insert_right c xs)"
  using assms
proof (induction xs arbitrary: k)
  case (Cons x xs)
  show ?case
  proof (cases k)
    case (Suc n)
    have later: "list_all (\<lambda>y. float_less (mc_score y) (mc_score c)) (x # ys) \<longleftrightarrow> score_key c < score_key x"
      if "set ys \<subseteq> set xs" for ys
      using Cons.prems that by (fastforce simp: list_all_iff float_less_desc_key score_key_def)
    with Suc Cons set_take_subset [of n xs] show ?thesis by (simp add: take_Cons' min_def)
  qed simp
qed simp

lemma insert_top_k_sorted:
  assumes "\<forall>c\<in>set cs. mc_score c \<noteq> Not_A_Number"
  shows "fold (\<lambda>c best. insert_top_k best c k) cs [] = take k (sort_key score_key cs)"
  using assms
proof (induction cs rule: rev_induct)
  case (snoc c cs)
  then show ?case
    using insert_right_take [of "sort_key score_key cs" c k] insert_right_is_stable_sort [of c cs]
    by (simp add: insert_top_k_def del: sort_key_simps)
qed simp

section \<open>The whole run\<close>

text \<open>
  What a run is meant to return: for every source row the rows worth scoring, of these the pairs at
  or above the review threshold, of these the best by a stable sort.
\<close>

definition plausible :: "match_env \<Rightarrow> match_row list \<Rightarrow> match_options \<Rightarrow> match_row \<Rightarrow> nat list" where
  "plausible env target opts row =
     (if mo_no_blocking opts \<or> blockable_fields (mo_fields opts) = [] then [0..<length target]
      else row_candidates env target (blockable_fields (mo_fields opts)) row)"

definition best_of_row :: "match_env \<Rightarrow> match_row list \<Rightarrow> match_options \<Rightarrow> nat \<Rightarrow> match_row \<Rightarrow> match_candidate list" where
  "best_of_row env target opts si row =
     take (if mo_max_candidates opts \<le> 0 then 3 else nat (mo_max_candidates opts))
       (sort_key score_key
         (List.map_filter
           (candidate_of env target (mo_fields opts)
             (if float_less (mo_auto opts) (mo_review opts) then mo_review opts else mo_auto opts) (mo_review opts) si row)
           (plausible env target opts row)))"

definition best_matches :: "match_env \<Rightarrow> match_row list \<Rightarrow> match_row list \<Rightarrow> match_options \<Rightarrow> match_candidate list list" where
  "best_matches env source target opts =
     map (\<lambda>(si, row). best_of_row env target opts si row) (enumerate 0 source)"

lemma fold_option:
  "fold (\<lambda>x acc. case f x of None \<Rightarrow> acc | Some y \<Rightarrow> g y acc) xs acc = fold g (List.map_filter f xs) acc"
  by (induction xs arbitrary: acc) (auto simp: map_filter_simps split: option.splits)

lemma candidate_of_score:
  "candidate_of env target rules auto review si row ti = Some c \<Longrightarrow>
   fst (score_pair env row (target ! ti) rules) = Some (mc_score c)"
  by (auto simp: candidate_of_def split: prod.splits option.splits if_splits)

lemma best_candidates_sorted:
  assumes "\<forall>ti\<in>set targets. fst (score_pair env row (target ! ti) rules) \<noteq> Some Not_A_Number"
  shows "best_candidates env target rules auto review k si row targets
    = take k (sort_key score_key (List.map_filter (candidate_of env target rules auto review si row) targets))"
proof -
  let ?cs = "List.map_filter (candidate_of env target rules auto review si row) targets"
  have "\<forall>c\<in>set ?cs. mc_score c \<noteq> Not_A_Number"
  proof
    fix c
    assume "c \<in> set ?cs"
    then obtain ti where ti: "ti \<in> set targets" "candidate_of env target rules auto review si row ti = Some c"
      by (auto simp: List.map_filter_def)
    with assms candidate_of_score [OF ti(2)] show "mc_score c \<noteq> Not_A_Number" by force
  qed
  from insert_top_k_sorted [OF this] show ?thesis
    unfolding best_candidates_def by (simp only: fold_option)
qed

lemma count_status_append: "count_status s (xs @ ys) = count_status s xs + count_status s ys"
  by (simp add: count_status_def)

lemma count_status_both: "count_status Status_Auto cs + count_status Status_Review cs = length cs"
proof (induction cs)
  case (Cons c cs)
  then show ?case by (cases "mc_status c") (simp_all add: count_status_def)
qed (simp add: count_status_def)

lemma match_rows_totals:
  "match_rows env target rules auto review k si rows st =
     (let bests = map (\<lambda>(i, row, ts). best_candidates env target rules auto review k i row ts) (enumerate si rows) in
      (concat bests,
       st\<lparr>ms_comparisons := ms_comparisons st + sum_list (map (length \<circ> snd) rows),
          ms_auto := ms_auto st + count_status Status_Auto (concat bests),
          ms_review := ms_review st + count_status Status_Review (concat bests),
          ms_unmatched := ms_unmatched st + length (filter (\<lambda>b. b = []) bests)\<rparr>))"
proof (induction rows arbitrary: si st)
  case Nil
  show ?case by (simp add: count_status_def)
next
  case (Cons r rows)
  obtain row ts where r: "r = (row, ts)" by (cases r)
  show ?case
  proof (cases "best_candidates env target rules auto review k si row ts = []")
    case True
    then show ?thesis by (simp only: r match_rows.simps Let_def Cons.IH) (simp add: Let_def)
  next
    case False
    then show ?thesis
      by (simp only: r match_rows.simps Let_def Cons.IH) (simp add: Let_def count_status_append)
  qed
qed

lemma blocked_candidates_total:
  "sofar \<le> limit \<Longrightarrow>
   blocked_candidates env target idx limit sofar rows =
     (if sofar + int (sum_list (map (length \<circ> row_candidates env target idx) rows)) > limit then None
      else Some (map (row_candidates env target idx) rows))"
proof (induction rows arbitrary: sofar)
  case (Cons row rows)
  then show ?case
    by (cases "sofar + int (length (row_candidates env target idx row)) > limit") (simp_all add: Let_def ac_simps)
qed simp

lemma candidate_sets_exact:
  assumes "0 \<le> limit"
  shows "build_candidate_index env source target opts limit =
    (let full = (mo_no_blocking opts \<or> blockable_fields (mo_fields opts) = []) in
     if int (sum_list (map (length \<circ> plausible env target opts) source)) > limit
     then Inl (if full then ''over the safety limit; enable blocking or reduce the table size''
       else ''blocking still produced too many candidate comparisons'')
     else Inr (map (plausible env target opts) source, \<not> full))"
proof (cases "mo_no_blocking opts \<or> blockable_fields (mo_fields opts) = []")
  case True
  then have "plausible env target opts = (\<lambda>_. [0..<length target])" by (simp add: plausible_def fun_eq_iff)
  with True show ?thesis
    by (simp add: build_candidate_index_def full_candidates_def Let_def comp_def sum_list_triv)
next
  case False
  then have "plausible env target opts = row_candidates env target (blockable_fields (mo_fields opts))"
    by (simp add: plausible_def fun_eq_iff)
  with False blocked_candidates_total [OF assms] show ?thesis
    by (simp add: build_candidate_index_def Let_def)
qed

lemma enumerate_zip:
  "map (\<lambda>(i, row, ts). g i row ts) (enumerate n (zip rows (map f rows))) = map (\<lambda>(i, row). g i row (f row)) (enumerate n rows)"
  by (induction rows arbitrary: n) auto

lemma enumerate_cong:
  "(\<And>i x. x \<in> set xs \<Longrightarrow> f i x = g i x) \<Longrightarrow> map (\<lambda>(i, x). f i x) (enumerate n xs) = map (\<lambda>(i, x). g i x) (enumerate n xs)"
  by (induction xs arbitrary: n) auto

lemma plausible_bound: "ti \<in> set (plausible env target opts row) \<Longrightarrow> ti < length target"
  using row_candidates_exact [of env target "blockable_fields (mo_fields opts)" row]
  by (auto simp: plausible_def split: if_splits)


text \<open>A small run: exact comparison of one column, full cross product.\<close>

definition sample_env :: match_env where
  "sample_env = \<lparr>me_letter = is_ascii_letter, me_digit = (\<lambda>r. 48 \<le> r \<and> r \<le> 57),
     me_upper = (\<lambda>r. if 97 \<le> r \<and> r \<le> 122 then r - 32 else r), me_fold = (\<lambda>r. r), me_round = Finite,
     me_parse = (\<lambda>_. None), me_group_order = (\<lambda>gs. gs)\<rparr>"

definition sample_rule :: field_rule where
  "sample_rule = \<lparr>fr_method = Method_Exact, fr_weight = Finite 1, fr_tolerance = Finite 0, fr_group = []\<rparr>"

definition sample_options :: match_options where
  "sample_options = \<lparr>mo_fields = [sample_rule],
     mo_auto = Finite 1, mo_review = Finite (1 / 2), mo_no_blocking = True, mo_max_candidates = 0, mo_max_comparisons = 0\<rparr>"

definition sample_row :: "nat \<Rightarrow> match_row" where
  "sample_row r = \<lparr>mr_key = [], mr_values = [[r]]\<rparr>"

lemma sample_field_score:
  "field_score sample_env (sample_row 65) (sample_row 66) 0 sample_rule = Some (Finite 0)"
  "field_score sample_env (sample_row 65) (sample_row 65) 0 sample_rule = Some (Finite 1)"
  by (simp_all add: field_score_def sample_row_def sample_rule_def compare_field_def trim_runes_def is_space_rune_def
      sample_env_def)

lemma sample_combined:
  "combine_scores sample_env [(sample_rule, Some (Finite v))] = Some (Finite v)"
  by (simp add: combine_scores_def add_score_def ordered_groups_def rule_weight_def sample_rule_def sample_env_def
      float_at_least_def float_eq_def)

lemma sample_score:
  "fst (score_pair sample_env (sample_row 65) (sample_row 66) [sample_rule]) = Some (Finite 0)"
  "fst (score_pair sample_env (sample_row 65) (sample_row 65) [sample_rule]) = Some (Finite 1)"
  by (simp_all add: score_pair_def pair_scores_def sample_field_score sample_combined)


end
