(* ===== verification/MatchRules.thy ===== *)
theory MatchRules
  imports MatchingCorrect
begin

text \<open>
  Properties of single rules of the matching engine: a composite key is vetoed by its weakest member, the
  check digit of product codes catches typing errors, and the normal forms of street names.
\<close>

section \<open>Composite keys\<close>

definition lowest :: "float_value list \<Rightarrow> float_value" where
  "lowest ss = fold (\<lambda>s m. if float_less s m then s else m) (tl ss) (hd ss)"

definition joined_weight :: "rounding \<Rightarrow> float_value list \<Rightarrow> float_value" where
  "joined_weight rnd ws = fold (\<lambda>w v. float_plus rnd v w) (tl ws) (hd ws)"

text \<open>The comparable members of group \<open>g\<close>.\<close>

definition members :: "runes \<Rightarrow> (field_rule \<times> float_value option) list \<Rightarrow> (field_rule \<times> float_value) list" where
  "members g fs = List.map_filter (\<lambda>(f, s). if fr_group f = g then map_option (Pair f) s else None) fs"

lemma members_snoc:
  "members g (fs @ [(f, s)]) =
   (case s of None \<Rightarrow> members g fs | Some v \<Rightarrow> if fr_group f = g then members g fs @ [(f, v)] else members g fs)"
  by (simp add: members_def List.map_filter_def split: option.splits)

lemma lowest_snoc: "ss \<noteq> [] \<Longrightarrow> lowest (ss @ [s]) = (if float_less s (lowest ss) then s else lowest ss)"
  by (simp add: lowest_def)

lemma joined_weight_snoc: "ws \<noteq> [] \<Longrightarrow> joined_weight rnd (ws @ [w]) = float_plus rnd (joined_weight rnd ws) w"
  by (simp add: joined_weight_def)

lemma join_group_lookup:
  "map_of (join_group rnd g score w groups) h =
   (if h \<noteq> g then map_of groups h
    else (case map_of groups g of None \<Rightarrow> Some (score, w)
      | Some (s, v) \<Rightarrow> Some (if float_less score s then score else s, float_plus rnd v w)))"
proof (cases "map_of groups g")
  case None
  then show ?thesis by (simp add: join_group_def map_add_def split: option.splits)
next
  case (Some sv)
  have "map_of (map (\<lambda>(h, s, v). if h = g then (h, if float_less score s then score else s, float_plus rnd v w) else (h, s, v)) groups) h
    = (if h \<noteq> g then map_of groups h
       else map_option (\<lambda>(s, v). (if float_less score s then score else s, float_plus rnd v w)) (map_of groups g))"
    by (induction groups) auto
  with Some show ?thesis by (simp add: join_group_def split: prod.splits)
qed

lemma join_group_keys:
  "map fst (join_group rnd g score w groups) = (if g \<in> fst ` set groups then map fst groups else map fst groups @ [g])"
proof -
  have "map fst (map (\<lambda>(h, s, v). if h = g then (h, if float_less score s then score else s, float_plus rnd v w) else (h, s, v)) groups)
    = map fst groups" by (induction groups) auto
  then show ?thesis
    using map_of_eq_None_iff [of groups g] by (cases "map_of groups g") (auto simp: join_group_def)
qed

lemma add_score_simps:
  "add_score env (f, None) ss = ss"
  "fr_group f \<noteq> [] \<Longrightarrow> add_score env (f, Some v) ss =
     ss\<lparr>ss_groups := join_group (me_round env) (fr_group f) v (rule_weight env f) (ss_groups ss)\<rparr>"
  "fr_group f = [] \<Longrightarrow> ss_groups (add_score env (f, s) ss) = ss_groups ss"
  by (simp_all add: add_score_def Let_def split: option.splits)

text \<open>A group is scored by its weakest comparable member and weighs as much as its members together.\<close>

lemma groups_keep_the_lowest:
  assumes "g \<noteq> []"
  shows "map_of (ss_groups (fold (add_score env) fs \<lparr>ss_sum = Finite 0, ss_total = Finite 0, ss_any = False, ss_groups = []\<rparr>)) g =
    (if members g fs = [] then None
     else Some (lowest (map snd (members g fs)), joined_weight (me_round env) (map (\<lambda>m. rule_weight env (fst m)) (members g fs))))"
proof (induction fs rule: rev_induct)
  case Nil
  show ?case by (simp add: members_def List.map_filter_def)
next
  case (snoc fs' fs)
  obtain f s where f: "fs' = (f, s)" by (cases fs')
  show ?case
  proof (cases s)
    case None
    with snoc f show ?thesis by (simp add: members_snoc add_score_simps)
  next
    case (Some v)
    with snoc f assms show ?thesis
      by (cases "fr_group f = []")
        (auto simp: members_snoc add_score_simps join_group_lookup lowest_snoc joined_weight_snoc
          lowest_def [of "[_]"] joined_weight_def [of _ "[_]"])
  qed
qed

lemma one_group_only:
  assumes "g \<noteq> []" "\<forall>fs'\<in>set fs. fr_group (fst fs') = g"
  shows "ss_sum (fold (add_score env) fs ss) = ss_sum ss \<and> ss_total (fold (add_score env) fs ss) = ss_total ss"
    and "set (map fst (ss_groups (fold (add_score env) fs ss))) \<subseteq> insert g (fst ` set (ss_groups ss))
      \<and> (distinct (map fst (ss_groups ss)) \<longrightarrow> distinct (map fst (ss_groups (fold (add_score env) fs ss))))"
  using assms
proof (induction fs rule: rev_induct)
  case (snoc a fs)
  obtain f s where a: "a = (f, s)" by (cases a)
  { case 1
    with snoc.IH(1) show ?case by (cases s) (simp_all add: a add_score_simps) }
  { case 2
    with snoc.IH(2) show ?case by (cases s) (auto simp: a add_score_simps join_group_keys) }
qed auto

lemma only_element: "x \<in> set xs \<Longrightarrow> set xs \<subseteq> {x} \<Longrightarrow> distinct xs \<Longrightarrow> xs = [x]"
proof (cases xs)
  case (Cons y ys)
  assume "x \<in> set xs" "set xs \<subseteq> {x}" "distinct xs"
  with Cons have "set ys \<subseteq> {x}" "x \<notin> set ys" "y = x" by auto
  then show ?thesis using Cons by (cases ys) auto
qed simp

lemma lowest_zero:
  assumes "Finite 0 \<in> set ss" "\<forall>s\<in>set ss. s = Finite 0 \<or> float_less (Finite 0) s"
  shows "lowest ss = Finite 0"
proof -
  have keep: "fold (\<lambda>s m. if float_less s m then s else m) xs (Finite 0) = Finite 0"
    if "\<forall>s\<in>set xs. s = Finite 0 \<or> float_less (Finite 0) s" for xs
    using that
  proof (induction xs)
    case (Cons x xs)
    have "\<not> float_less x (Finite 0)" using Cons.prems by (cases x) auto
    with Cons show ?case by simp
  qed simp
  have "fold (\<lambda>s m. if float_less s m then s else m) xs m = Finite 0"
    if "Finite 0 \<in> set (m # xs)" "\<forall>s\<in>set (m # xs). s = Finite 0 \<or> float_less (Finite 0) s" for xs m
    using that
  proof (induction xs arbitrary: m)
    case (Cons x xs)
    show ?case
    proof (cases "m = Finite 0 \<or> x = Finite 0")
      case True
      have "\<not> float_less x (Finite 0)" "m = Finite 0 \<or> float_less (Finite 0) m" using Cons.prems by (cases x; auto)+
      with True keep [of xs] Cons.prems show ?thesis by auto
    next
      case False
      with Cons.prems Cons.IH show ?thesis by auto
    qed
  qed simp
  then show ?thesis using assms by (cases ss) (auto simp: lowest_def)
qed

text \<open>
  Claim C35: one mismatch vetoes a composite key.  When the rules form one group, the comparable scores are
  not negative and one of them is zero, the pair scores zero (or is not comparable, when the weights
  add up to zero), whatever the other members score and in whatever order the groups are visited; the
  weights must not overflow.
\<close>

theorem composite_key_veto:
  assumes "g \<noteq> []" "\<forall>fs'\<in>set fs. fr_group (fst fs') = g" "\<forall>gs. mset (me_group_order env gs) = mset gs"
    and "\<forall>(f, s)\<in>set fs. s = None \<or> s = Some (Finite 0) \<or> (\<exists>v. s = Some v \<and> float_less (Finite 0) v)"
    and "(f, Some (Finite 0)) \<in> set fs"
    and "joined_weight (me_round env) (map (\<lambda>m. rule_weight env (fst m)) (members g fs)) = Finite w"
    and "me_round env 0 = Finite 0" "me_round env w = Finite w"
  shows "combine_scores env fs = (if w = 0 then None else Some (Finite 0))"
proof -
  let ?init = "\<lparr>ss_sum = Finite 0, ss_total = Finite 0, ss_any = False, ss_groups = []\<rparr>"
  let ?groups = "ss_groups (fold (add_score env) fs ?init)"
  have mem: "set (members g fs) = {(f, v). (f, Some v) \<in> set fs}"
    using assms(2) by (force simp: members_def List.map_filter_def)
  have "lowest (map snd (members g fs)) = Finite 0"
    using assms(4,5) by (intro lowest_zero) (force simp: mem)+
  moreover have "members g fs \<noteq> []" using assms(5) mem by auto
  ultimately have g: "map_of ?groups g = Some (Finite 0, Finite w)"
    using groups_keep_the_lowest [OF assms(1), of env fs] assms(6) by simp
  then have "g \<in> set (map fst ?groups)" by (force dest: map_of_SomeD)
  moreover have "set (map fst ?groups) \<subseteq> {g}" "distinct (map fst ?groups)"
    using one_group_only(2) [OF assms(1,2), of env ?init] by auto
  ultimately have "map fst ?groups = [g]" by (rule only_element)
  moreover from this have "me_group_order env (map fst ?groups) = [g]"
    using assms(3) [rule_format, of "[g]"] by simp
  ultimately have "ordered_groups env ?groups = [(g, Finite 0, Finite w)]" using g by (simp add: ordered_groups_def)
  then show ?thesis
    using one_group_only(1) [OF assms(1,2), of env ?init] assms(7,8)
    by (simp add: combine_scores_def Let_def weigh_group_def float_eq_def)
qed

lemma composite_key_veto_witness:
  "combine_scores sample_env
     [(\<lparr>fr_method = Method_Exact, fr_weight = Finite 3, fr_tolerance = Finite 0, fr_group = [97]\<rparr>, Some (Finite 1)),
      (\<lparr>fr_method = Method_Exact, fr_weight = Finite 0, fr_tolerance = Finite 0, fr_group = [97]\<rparr>, Some (Finite 0))]
   = Some (Finite 0)" (is "combine_scores _ ?fs = _")
proof -
  have weight: "joined_weight (me_round sample_env) (map (\<lambda>m. rule_weight sample_env (fst m)) (members [97] ?fs)) = Finite 4"
    by (simp add: joined_weight_def members_def List.map_filter_def rule_weight_def sample_env_def float_at_least_def float_eq_def)
  show ?thesis
    using composite_key_veto [OF _ _ _ _ _ weight] by (simp add: sample_env_def)
qed

section \<open>Check digits\<close>

lemma ean_sum_snoc: "ean_sum triple (ds @ [d]) = ean_sum triple ds + (if triple = even (length ds) then 3 * d else d)"
  by (induction triple ds rule: ean_sum.induct) auto

lemma ean_sum_update:
  "i < length ds \<Longrightarrow>
   int (ean_sum triple (ds[i := d])) = int (ean_sum triple ds) + (if triple = even i then 3 else 1) * (int d - int (ds ! i))"
proof (induction triple ds arbitrary: i rule: ean_sum.induct)
  case (2 triple x xs)
  show ?case
  proof (cases i)
    case (Suc j)
    with 2(1) [of j] 2(2) show ?thesis by (cases triple; cases "even j") (simp_all add: algebra_simps)
  qed (simp add: algebra_simps)
qed simp

definition ean_digits :: "runes \<Rightarrow> bool" where
  "ean_digits s \<longleftrightarrow> (length s = 8 \<or> length s = 13) \<and> list_all (\<lambda>r. 48 \<le> r \<and> r \<le> 57) s"

lemma trim_digits:
  assumes "ean_digits s"
  shows "trim_runes s = s"
proof -
  have no_space: "\<not> is_space_rune r" if "r \<in> set s" for r
    using assms that by (auto simp: ean_digits_def list_all_iff is_space_rune_def)
  have front: "dropWhile is_space_rune xs = xs" if "set xs \<subseteq> set s" for xs
    using that no_space by (cases xs) auto
  show ?thesis by (simp add: trim_runes_def front)
qed

lemma check_digit:
  assumes "y < 10"
  shows "(10 - x mod 10) mod 10 = y \<longleftrightarrow> (x + y) mod 10 = (0 :: nat)"
proof -
  have "(10 - r) mod 10 = y \<longleftrightarrow> (r + y) mod 10 = 0" if "r < 10" for r
  proof (cases "r = 0")
    case False
    with assms that show ?thesis by (auto simp: mod_if)
  qed (use assms in simp)
  from this [of "x mod 10"] show ?thesis by (simp add: mod_add_left_eq)
qed

lemma validate_ean_sum:
  assumes "ean_digits s"
  shows "validate_ean s \<longleftrightarrow> ean_sum (length s = 8) (map (\<lambda>r. r - 48) s) mod 10 = 0"
proof -
  have "s \<noteq> []" using assms by (auto simp: ean_digits_def)
  then obtain t c where s: "s = t @ [c]" by (cases s rule: rev_cases) simp
  then have c: "c - 48 < 10" using assms by (auto simp: ean_digits_def)
  have weight: "\<not> ((length s = 8) = even (length t))" using assms s by (auto simp: ean_digits_def)
  have "validate_ean s \<longleftrightarrow> (10 - ean_sum (length s = 8) (map (\<lambda>r. r - 48) t) mod 10) mod 10 = c - 48"
    using assms s unfolding validate_ean_def trim_digits [OF assms] Let_def by (simp add: ean_digits_def)
  then show ?thesis
    unfolding check_digit [OF c] using weight by (simp add: s ean_sum_snoc)
qed

lemma digit_gap:
  assumes "(- 9 :: int) \<le> x" "x \<le> 9"
  shows "x mod 10 = 0 \<longleftrightarrow> x = 0" "3 * x mod 10 = 0 \<longleftrightarrow> x = 0"
    and "2 * x mod 10 = 0 \<longleftrightarrow> x = 0 \<or> x = 5 \<or> x = - 5" "- 2 * x mod 10 = 0 \<longleftrightarrow> x = 0 \<or> x = 5 \<or> x = - 5"
  using assms by presburger+

lemma mod_10_shift: "(x :: int) mod 10 = 0 \<Longrightarrow> (x + y) mod 10 = 0 \<longleftrightarrow> y mod 10 = 0"
  by presburger

lemma valid_ean_int:
  "ean_digits s \<Longrightarrow> validate_ean s \<longleftrightarrow> int (ean_sum (length s = 8) (map (\<lambda>r. r - 48) s)) mod 10 = 0"
  unfolding validate_ean_sum by presburger

lemma ean_digits_nth: "ean_digits s \<Longrightarrow> i < length s \<Longrightarrow> 48 \<le> s ! i \<and> s ! i \<le> 57"
  by (simp add: ean_digits_def list_all_length)

lemma ean_digits_update: "ean_digits s \<Longrightarrow> 48 \<le> d \<Longrightarrow> d \<le> 57 \<Longrightarrow> ean_digits (s[i := d])"
  unfolding ean_digits_def list_all_iff using set_update_subset_insert [of s i d] by auto

text \<open>
  Claim C36: the check digit does its work.  From a valid code of eight or thirteen digits, every change of
  one digit gives a code that is refused, and exchanging two neighbouring digits gives a valid code
  exactly when they are equal or differ by five.
\<close>

theorem ean_catches_typing_errors:
  assumes s: "ean_digits s" "validate_ean s"
  shows "(\<forall>i d. i < length s \<and> 48 \<le> d \<and> d \<le> 57 \<and> d \<noteq> s ! i \<longrightarrow> \<not> validate_ean (s[i := d]))
    \<and> (\<forall>i. Suc i < length s \<longrightarrow>
         validate_ean (s[i := s ! Suc i, Suc i := s ! i]) =
           (s ! i = s ! Suc i \<or> s ! i = s ! Suc i + 5 \<or> s ! Suc i = s ! i + 5))"
proof (intro conjI allI impI)
  let ?v = "map (\<lambda>r. r - 48) s"
  have valid: "int (ean_sum (length s = 8) ?v) mod 10 = 0" using s valid_ean_int by blast
  { fix i d :: nat assume d: "i < length s \<and> 48 \<le> d \<and> d \<le> 57 \<and> d \<noteq> s ! i"
    note a = ean_digits_nth [OF s(1), of i]
    have "int (ean_sum (length s = 8) (?v[i := d - 48])) =
        int (ean_sum (length s = 8) ?v) + (if (length s = 8) = even i then 3 else 1) * (int d - int (s ! i))"
      using ean_sum_update [of i ?v "length s = 8" "d - 48"] d a by simp
    then have "int (ean_sum (length s = 8) (?v[i := d - 48])) mod 10 \<noteq> 0"
      using mod_10_shift [OF valid] digit_gap [of "int d - int (s ! i)"] d a by simp
    with valid_ean_int [OF ean_digits_update [OF s(1)], of d i] d show "\<not> validate_ean (s[i := d])"
      by (simp add: map_update) }
  { fix i :: nat assume i: "Suc i < length s"
    let ?w = "s[i := s ! Suc i, Suc i := s ! i]"
    note a = ean_digits_nth [OF s(1), of i] ean_digits_nth [OF s(1), of "Suc i"]
    have "int (ean_sum (length s = 8) (?v[i := s ! Suc i - 48, Suc i := s ! i - 48])) =
        int (ean_sum (length s = 8) ?v) + (if (length s = 8) = even i then 2 else - 2) * (int (s ! Suc i) - int (s ! i))"
      using ean_sum_update [of i ?v "length s = 8" "s ! Suc i - 48"]
        ean_sum_update [of "Suc i" "?v[i := s ! Suc i - 48]" "length s = 8" "s ! i - 48"] i a
      by (cases "(length s = 8) = even i") (simp_all add: algebra_simps)
    then have "int (ean_sum (length s = 8) (?v[i := s ! Suc i - 48, Suc i := s ! i - 48])) mod 10 = 0 \<longleftrightarrow>
        int (s ! Suc i) - int (s ! i) \<in> {0, 5, - 5}"
      using mod_10_shift [OF valid] digit_gap [of "int (s ! Suc i) - int (s ! i)"] a i by simp
    also have "\<dots> \<longleftrightarrow> s ! i = s ! Suc i \<or> s ! i = s ! Suc i + 5 \<or> s ! Suc i = s ! i + 5" by auto
    finally show "validate_ean ?w = (s ! i = s ! Suc i \<or> s ! i = s ! Suc i + 5 \<or> s ! Suc i = s ! i + 5)"
      using a i s(1) valid_ean_int [of ?w] by (simp add: map_update ean_digits_update) }
qed

lemma ean_catches_typing_errors_witness:
  "\<not> validate_ean ((map ((+) 48) [9, 6, 3, 8, 5, 0, 7, 4])[2 := 54])"
proof -
  have digits: "ean_digits (map ((+) 48) [9, 6, 3, 8, 5, 0, 7, 4])" by (simp add: ean_digits_def)
  then have "validate_ean (map ((+) 48) [9, 6, 3, 8, 5, 0, 7, 4])" by (simp add: validate_ean_sum)
  from ean_catches_typing_errors [OF digits this, THEN conjunct1, rule_format, of 2 54] show ?thesis by simp
qed

section \<open>Street names\<close>

text \<open>
  The abbreviation of \<^verbatim>\<open>Strasse\<close> is expanded to two letters s, but the sharp s is folded to a
  single one, so the two documented spellings of a street name never get the same normal form.
\<close>

theorem street_abbreviation_disagrees:
  assumes "\<forall>r. is_ascii_letter r \<longrightarrow> me_letter env r"
    and "\<forall>r. 97 \<le> r \<and> r \<le> 122 \<longrightarrow> me_upper env r = r - 32" "\<forall>r. r < 97 \<longrightarrow> me_upper env r = r"
  shows "normalize_street env (ascii ''Str.'') = ascii ''STRASSE''
    \<and> normalize_street env (ascii ''Stra'' @ [223] @ ascii ''e'') = ascii ''STRASE''"
  using assms
  by (simp add: normalize_street_def ascii_def fold_diacritics_def fold_rune_def diacritic_fold_def upper_runes_def
     text_fields_def is_space_rune_def expand_street_def canonicalize_name_def name_tokens_def strip_punctuation_def
     suffix_to_prefix is_ascii_letter_def legal_forms_def Let_def)

lemma street_abbreviation_disagrees_witness:
  "normalize_street sample_env (ascii ''Str.'') \<noteq> normalize_street sample_env (ascii ''Stra'' @ [223] @ ascii ''e'')"
proof -
  have "normalize_street sample_env (ascii ''Str.'') = ascii ''STRASSE''
      \<and> normalize_street sample_env (ascii ''Stra'' @ [223] @ ascii ''e'') = ascii ''STRASE''"
    by (rule street_abbreviation_disagrees) (simp_all add: sample_env_def)
  then show ?thesis by (simp add: ascii_def)
qed

end
