(* ===== verification/RowPolicies.thy ===== *)
theory RowPolicies
  imports Auth DbNames
begin

text \<open>
  Row policies (\<^verbatim>\<open>row_policy.go\<close>) and the record operations they protect: reading, creating, changing and
  deleting single records (\<^verbatim>\<open>db.go\<close>), the statements these build (\<^verbatim>\<open>queries.go\<close>) and the handlers that resolve the
  table of a request (\<^verbatim>\<open>handlers.go\<close>).

  The database engine is a parameter: which table a name denotes, its columns, how it compares two column
  names and two values.  A statement is kept as its text with its arguments, and as the operation on the rows it
  denotes: the conditions are joined by \<^verbatim>\<open>AND\<close>, each compares a column with a bound value.
\<close>

section \<open>The policies\<close>

record row_policy =
  rp_table :: string
  rp_column :: string

definition ensure_row_policies_table :: "exec_env \<Rightarrow> app_error option" where
  "ensure_row_policies_table fails =
     (if fails ''row_policy.ensure_table'' [] then Some (Exec_Failed ''row_policy.ensure_table'') else None)"

definition save_row_policy :: "exec_env \<Rightarrow> row_policy \<Rightarrow> row_policy list \<Rightarrow> app_error option \<times> row_policy list" where
  "save_row_policy fails p t =
     (let table = trim_space (rp_table p); column = trim_space (rp_column p) in
      if table = [] then (Some (Message ''table name is required''), t)
      else if column = [] then (Some (Message ''owner column is required''), t)
      else (case ensure_row_policies_table fails of
          Some e \<Rightarrow> (Some e, t)
        | None \<Rightarrow>
            if fails ''row_policy.delete'' table then (Some (Exec_Failed ''row_policy.delete''), t)
            else (let t' = delete_rows rp_table table t in
              if fails ''row_policy.insert'' table then (Some (Exec_Failed ''row_policy.insert''), t')
              else (None, t' @ [\<lparr>rp_table = table, rp_column = column\<rparr>]))))"

definition load_row_policy :: "exec_env \<Rightarrow> string \<Rightarrow> row_policy list \<Rightarrow> app_error + row_policy option" where
  "load_row_policy fails table t =
     (let table = trim_space table in
      if table = [] then Inr None
      else (case ensure_row_policies_table fails of
          Some e \<Rightarrow> Inl e
        | None \<Rightarrow>
            if fails ''row_policy.load'' table then Inl (Exec_Failed ''row_policy.load'')
            else Inr (find (\<lambda>p. rp_table p = table) t)))"

definition list_row_policies :: "exec_env \<Rightarrow> row_policy list \<Rightarrow> app_error + row_policy list" where
  "list_row_policies fails t =
     (case ensure_row_policies_table fails of
        Some e \<Rightarrow> Inl e
      | None \<Rightarrow>
          if fails ''row_policy.list'' [] then Inl (Exec_Failed ''row_policy.list'')
          else Inr (sort_key (\<lambda>p. to_lower (rp_table p)) t))"

definition delete_row_policy :: "exec_env \<Rightarrow> string \<Rightarrow> row_policy list \<Rightarrow> app_error option \<times> row_policy list" where
  "delete_row_policy fails table t =
     (let table = trim_space table in
      if table = [] then (Some (Message ''table name is required''), t)
      else (case ensure_row_policies_table fails of
          Some e \<Rightarrow> (Some e, t)
        | None \<Rightarrow>
            if fails ''row_policy.delete'' table then (Some (Exec_Failed ''row_policy.delete''), t)
            else (None, delete_rows rp_table table t)))"

text \<open>The acting user name, empty for a session without a login.\<close>

definition row_policy_owner_for_session :: "nat \<Rightarrow> string \<Rightarrow> 'c server \<Rightarrow> string \<times> 'c server" where
  "row_policy_owner_for_session now sid sv =
     (case current_session_user now sid sv of (None, sv') \<Rightarrow> ([], sv') | (Some (u, _), sv') \<Rightarrow> (u, sv'))"

definition row_policy_applies_to_session ::
    "exec_env \<Rightarrow> nat \<Rightarrow> string \<Rightarrow> row_policy list \<Rightarrow> string \<Rightarrow> 'c server \<Rightarrow> (app_error + row_policy option) \<times> 'c server" where
  "row_policy_applies_to_session fails now sid policies table sv =
     (case load_row_policy fails table policies of
        Inl e \<Rightarrow> (Inl e, sv)
      | Inr None \<Rightarrow> (Inr None, sv)
      | Inr (Some p) \<Rightarrow>
          (case is_admin_authenticated now sid sv of
            (True, sv') \<Rightarrow> (Inr None, sv')
          | (False, sv') \<Rightarrow> (Inr (Some p), sv')))"

text \<open>The column and the value to restrict a query by; the empty column for no restriction.\<close>

definition row_policy_owner_column_and_arg ::
    "exec_env \<Rightarrow> nat \<Rightarrow> string \<Rightarrow> row_policy list \<Rightarrow> string \<Rightarrow> 'c server \<Rightarrow> (app_error + string \<times> string) \<times> 'c server" where
  "row_policy_owner_column_and_arg fails now sid policies table sv =
     (case row_policy_applies_to_session fails now sid policies table sv of
        (Inl e, sv') \<Rightarrow> (Inl e, sv')
      | (Inr None, sv') \<Rightarrow> (Inr ([], []), sv')
      | (Inr (Some p), sv') \<Rightarrow>
          (case row_policy_owner_for_session now sid sv' of (u, sv'') \<Rightarrow> (Inr (rp_column p, u), sv'')))"

section \<open>Statements\<close>

definition record_get_query :: "string \<Rightarrow> string \<Rightarrow> string \<Rightarrow> string" where
  "record_get_query d table owner =
     ''SELECT * FROM '' @ quote_ident d table @ '' WHERE '' @ quote_ident d ''id'' @ '' = '' @ placeholder d 1
     @ (if owner \<noteq> [] then '' AND '' @ quote_ident d owner @ '' = '' @ placeholder d 2 else [])"

definition record_max_id_query :: "string \<Rightarrow> string \<Rightarrow> string" where
  "record_max_id_query d table = ''SELECT MAX('' @ quote_ident d ''id'' @ '') FROM '' @ quote_ident d table"

definition record_insert_query :: "string \<Rightarrow> string \<Rightarrow> string list \<Rightarrow> string list \<Rightarrow> string" where
  "record_insert_query d table names holes =
     ''INSERT INTO '' @ quote_ident d table @ '' ('' @ join_with '', '' names @ '') VALUES ('' @ join_with '', '' holes @ '')''"

definition record_update_query :: "string \<Rightarrow> string \<Rightarrow> string list \<Rightarrow> string \<Rightarrow> string \<Rightarrow> string \<Rightarrow> string" where
  "record_update_query d table sets id_hole owner owner_hole =
     ''UPDATE '' @ quote_ident d table @ '' SET '' @ join_with '', '' sets @ '' WHERE '' @ quote_ident d ''id'' @ '' = '' @ id_hole
     @ (if owner \<noteq> [] then '' AND '' @ quote_ident d owner @ '' = '' @ owner_hole else [])"

definition record_delete_query :: "string \<Rightarrow> string \<Rightarrow> string \<Rightarrow> string" where
  "record_delete_query d table owner =
     ''DELETE FROM '' @ quote_ident d table @ '' WHERE '' @ quote_ident d ''id'' @ '' = '' @ placeholder d 1
     @ (if owner \<noteq> [] then '' AND '' @ quote_ident d owner @ '' = '' @ placeholder d 2 else [])"

text \<open>The export has no bound arguments: the owner becomes a literal of the text.\<close>

definition demo_sql_string :: "string \<Rightarrow> string" where
  "demo_sql_string s = [CHR 0x27] @ replace_byte (CHR 0x27) [CHR 0x27, CHR 0x27] s @ [CHR 0x27]"

definition select_all_query :: "string \<Rightarrow> string \<Rightarrow> string \<Rightarrow> string \<Rightarrow> string" where
  "select_all_query d table owner value =
     ''SELECT * FROM '' @ quote_ident d table
     @ (if owner \<noteq> [] then '' WHERE '' @ quote_ident d owner @ '' = '' @ demo_sql_string value else [])"

definition select_page_sql :: "string \<Rightarrow> string \<Rightarrow> string \<Rightarrow> string \<Rightarrow> int \<Rightarrow> int \<Rightarrow> string \<Rightarrow> string" where
  "select_page_sql d table sort_col dir limit offset owner =
     (let quoted = quote_ident d table;
          where_clause = (if owner \<noteq> [] then '' WHERE '' @ quote_ident d owner @ '' = '' @ placeholder d 1 else []);
          order = (if sort_col \<noteq> [] then '' ORDER BY '' @ quote_ident d sort_col @ (if dir = ''desc'' then '' DESC'' else '' ASC'') else []) in
      if d = ''Microsoft SQL Server'' then
        (if limit \<le> 0 then ''SELECT TOP 0 * FROM '' @ quoted @ where_clause
         else ''SELECT * FROM '' @ quoted @ where_clause @ (if order = [] then '' ORDER BY (SELECT NULL)'' else order)
           @ '' OFFSET '' @ format_int offset @ '' ROWS FETCH NEXT '' @ format_int limit @ '' ROWS ONLY'')
      else
        (if limit \<le> 0 then ''SELECT * FROM '' @ quoted @ where_clause @ '' LIMIT 0''
         else ''SELECT * FROM '' @ quoted @ where_clause @ order @ '' LIMIT '' @ format_int limit @ '' OFFSET '' @ format_int offset))"

section \<open>The engine\<close>

datatype sql_value = Null_Value | Int_Value int | Text_Value string

type_synonym sql_row = "(string \<times> sql_value) list"

record engine =
  en_dialect :: string
  en_objects :: "string list"
  en_table :: "string \<Rightarrow> nat option"
  en_columns :: "nat \<Rightarrow> string list"
  en_same :: "string \<Rightarrow> string \<Rightarrow> bool"
  en_equal :: "sql_value \<Rightarrow> sql_value \<Rightarrow> bool"
  en_order :: "string \<Rightarrow> string \<Rightarrow> sql_row list \<Rightarrow> sql_row list"
  en_fails :: exec_env

type_synonym database = "nat \<Rightarrow> sql_row list"

definition column_value :: "engine \<Rightarrow> sql_row \<Rightarrow> string \<Rightarrow> sql_value" where
  "column_value en r c = (case find (\<lambda>(n, _). en_same en n c) r of Some (_, v) \<Rightarrow> v | None \<Rightarrow> Null_Value)"

text \<open>Every condition must hold; comparing with NULL never does.\<close>

definition row_matches :: "engine \<Rightarrow> (string \<times> sql_value) list \<Rightarrow> sql_row \<Rightarrow> bool" where
  "row_matches en conds r \<longleftrightarrow> list_all (\<lambda>(c, v). column_value en r c \<noteq> Null_Value \<and> en_equal en (column_value en r c) v) conds"

definition run_select :: "engine \<Rightarrow> nat \<Rightarrow> (string \<times> sql_value) list \<Rightarrow> database \<Rightarrow> sql_row list" where
  "run_select en t conds db = filter (row_matches en conds) (db t)"

definition run_delete :: "engine \<Rightarrow> nat \<Rightarrow> (string \<times> sql_value) list \<Rightarrow> database \<Rightarrow> database" where
  "run_delete en t conds db = db(t := filter (\<lambda>r. \<not> row_matches en conds r) (db t))"

definition assign_row :: "engine \<Rightarrow> (string \<times> sql_value) list \<Rightarrow> sql_row \<Rightarrow> sql_row" where
  "assign_row en sets r = map (\<lambda>(n, v). (n, case find (\<lambda>(c, _). en_same en n c) sets of Some (_, w) \<Rightarrow> w | None \<Rightarrow> v)) r"

definition run_update ::
    "engine \<Rightarrow> nat \<Rightarrow> (string \<times> sql_value) list \<Rightarrow> (string \<times> sql_value) list \<Rightarrow> database \<Rightarrow> database" where
  "run_update en t sets conds db = db(t := map (\<lambda>r. if row_matches en conds r then assign_row en sets r else r) (db t))"

definition run_insert :: "engine \<Rightarrow> nat \<Rightarrow> (string \<times> sql_value) list \<Rightarrow> database \<Rightarrow> database" where
  "run_insert en t given db = db(t := db t @ [assign_row en given (map (\<lambda>n. (n, Null_Value)) (en_columns en t))])"

text \<open>\<^verbatim>\<open>SELECT MAX("id")\<close> scanned into a 64-bit integer; a failing scan leaves zero.\<close>

definition max_id :: "engine \<Rightarrow> nat \<Rightarrow> database \<Rightarrow> int" where
  "max_id en t db =
     (case fold (\<lambda>v m. case v of Int_Value i \<Rightarrow> (case m of None \<Rightarrow> Some i | Some j \<Rightarrow> Some (max i j)) | _ \<Rightarrow> m)
       (map (\<lambda>r. column_value en r ''id'') (db t)) None
      of None \<Rightarrow> 0 | Some i \<Rightarrow> i)"


section \<open>Operations on single records\<close>

text \<open>\<^verbatim>\<open>strconv.ParseInt\<close> of a record id, or the text itself.\<close>

definition parse_id :: "string \<Rightarrow> sql_value" where
  "parse_id s = (case atoi s of Some i \<Rightarrow> Int_Value i | None \<Rightarrow> Text_Value s)"

definition clone_with_override :: "(string \<rightharpoonup> string) \<Rightarrow> string \<Rightarrow> string \<Rightarrow> (string \<rightharpoonup> string)" where
  "clone_with_override m k v = m(k \<mapsto> v)"

definition wrap_int64 :: "int \<Rightarrow> int" where
  "wrap_int64 i = (i + 2 ^ 63) mod 2 ^ 64 - 2 ^ 63"

definition form_value :: "(string \<rightharpoonup> string) \<Rightarrow> string \<Rightarrow> string" where
  "form_value m k = (case m k of None \<Rightarrow> [] | Some v \<Rightarrow> v)"

text \<open>The columns that are written: all but the id.\<close>

definition data_columns :: "string list \<Rightarrow> string list" where
  "data_columns cols = filter (\<lambda>c. \<not> equal_fold c ''id'') cols"

definition owner_condition :: "string \<Rightarrow> string \<Rightarrow> (string \<times> sql_value) list" where
  "owner_condition oc ov = (if oc \<noteq> [] then [(oc, Text_Value ov)] else [])"

text \<open>Running a statement on the table a name denotes; the engine may refuse it.\<close>

definition on_table :: "engine \<Rightarrow> string \<Rightarrow> string \<Rightarrow> (nat \<Rightarrow> 'a) \<Rightarrow> app_error + 'a" where
  "on_table en label table f =
     (case en_table en table of
        None \<Rightarrow> Inl (Exec_Failed label)
      | Some t \<Rightarrow> if en_fails en label table then Inl (Exec_Failed label) else Inr (f t))"

definition get_record :: "engine \<Rightarrow> string \<Rightarrow> string \<Rightarrow> string \<times> string \<Rightarrow> database \<Rightarrow> app_error + sql_row option" where
  "get_record en table i owner db =
     map_sum (\<lambda>e. e) (\<lambda>rows. if rows = [] then None else Some (hd rows))
       (on_table en ''record.get'' table
         (\<lambda>t. run_select en t ((''id'', parse_id i) # owner_condition (fst owner) (snd owner)) db))"

definition stamped_values :: "string \<times> string \<Rightarrow> (string \<rightharpoonup> string) \<Rightarrow> (string \<rightharpoonup> string)" where
  "stamped_values owner values =
     (if fst owner \<noteq> [] then clone_with_override values (fst owner) (snd owner) else values)"

definition written_columns :: "string list \<Rightarrow> (string \<rightharpoonup> string) \<Rightarrow> (string \<times> sql_value) list" where
  "written_columns cols values = map (\<lambda>c. (c, Text_Value (form_value values c))) (data_columns cols)"

definition insert_record ::
    "engine \<Rightarrow> string \<Rightarrow> (string \<rightharpoonup> string) \<Rightarrow> string list \<Rightarrow> string \<times> string \<Rightarrow> database \<Rightarrow> app_error option \<times> database" where
  "insert_record en table values cols owner db =
     (let values = stamped_values owner values;
          next_id = wrap_int64 ((case on_table en ''record.next_id'' table (\<lambda>t. max_id en t db) of Inl _ \<Rightarrow> 0 | Inr m \<Rightarrow> m) + 1) in
      case on_table en ''record.insert'' table (\<lambda>t. run_insert en t ((''id'', Int_Value next_id) # written_columns cols values) db) of
        Inl e \<Rightarrow> (Some e, db)
      | Inr db' \<Rightarrow> (None, db'))"

definition update_record ::
    "engine \<Rightarrow> string \<Rightarrow> string \<Rightarrow> (string \<rightharpoonup> string) \<Rightarrow> string list \<Rightarrow> string \<times> string \<Rightarrow> database \<Rightarrow> app_error option \<times> database" where
  "update_record en table i values cols owner db =
     (let values = stamped_values owner values in
      if data_columns cols = [] then (None, db)
      else (case on_table en ''record.update'' table
            (\<lambda>t. run_update en t (written_columns cols values)
              ((''id'', parse_id i) # owner_condition (fst owner) (snd owner)) db) of
          Inl e \<Rightarrow> (Some e, db)
        | Inr db' \<Rightarrow> (None, db')))"

definition delete_record :: "engine \<Rightarrow> string \<Rightarrow> string \<Rightarrow> string \<times> string \<Rightarrow> database \<Rightarrow> app_error option \<times> database" where
  "delete_record en table i owner db =
     (case on_table en ''record.delete'' table
        (\<lambda>t. run_delete en t ((''id'', parse_id i) # owner_condition (fst owner) (snd owner)) db) of
        Inl e \<Rightarrow> (Some e, db)
      | Inr db' \<Rightarrow> (None, db'))"

text \<open>The texts of the statements with their arguments, as they are handed to the driver.\<close>

definition owner_argument :: "string \<times> string \<Rightarrow> sql_value list" where
  "owner_argument owner = (if fst owner \<noteq> [] then [Text_Value (snd owner)] else [])"

definition get_statement :: "string \<Rightarrow> string \<Rightarrow> string \<Rightarrow> string \<times> string \<Rightarrow> string \<times> sql_value list" where
  "get_statement d table i owner = (record_get_query d table (fst owner), parse_id i # owner_argument owner)"

definition delete_statement :: "string \<Rightarrow> string \<Rightarrow> string \<Rightarrow> string \<times> string \<Rightarrow> string \<times> sql_value list" where
  "delete_statement d table i owner = (record_delete_query d table (fst owner), parse_id i # owner_argument owner)"

definition insert_statement :: "string \<Rightarrow> string \<Rightarrow> int \<Rightarrow> (string \<times> sql_value) list \<Rightarrow> string \<times> sql_value list" where
  "insert_statement d table next written =
     (record_insert_query d table (map (quote_ident d) (''id'' # map fst written)) (map (placeholder d) [1..<length written + 2]),
      Int_Value next # map snd written)"

definition update_statement ::
    "string \<Rightarrow> string \<Rightarrow> string \<Rightarrow> (string \<times> sql_value) list \<Rightarrow> string \<times> string \<Rightarrow> string \<times> sql_value list" where
  "update_statement d table i written owner =
     (let n = length written;
          sets = map (\<lambda>k. quote_ident d (fst (written ! k)) @ '' = '' @ placeholder d (k + 1)) [0..<n] in
      (record_update_query d table sets (placeholder d (n + 1)) (fst owner)
         (if fst owner \<noteq> [] then placeholder d (n + 2) else []),
       map snd written @ parse_id i # owner_argument owner))"

text \<open>One page of a table; an unknown sort column is ignored.\<close>

definition table_rows_sorted ::
    "engine \<Rightarrow> int \<Rightarrow> int \<Rightarrow> string \<Rightarrow> string \<Rightarrow> int \<Rightarrow> string \<times> string list \<Rightarrow> string \<times> string \<Rightarrow> database \<Rightarrow> app_error + sql_row list" where
  "table_rows_sorted en default_size page sort_col dir per_page meta owner db =
     (let page = (if page < 1 then 1 else page); per_page = (if per_page \<le> 0 then default_size else per_page);
          order = (if sort_col \<in> set (snd meta) then sort_col else []) in
      on_table en ''table.sorted_rows'' (fst meta)
        (\<lambda>t. let rows = run_select en t (owner_condition (fst owner) (snd owner)) db;
                 sorted = (if order \<noteq> [] then en_order en order dir rows else rows) in
           take (nat per_page) (drop (nat ((page - 1) * per_page)) sorted)))"

definition export_rows :: "engine \<Rightarrow> string \<Rightarrow> string \<times> string \<Rightarrow> database \<Rightarrow> app_error + sql_row list" where
  "export_rows en table owner db =
     on_table en ''query'' table (\<lambda>t. run_select en t (owner_condition (fst owner) (snd owner)) db)"

section \<open>The handlers\<close>

text \<open>The table a request names: its canonical name, or a qualified name taken as it is.\<close>

definition table_meta :: "engine \<Rightarrow> string \<Rightarrow> (string \<times> string list) option" where
  "table_meta en name =
     (let canonical = (case find (\<lambda>obj. equal_fold obj name) (en_objects en) of
          Some obj \<Rightarrow> Some obj
        | None \<Rightarrow> if en_dialect en \<noteq> ''tinySQL'' \<and> CHR ''.'' \<in> set name then Some name else None) in
      case canonical of
        None \<Rightarrow> None
      | Some c \<Rightarrow>
          (case on_table en ''metadata.table_meta'' c (\<lambda>t. (c, en_columns en t)) of Inl _ \<Rightarrow> None | Inr m \<Rightarrow> Some m))"

definition can_browse_table_name :: "nat \<Rightarrow> string \<Rightarrow> string \<Rightarrow> 'c server \<Rightarrow> bool \<times> 'c server" where
  "can_browse_table_name now sid name sv =
     (if \<not> is_data_dock_system_object name then (True, sv) else is_admin_authenticated now sid sv)"

datatype record_request =
  is_Edit_Form: Edit_Form string
| Create_Record "string \<rightharpoonup> string"
| Update_Record string "string \<rightharpoonup> string"
| Delete_Record string
| Table_Page int string string int
| Export_Table

datatype record_reply =
  Object_Missing | No_Id_Column | No_Row | Failed_Request app_error | Rows_Shown "sql_row list" | Request_Done

definition form_values :: "string list \<Rightarrow> (string \<rightharpoonup> string) \<Rightarrow> (string \<rightharpoonup> string)" where
  "form_values cols form = (\<lambda>c. if c \<in> set (data_columns cols) then Some (form_value form c) else None)"

definition written_reply :: "app_error option \<times> database \<Rightarrow> record_reply \<times> database" where
  "written_reply r = ((case fst r of None \<Rightarrow> Request_Done | Some e \<Rightarrow> Failed_Request e), snd r)"

definition shown_reply :: "app_error + sql_row list \<Rightarrow> database \<Rightarrow> record_reply \<times> database" where
  "shown_reply r db = ((case r of Inl e \<Rightarrow> Failed_Request e | Inr rows \<Rightarrow> Rows_Shown rows), db)"

definition record_action ::
    "engine \<Rightarrow> int \<Rightarrow> record_request \<Rightarrow> string \<times> string list \<Rightarrow> string \<times> string \<Rightarrow> database \<Rightarrow> record_reply \<times> database" where
  "record_action en page_size rq meta owner db =
     (case rq of
        Edit_Form i \<Rightarrow>
          ((case get_record en (fst meta) i owner db of
              Inl e \<Rightarrow> Failed_Request e | Inr None \<Rightarrow> No_Row | Inr (Some r) \<Rightarrow> Rows_Shown [r]), db)
      | Create_Record form \<Rightarrow> written_reply (insert_record en (fst meta) (form_values (snd meta) form) (snd meta) owner db)
      | Update_Record i form \<Rightarrow> written_reply (update_record en (fst meta) i (form_values (snd meta) form) (snd meta) owner db)
      | Delete_Record i \<Rightarrow> written_reply (delete_record en (fst meta) i owner db)
      | Table_Page page sort_col dir per_page \<Rightarrow> shown_reply (table_rows_sorted en page_size page sort_col dir per_page meta owner db) db
      | Export_Table \<Rightarrow> shown_reply (export_rows en (fst meta) owner db) db)"

definition handle_record ::
    "engine \<Rightarrow> exec_env \<Rightarrow> nat \<Rightarrow> string \<Rightarrow> row_policy list \<Rightarrow> string \<Rightarrow> record_request \<Rightarrow> 'c server \<times> database \<Rightarrow>
     record_reply \<times> 'c server \<times> database" where
  "handle_record en fails now sid policies name rq st =
     (case can_browse_table_name now sid name (fst st) of
        (False, sv) \<Rightarrow> (Object_Missing, sv, snd st)
      | (True, sv) \<Rightarrow>
          (case table_meta en name of
             None \<Rightarrow> (Object_Missing, sv, snd st)
           | Some meta \<Rightarrow>
               if is_Edit_Form rq \<and> \<not> list_ex (\<lambda>c. equal_fold c ''id'') (snd meta) then (No_Id_Column, sv, snd st)
               else (case row_policy_owner_column_and_arg fails now sid policies (fst meta) sv of
                   (Inl e, sv') \<Rightarrow> (Failed_Request e, sv', snd st)
                 | (Inr owner, sv') \<Rightarrow>
                     (case record_action en (current_page_size (sv_settings sv')) rq meta owner (snd st) of
                        (reply, db') \<Rightarrow> (reply, sv', db')))))"

text \<open>An administrator saves a policy for a table and one of its columns, under the names the database uses.\<close>

definition admin_save_row_policy ::
    "engine \<Rightarrow> exec_env \<Rightarrow> string \<Rightarrow> string \<Rightarrow> row_policy list \<Rightarrow> app_error option \<times> row_policy list" where
  "admin_save_row_policy en fails table column t =
     (let table = trim_space table; column = trim_space column in
      if table = [] \<or> column = [] then (Some (Message ''A table and an owner column are both required''), t)
      else (case table_meta en table of
          None \<Rightarrow> (Some (Message ''Could not load table''), t)
        | Some meta \<Rightarrow>
            (case find (\<lambda>c. equal_fold c column) (snd meta) of
               None \<Rightarrow> (Some (Message ''Column was not found''), t)
             | Some c \<Rightarrow> save_row_policy fails \<lparr>rp_table = fst meta, rp_column = c\<rparr> t)))"

end
