(* ===== verification/RowPoliciesCorrect.thy ===== *)
theory RowPoliciesCorrect
  imports RowPolicies AuthCorrect
begin

text \<open>
  Row policies confine every session that is not an administrator's to its own rows, whatever record operation it
  requests; a saved policy covers every spelling of a listed table, but not a qualified name of it.
\<close>

section \<open>Who acts\<close>

definition acting_user :: "nat \<Rightarrow> string \<Rightarrow> 'c server \<Rightarrow> string" where
  "acting_user now sid sv = (case fst (current_session_user now sid sv) of None \<Rightarrow> [] | Some (u, _) \<Rightarrow> u)"

lemma session_lookup_stable:
  "fst (current_session_user now sid (snd (current_session_user now sid sv))) = fst (current_session_user now sid sv)"
  by (auto simp: current_session_user_def split: option.splits)

lemma session_lookup_settings: "sv_settings (snd (current_session_user now sid sv)) = sv_settings sv"
  by (auto simp: current_session_user_def split: option.splits)

lemma admin_lookup:
  "fst (current_session_user now sid (snd (is_admin_authenticated now sid sv))) = fst (current_session_user now sid sv)"
  "fst (is_admin_authenticated now sid (snd (is_admin_authenticated now sid sv))) = fst (is_admin_authenticated now sid sv)"
proof -
  obtain r sv' where c: "current_session_user now sid sv = (r, sv')" by (cases "current_session_user now sid sv")
  note stable = session_lookup_stable [of now sid sv, unfolded c] session_lookup_settings [of now sid sv, unfolded c]
  obtain r2 sv2 where c2: "current_session_user now sid sv' = (r2, sv2)" by (cases "current_session_user now sid sv'")
  show "fst (current_session_user now sid (snd (is_admin_authenticated now sid sv))) = fst (current_session_user now sid sv)"
    using stable c by (auto simp: is_admin_authenticated_def split: option.splits)
  show "fst (is_admin_authenticated now sid (snd (is_admin_authenticated now sid sv))) = fst (is_admin_authenticated now sid sv)"
    using stable c c2 by (auto simp: is_admin_authenticated_def split: option.splits)
qed

lemma browse_lookup:
  "fst (current_session_user now sid (snd (can_browse_table_name now sid name sv))) = fst (current_session_user now sid sv)"
  "fst (is_admin_authenticated now sid (snd (can_browse_table_name now sid name sv))) = fst (is_admin_authenticated now sid sv)"
  by (simp_all add: can_browse_table_name_def admin_lookup)

lemma policy_owner:
  assumes "load_row_policy fails table policies = Inr (Some p)" "\<not> fst (is_admin_authenticated now sid sv)"
  shows "fst (row_policy_owner_column_and_arg fails now sid policies table sv) = Inr (rp_column p, acting_user now sid sv)"
proof -
  obtain b sv' where a: "is_admin_authenticated now sid sv = (b, sv')" by (cases "is_admin_authenticated now sid sv")
  with assms(2) have b: "\<not> b" by simp
  have "fst (current_session_user now sid sv') = fst (current_session_user now sid sv)"
    using admin_lookup(1) [of now sid sv] a by simp
  then have "fst (row_policy_owner_for_session now sid sv') = acting_user now sid sv"
    by (auto simp: row_policy_owner_for_session_def acting_user_def split: prod.splits option.splits)
  with a b assms(1) show ?thesis
    by (auto simp: row_policy_owner_column_and_arg_def row_policy_applies_to_session_def split: prod.splits bool.splits)
qed

section \<open>Rows and owners\<close>

definition owned :: "engine \<Rightarrow> string \<Rightarrow> string \<Rightarrow> sql_row \<Rightarrow> bool" where
  "owned en c u r \<longleftrightarrow> column_value en r c \<noteq> Null_Value \<and> en_equal en (column_value en r c) (Text_Value u)"

definition others_rows :: "engine \<Rightarrow> string \<Rightarrow> string \<Rightarrow> sql_row list \<Rightarrow> sql_row list" where
  "others_rows en c u rows = filter (\<lambda>r. \<not> owned en c u r) rows"

text \<open>
  What is assumed of the engine: names of the columns of a table, and \<^verbatim>\<open>id\<close>, are told apart, a text equals itself,
  sorting adds no rows.
\<close>

definition engine_laws :: "engine \<Rightarrow> nat \<Rightarrow> bool" where
  "engine_laws en t \<longleftrightarrow>
     (\<forall>a\<in>insert ''id'' (set (en_columns en t)). \<forall>b\<in>insert ''id'' (set (en_columns en t)). en_same en a b \<longrightarrow> a = b)
     \<and> (\<forall>a. en_same en a a) \<and> (\<forall>u. en_equal en (Text_Value u) (Text_Value u))
     \<and> (\<forall>c d rows. set (en_order en c d rows) \<subseteq> set rows)"

definition well_shaped :: "engine \<Rightarrow> nat \<Rightarrow> database \<Rightarrow> bool" where
  "well_shaped en t db \<longleftrightarrow> (\<forall>r\<in>set (db t). map fst r = en_columns en t)"

lemma owner_condition_owned: "c \<noteq> [] \<Longrightarrow> row_matches en (owner_condition c u) r \<longleftrightarrow> owned en c u r"
  by (simp add: row_matches_def owner_condition_def owned_def)

lemma conditions_owned:
  "c \<noteq> [] \<Longrightarrow> row_matches en (x # owner_condition c u) r \<Longrightarrow> owned en c u r"
  by (simp add: row_matches_def owner_condition_def owned_def split: prod.splits)

lemma assign_row_names [simp]: "map fst (assign_row en sets r) = map fst r"
  by (simp add: assign_row_def split_def comp_def)

lemma find_assigned:
  assumes "en_same en c c" "(c, v) \<in> set sets" "distinct (map fst sets)"
    and "\<forall>n\<in>fst ` set sets. en_same en c n \<longrightarrow> c = n"
  shows "find (\<lambda>(n, _). en_same en c n) sets = Some (c, v)"
  using assms(2,3,4)
proof (induction sets)
  case (Cons s sets)
  show ?case
  proof (cases "fst s = c")
    case True
    with Cons.prems have "s = (c, v)" by (cases s) (force simp: image_iff)
    with assms(1) show ?thesis by simp
  next
    case False
    with Cons show ?thesis by (cases s) auto
  qed
qed simp

lemma column_value_assigned:
  assumes "en_same en c c" "c \<in> fst ` set r" "\<forall>n\<in>fst ` set r. en_same en n c \<longrightarrow> n = c"
    and "find (\<lambda>(n, _). en_same en c n) sets = Some (k, v)"
  shows "column_value en (assign_row en sets r) c = v"
  using assms(2,3)
proof (induction r)
  case (Cons x r)
  obtain n w where x: "x = (n, w)" by (cases x)
  show ?case
  proof (cases "n = c")
    case True
    with assms(1,4) x show ?thesis by (simp add: column_value_def assign_row_def)
  next
    case False
    with Cons.prems x have "\<not> en_same en n c" "c \<in> fst ` set r" by auto
    with Cons x show ?thesis by (simp add: column_value_def assign_row_def)
  qed
qed simp

lemma stamped_row_owned:
  assumes laws: "engine_laws en t" and c: "c \<in> set (en_columns en t)" "\<not> equal_fold c ''id''" "c \<noteq> []"
    and shape: "map fst r = en_columns en t" and distinct: "distinct (en_columns en t)"
    and sets: "sets = written_columns (en_columns en t) (stamped_values (c, u) vs)
      \<or> sets = (''id'', x) # written_columns (en_columns en t) (stamped_values (c, u) vs)"
  shows "owned en c u (assign_row en sets r)"
proof -
  have id: "c \<noteq> ''id''" using c(2) by auto
  have written: "(c, Text_Value u) \<in> set (written_columns (en_columns en t) (stamped_values (c, u) vs))"
    using c by (auto simp: written_columns_def data_columns_def stamped_values_def clone_with_override_def form_value_def image_iff)
  have names: "map fst (written_columns (en_columns en t) (stamped_values (c, u) vs)) = data_columns (en_columns en t)"
    by (simp add: written_columns_def comp_def)
  have "''id'' \<notin> set (data_columns (en_columns en t))" by (simp add: data_columns_def)
  moreover have "distinct (data_columns (en_columns en t))" using distinct by (simp add: data_columns_def)
  ultimately have "distinct (map fst sets)" "(c, Text_Value u) \<in> set sets"
    "fst ` set sets \<subseteq> insert ''id'' (set (en_columns en t))"
    using sets written names by (auto simp: data_columns_def simp flip: set_map)
  moreover from this(3) have "\<forall>n\<in>fst ` set sets. en_same en c n \<longrightarrow> c = n"
    using laws c(1) unfolding engine_laws_def by blast
  ultimately have "find (\<lambda>(n, _). en_same en c n) sets = Some (c, Text_Value u)"
    using laws by (intro find_assigned) (auto simp: engine_laws_def)
  moreover have "c \<in> fst ` set r" "\<forall>n\<in>fst ` set r. en_same en n c \<longrightarrow> n = c"
    using laws c(1) shape unfolding engine_laws_def by (auto simp flip: set_map)
  ultimately have "column_value en (assign_row en sets r) c = Text_Value u"
    using laws by (intro column_value_assigned) (auto simp: engine_laws_def)
  with laws show ?thesis by (simp add: owned_def engine_laws_def)
qed

section \<open>Confinement\<close>

lemma others_after_update:
  "(\<And>r. r \<in> set rows \<Longrightarrow> P r \<Longrightarrow> owned en c u r \<and> owned en c u (f r)) \<Longrightarrow>
   others_rows en c u (map (\<lambda>r. if P r then f r else r) rows) = others_rows en c u rows"
  by (induction rows) (auto simp: others_rows_def)

lemma others_after_delete:
  "(\<And>r. r \<in> set rows \<Longrightarrow> P r \<Longrightarrow> owned en c u r) \<Longrightarrow>
   others_rows en c u (filter (\<lambda>r. \<not> P r) rows) = others_rows en c u rows"
  by (induction rows) (auto simp: others_rows_def)

lemma on_table_cases:
  "on_table en label table f = Inr x \<Longrightarrow> en_table en table = Some t \<Longrightarrow> x = f t"
  by (simp add: on_table_def split: if_splits)

text \<open>What one action of a confined session does to the table of the policy.\<close>

definition confined_action ::
    "engine \<Rightarrow> nat \<Rightarrow> string \<Rightarrow> string \<Rightarrow> database \<Rightarrow> record_reply \<times> database \<Rightarrow> bool" where
  "confined_action en t c u db r \<longleftrightarrow>
     others_rows en c u (snd r t) = others_rows en c u (db t) \<and> (\<forall>t'. t' \<noteq> t \<longrightarrow> snd r t' = db t')
     \<and> well_shaped en t (snd r)
     \<and> (\<forall>rows. fst r = Rows_Shown rows \<longrightarrow> (\<forall>x\<in>set rows. x \<in> set (db t) \<and> owned en c u x))"

lemma confined_actionI:
  assumes "others_rows en c u (snd r t) = others_rows en c u (db t)" "\<And>t'. t' \<noteq> t \<Longrightarrow> snd r t' = db t'"
    and "well_shaped en t (snd r)" "\<And>rows x. fst r = Rows_Shown rows \<Longrightarrow> x \<in> set rows \<Longrightarrow> x \<in> set (db t) \<and> owned en c u x"
  shows "confined_action en t c u db r"
  using assms unfolding confined_action_def by blast

lemma nothing_confined:
  "well_shaped en t db \<Longrightarrow> (\<And>rows. reply \<noteq> Rows_Shown rows) \<Longrightarrow> confined_action en t c u db (reply, db)"
  by (rule confined_actionI) simp_all

lemma shown_confined:
  assumes "well_shaped en t db" "\<And>rows x. r = Inr rows \<Longrightarrow> x \<in> set rows \<Longrightarrow> x \<in> set (db t) \<and> owned en c u x"
  shows "confined_action en t c u db (shown_reply r db)"
  using assms by (intro confined_actionI) (auto simp: shown_reply_def split: sum.splits)

lemma written_confined:
  assumes "well_shaped en t db" "snd r = db \<or> (\<exists>rows. snd r = db(t := rows) \<and> others_rows en c u rows = others_rows en c u (db t)
      \<and> (\<forall>x\<in>set rows. map fst x = en_columns en t))"
  shows "confined_action en t c u db (written_reply r)"
  using assms by (intro confined_actionI) (auto simp: written_reply_def well_shaped_def split: option.splits)

lemma insert_record_effect:
  assumes "en_table en table = Some t"
  shows "snd (insert_record en table values cols owner db) = db
    \<or> (\<exists>x. snd (insert_record en table values cols owner db) =
        run_insert en t ((''id'', x) # written_columns cols (stamped_values owner values)) db)"
proof (cases "en_fails en ''record.insert'' table")
  case True
  with assms have "on_table en ''record.insert'' table f = Inl (Exec_Failed ''record.insert'')" for f :: "nat \<Rightarrow> database"
    by (simp add: on_table_def)
  then show ?thesis by (simp add: insert_record_def Let_def)
next
  case False
  with assms have "on_table en ''record.insert'' table f = Inr (f t)" for f :: "nat \<Rightarrow> database"
    by (simp add: on_table_def)
  then show ?thesis unfolding insert_record_def Let_def by (simp only: sum.case snd_conv) blast
qed

lemma action_confined:
  assumes laws: "engine_laws en t" "distinct (en_columns en t)" and c: "c \<in> set (en_columns en t)" "\<not> equal_fold c ''id''" "c \<noteq> []"
    and t: "en_table en table = Some t" and shape: "well_shaped en t db"
  shows "confined_action en t c u db (record_action en per_page rq (table, en_columns en t) (c, u) db)"
proof (cases rq)
  case (Edit_Form i)
  show ?thesis
  proof (cases "get_record en table i (c, u) db")
    case (Inr ro)
    then have "ro = (let rows = run_select en t ((''id'', parse_id i) # owner_condition c u) db in if rows = [] then None else Some (hd rows))"
      using t by (auto simp: get_record_def on_table_def split: if_splits)
    then have "\<forall>r. ro = Some r \<longrightarrow> r \<in> set (run_select en t ((''id'', parse_id i) # owner_condition c u) db)"
      by (auto simp: Let_def split: if_splits)
    then have "\<forall>r. ro = Some r \<longrightarrow> r \<in> set (db t) \<and> owned en c u r"
      using conditions_owned [OF c(3)] by (fastforce simp: run_select_def)
    with Edit_Form Inr shape show ?thesis
      by (intro confined_actionI) (auto simp: record_action_def split: option.splits)
  qed (use Edit_Form shape in \<open>simp add: record_action_def nothing_confined\<close>)
next
  case (Create_Record form)
  let ?r = "insert_record en table (form_values (en_columns en t) form) (en_columns en t) (c, u) db"
  from insert_record_effect [OF t]
  consider "snd ?r = db" | x vs where "snd ?r = run_insert en t ((''id'', x) # written_columns (en_columns en t) (stamped_values (c, u) vs)) db"
    by blast
  then have "snd ?r = db \<or> (\<exists>rows. snd ?r = db(t := rows) \<and> others_rows en c u rows = others_rows en c u (db t)
      \<and> (\<forall>x\<in>set rows. map fst x = en_columns en t))"
  proof cases
    case (2 x vs)
    let ?new = "assign_row en ((''id'', x) # written_columns (en_columns en t) (stamped_values (c, u) vs)) (map (\<lambda>n. (n, Null_Value)) (en_columns en t))"
    have names: "map fst (map (\<lambda>n. (n, Null_Value)) (en_columns en t)) = en_columns en t" by (simp add: comp_def)
    from stamped_row_owned [OF laws(1) c this laws(2) disjI2 [OF refl]]
    have "others_rows en c u (db t @ [?new]) = others_rows en c u (db t)" by (simp add: others_rows_def)
    moreover have "\<forall>x\<in>set (db t @ [?new]). map fst x = en_columns en t"
      using shape names by (auto simp: well_shaped_def simp del: map_map)
    ultimately show ?thesis using 2 unfolding run_insert_def by blast
  qed simp
  with Create_Record shape show ?thesis by (simp add: record_action_def written_confined)
next
  case (Update_Record i form)
  let ?r = "update_record en table i (form_values (en_columns en t) form) (en_columns en t) (c, u) db"
  have "snd ?r = db \<or> (\<exists>vs. snd ?r = run_update en t (written_columns (en_columns en t) (stamped_values (c, u) vs))
      ((''id'', parse_id i) # owner_condition c u) db)"
    using t by (auto simp: update_record_def Let_def on_table_def split: sum.splits)
  moreover have "others_rows en c u (map (\<lambda>r. if row_matches en ((''id'', parse_id i) # owner_condition c u) r
      then assign_row en (written_columns (en_columns en t) (stamped_values (c, u) vs)) r else r) (db t)) = others_rows en c u (db t)" for vs
    using conditions_owned [OF c(3)] stamped_row_owned [OF laws(1) c _ laws(2) disjI1 [OF refl]] shape
    by (intro others_after_update) (simp add: well_shaped_def)
  ultimately have "snd ?r = db \<or> (\<exists>rows. snd ?r = db(t := rows) \<and> others_rows en c u rows = others_rows en c u (db t)
      \<and> (\<forall>x\<in>set rows. map fst x = en_columns en t))"
    using shape by (fastforce simp: run_update_def well_shaped_def)
  with Update_Record shape show ?thesis by (simp add: record_action_def written_confined)
next
  case (Delete_Record i)
  let ?r = "delete_record en table i (c, u) db"
  have "snd ?r = db \<or> snd ?r = run_delete en t ((''id'', parse_id i) # owner_condition c u) db"
    using t by (auto simp: delete_record_def on_table_def split: sum.splits)
  moreover have "others_rows en c u (filter (\<lambda>r. \<not> row_matches en ((''id'', parse_id i) # owner_condition c u) r) (db t))
      = others_rows en c u (db t)"
    using conditions_owned [OF c(3)] by (intro others_after_delete) auto
  ultimately have "snd ?r = db \<or> (\<exists>rows. snd ?r = db(t := rows) \<and> others_rows en c u rows = others_rows en c u (db t)
      \<and> (\<forall>x\<in>set rows. map fst x = en_columns en t))"
    using shape by (auto simp: run_delete_def well_shaped_def)
  with Delete_Record shape show ?thesis by (simp add: record_action_def written_confined)
next
  case (Table_Page page sort_col dir per)
  have "x \<in> set (db t) \<and> owned en c u x" if "x \<in> set rows"
    "table_rows_sorted en per_page page sort_col dir per (table, en_columns en t) (c, u) db = Inr rows" for rows x
  proof -
    from that(2) have "set rows \<subseteq> set (run_select en t (owner_condition c u) db)"
      using t laws(1) set_take_subset set_drop_subset unfolding engine_laws_def
      by (fastforce simp: table_rows_sorted_def Let_def on_table_def split: if_splits dest!: in_set_takeD in_set_dropD)
    with that(1) owner_condition_owned [OF c(3)] show ?thesis by (auto simp: run_select_def)
  qed
  with Table_Page shape show ?thesis by (simp add: record_action_def shown_confined)
next
  case Export_Table
  have "x \<in> set (db t) \<and> owned en c u x" if "x \<in> set rows" "export_rows en table (c, u) db = Inr rows" for rows x
    using that t owner_condition_owned [OF c(3)] by (auto simp: export_rows_def run_select_def on_table_def split: if_splits)
  with Export_Table shape show ?thesis by (simp add: record_action_def shown_confined)
qed

text \<open>
  Claim C37: a row policy confines every session that is not an administrator's.  When the table a request resolves
  to has a policy, then whatever the operation (form, create, update, delete, page, export), whatever id, form values
  and sort order it sends: the rows the session does not own stay as they are and in their order, no other table
  changes, every row shown belongs to the session, and a row it writes stays its own.
\<close>

theorem row_policy_confines:
  assumes "table_meta en name = Some (table, en_columns en t)" "en_table en table = Some t"
    and "load_row_policy fails table policies = Inr (Some p)" "\<not> fst (is_admin_authenticated now sid sv)"
    and "rp_column p \<in> set (en_columns en t)" "\<not> equal_fold (rp_column p) ''id''" "rp_column p \<noteq> []"
    and "engine_laws en t" "distinct (en_columns en t)" "well_shaped en t db"
  shows "let (reply, sv', db') = handle_record en fails now sid policies name rq (sv, db) in
    others_rows en (rp_column p) (acting_user now sid sv) (db' t) = others_rows en (rp_column p) (acting_user now sid sv) (db t)
    \<and> (\<forall>t'. t' \<noteq> t \<longrightarrow> db' t' = db t') \<and> well_shaped en t db'
    \<and> (\<forall>rows. reply = Rows_Shown rows \<longrightarrow>
          (\<forall>r\<in>set rows. r \<in> set (db t) \<and> owned en (rp_column p) (acting_user now sid sv) r))"
proof -
  obtain b sv1 where browse: "can_browse_table_name now sid name sv = (b, sv1)" by (cases "can_browse_table_name now sid name sv")
  note same = browse_lookup [of now sid name sv, unfolded browse snd_conv]
  have admin: "\<not> fst (is_admin_authenticated now sid sv1)" using same(2) assms(4) by simp
  have "acting_user now sid sv1 = acting_user now sid sv" using same(1) by (simp add: acting_user_def)
  with policy_owner [OF assms(3) admin] obtain sv2 where
    owner: "row_policy_owner_column_and_arg fails now sid policies table sv1 = (Inr (rp_column p, acting_user now sid sv), sv2)"
    by (cases "row_policy_owner_column_and_arg fails now sid policies table sv1") auto
  note confined = action_confined [OF assms(8,9,5,6,7,2,10), where u = "acting_user now sid sv"]
  show ?thesis
    using confined [of "current_page_size (sv_settings sv2)" rq] assms(1,10) browse owner
    by (auto simp: handle_record_def confined_action_def split: bool.splits prod.splits)
qed

lemma find_append: "find P (xs @ ys) = (case find P xs of None \<Rightarrow> find P ys | Some x \<Rightarrow> Some x)"
  by (induction xs) auto

text \<open>
  Claim C38: a policy an administrator saves covers every spelling of a listed table: whatever case a later request
  uses for the table, it resolves to the table's own name, under which the policy with the column's own name is found;
  policies of other tables stay as they were.
\<close>

theorem saved_policy_covers_every_spelling:
  assumes "admin_save_row_policy en fails table column t = (None, t')"
    and "table_meta en (trim_space table) = Some (obj, cols)" "obj \<in> set (en_objects en)" "equal_fold obj (trim_space table)"
    and "trim_space obj = obj" "trim_space c = c" "find (\<lambda>c. equal_fold c (trim_space column)) cols = Some c"
    and "equal_fold name (trim_space table)" "\<not> fails ''row_policy.load'' obj"
  shows "table_meta en name = Some (obj, cols)
    \<and> load_row_policy fails obj t' = Inr (Some \<lparr>rp_table = obj, rp_column = c\<rparr>)
    \<and> (\<forall>k. k \<noteq> obj \<longrightarrow> find (\<lambda>p. rp_table p = k) t' = find (\<lambda>p. rp_table p = k) t)"
proof -
  have "equal_fold o' name \<longleftrightarrow> equal_fold o' (trim_space table)" for o'
    using assms(8) equal_fold_trans equal_fold_sym by blast
  moreover have "find (\<lambda>obj. equal_fold obj (trim_space table)) (en_objects en) \<noteq> None"
    using assms(3,4) by (auto simp: find_None_iff)
  ultimately have "table_meta en name = table_meta en (trim_space table)"
    by (auto simp: table_meta_def split: option.splits)
  moreover have saved: "obj \<noteq> []" "ensure_row_policies_table fails = None" "t' = delete_rows rp_table obj t @ [\<lparr>rp_table = obj, rp_column = c\<rparr>]"
    using assms(1,2,5,6,7) by (auto simp: admin_save_row_policy_def save_row_policy_def Let_def split: if_splits option.splits)
  moreover have "find (\<lambda>p. rp_table p = obj) (delete_rows rp_table obj t) = None"
    by (auto simp: find_None_iff delete_rows_def)
  then have "load_row_policy fails obj t' = Inr (Some \<lparr>rp_table = obj, rp_column = c\<rparr>)"
    using assms(5,9) saved(1,2) by (simp add: load_row_policy_def Let_def saved(3) find_append)
  moreover have "find (\<lambda>p. rp_table p = k) t' = find (\<lambda>p. rp_table p = k) t" if "k \<noteq> obj" for k
  proof -
    have "find (\<lambda>p. rp_table p = k) (delete_rows rp_table obj t) = find (\<lambda>p. rp_table p = k) t"
      using that by (induction t) (auto simp: delete_rows_def)
    with that show ?thesis by (auto simp: saved(3) find_append split: option.splits)
  qed
  ultimately show ?thesis using assms(2) by simp
qed

section \<open>A PostgreSQL table\<close>

text \<open>The table \<open>notes\<close> of the default schema, listed without it; both names denote it.\<close>

definition notes_engine :: engine where
  "notes_engine = \<lparr>en_dialect = ''PostgreSQL'', en_objects = [''notes''],
     en_table = (\<lambda>n. if n = ''notes'' \<or> n = ''public.notes'' then Some 0 else None),
     en_columns = (\<lambda>_. [''id'', ''owner'']), en_same = (=), en_equal = (=), en_order = (\<lambda>_ _ rows. rows), en_fails = no_failures\<rparr>"

definition notes_policy :: row_policy where
  "notes_policy = \<lparr>rp_table = ''notes'', rp_column = ''owner''\<rparr>"

definition notes_db :: database where
  "notes_db = (\<lambda>_. [[(''id'', Int_Value 1), (''owner'', Text_Value ''bob'')]])"

lemma notes_texts:
  "equal_fold ''notes'' ''Notes''" "equal_fold ''notes'' ''NOTES''" "equal_fold ''notes'' ''notes''" "\<not> equal_fold ''notes'' ''public.notes''"
  "equal_fold ''owner'' ''OWNER''" "\<not> equal_fold ''id'' ''OWNER''" "\<not> equal_fold ''owner'' ''id''"
  "trim_space ''notes'' = ''notes''" "trim_space ''Notes'' = ''Notes''" "trim_space ''public.notes'' = ''public.notes''"
  "trim_space ''owner'' = ''owner''" "trim_space ''OWNER'' = ''OWNER''"
  "\<not> is_data_dock_system_object ''notes''" "\<not> is_data_dock_system_object ''public.notes''" "parse_id ''1'' = Int_Value 1"
  by code_simp+

lemma notes_fold: "equal_fold ''NOTES'' ''Notes''" "equal_fold ''Notes'' ''Notes''"
  by code_simp+

lemma notes_meta:
  "table_meta notes_engine ''Notes'' = Some (''notes'', en_columns notes_engine 0)"
  "table_meta notes_engine ''NOTES'' = Some (''notes'', en_columns notes_engine 0)"
  "table_meta notes_engine ''notes'' = Some (''notes'', en_columns notes_engine 0)"
  "table_meta notes_engine ''public.notes'' = Some (''public.notes'', en_columns notes_engine 0)"
  by (simp_all add: table_meta_def notes_engine_def on_table_def no_failures_def notes_texts)

lemma notes_policy_found:
  "load_row_policy no_failures ''notes'' [notes_policy] = Inr (Some notes_policy)"
  "load_row_policy no_failures ''public.notes'' [notes_policy] = Inr None"
  by (simp_all add: load_row_policy_def notes_texts ensure_row_policies_table_def no_failures_def notes_policy_def)

lemma notes_laws: "engine_laws notes_engine 0" "distinct (en_columns notes_engine 0)" "well_shaped notes_engine 0 notes_db"
  by (simp_all add: engine_laws_def well_shaped_def notes_engine_def notes_db_def)

lemma anonymous_session:
  "is_admin_authenticated 5 [] sample_server = (False, sample_server)" "current_session_user 5 [] sample_server = (None, sample_server)"
  by (simp_all add: is_admin_authenticated_def current_session_user_def sample_server_def)

lemma row_policy_confines_witness:
  "let (reply, sv', db') = handle_record notes_engine no_failures 5 [] [notes_policy] ''Notes'' (Delete_Record ''1'') (sample_server, notes_db) in
    others_rows notes_engine ''owner'' [] (db' 0) = [[(''id'', Int_Value 1), (''owner'', Text_Value ''bob'')]]"
proof -
  have u: "acting_user 5 [] sample_server = []" by (simp add: acting_user_def anonymous_session)
  have others: "others_rows notes_engine ''owner'' [] (notes_db 0) = [[(''id'', Int_Value 1), (''owner'', Text_Value ''bob'')]]"
    by (simp add: others_rows_def owned_def column_value_def notes_db_def notes_engine_def)
  have column: "rp_column notes_policy \<in> set (en_columns notes_engine 0)" "\<not> equal_fold (rp_column notes_policy) ''id''"
    "rp_column notes_policy \<noteq> []" "en_table notes_engine ''notes'' = Some 0"
    by (simp_all add: notes_policy_def notes_engine_def notes_texts)
  have "\<not> fst (is_admin_authenticated 5 [] sample_server)" by (simp add: anonymous_session)
  from row_policy_confines [OF notes_meta(1) column(4) notes_policy_found(1) this column(1-3) notes_laws, of "Delete_Record ''1''"]
  show ?thesis by (simp add: u others split_def Let_def) (simp add: notes_policy_def others)
qed

lemma notes_policy_saved: "admin_save_row_policy notes_engine no_failures ''Notes'' ''OWNER'' [] = (None, [notes_policy])"
  using notes_meta(1)
  by (simp add: admin_save_row_policy_def notes_texts notes_engine_def save_row_policy_def ensure_row_policies_table_def
      no_failures_def delete_rows_def notes_policy_def)

lemma saved_policy_covers_every_spelling_witness:
  "table_meta notes_engine ''NOTES'' = Some (''notes'', [''id'', ''owner''])
   \<and> load_row_policy no_failures ''notes'' [notes_policy] = Inr (Some notes_policy)"
proof -
  have "en_columns notes_engine 0 = [''id'', ''owner'']" "''notes'' \<in> set (en_objects notes_engine)" by (simp_all add: notes_engine_def)
  with saved_policy_covers_every_spelling [OF notes_policy_saved, of "''notes''" "en_columns notes_engine 0" "''owner''" "''NOTES''"]
  show ?thesis using notes_meta(1) by (simp add: notes_texts notes_fold no_failures_def notes_policy_def)
qed


section \<open>Texts and arguments\<close>

text \<open>Pieces of text with the placeholders \<open>k\<close>, \<open>k + 1\<close> and so on between them.\<close>

fun with_holes :: "string \<Rightarrow> nat \<Rightarrow> string list \<Rightarrow> string" where
  "with_holes d k [] = []"
| "with_holes d k [p] = p"
| "with_holes d k (p # q # ps) = p @ placeholder d k @ with_holes d (Suc k) (q # ps)"

lemma with_holes_append:
  "ps \<noteq> [] \<Longrightarrow> qs \<noteq> [] \<Longrightarrow>
   with_holes d k (ps @ qs) = with_holes d k ps @ placeholder d (k + length ps - 1) @ with_holes d (k + length ps) qs"
proof (induction ps arbitrary: k)
  case (Cons p ps)
  then show ?case by (cases ps; cases qs) auto
qed simp

lemma with_holes_snoc:
  "with_holes d k (ps @ [p]) @ r = with_holes d k (ps @ [p @ r])"
proof (induction ps arbitrary: k)
  case (Cons q ps)
  then show ?case by (cases ps) auto
qed simp

text \<open>A list of clauses, each ending in its placeholder.\<close>

lemma clauses_with_holes:
  "xs \<noteq> [] \<Longrightarrow> \<exists>ps. length ps = length xs \<and>
     join_with '', '' (map (\<lambda>k. f (xs ! k) @ placeholder d (m + k)) [0..<length xs]) @ r = with_holes d m (ps @ [r])"
proof (induction xs arbitrary: m)
  case (Cons x xs)
  show ?case
  proof (cases xs)
    case Nil
    then show ?thesis by (intro exI [of _ "[f x]"]) simp
  next
    case (Cons y ys)
    with Cons.IH [of "Suc m"] obtain ps where ps: "length ps = length xs"
      "join_with '', '' (map (\<lambda>k. f (xs ! k) @ placeholder d (Suc m + k)) [0..<length xs]) @ r = with_holes d (Suc m) (ps @ [r])"
      by auto
    obtain q qs where q: "ps = q # qs" using ps(1) Cons by (cases ps) auto
    have upt: "[0..<length (x # xs)] = 0 # map Suc [0..<length xs]" by (simp add: upt_conv_Cons map_Suc_upt del: upt_Suc)
    have "join_with '', '' (map (\<lambda>k. f ((x # xs) ! k) @ placeholder d (m + k)) [0..<length (x # xs)]) @ r
        = f x @ placeholder d m @ '', '' @ with_holes d (Suc m) (ps @ [r])"
      unfolding upt using ps(2) Cons by (simp add: comp_def upt_conv_Cons del: upt_Suc)
    also have "\<dots> = with_holes d m ((f x # ('', '' @ q) # qs) @ [r])"
      using q by (cases "qs @ [r]") auto
    finally show ?thesis using ps(1) q by (intro exI [of _ "f x # ('', '' @ q) # qs"]) simp
  qed
qed simp

definition binds_in_order :: "string \<Rightarrow> string \<times> sql_value list \<Rightarrow> bool" where
  "binds_in_order d st \<longleftrightarrow> (\<exists>ps. length ps = Suc (length (snd st)) \<and> fst st = with_holes d 1 ps)"

lemma condition_binds_in_order:
  "binds_in_order d (p @ placeholder d 1 @ (if fst owner \<noteq> [] then '' AND '' @ quote_ident d (fst owner) @ '' = '' @ placeholder d 2 else []),
     x # owner_argument owner)"
proof (cases "fst owner = []")
  case True
  then have "p @ placeholder d 1 = with_holes d 1 [p, []]" by simp
  with True show ?thesis unfolding binds_in_order_def owner_argument_def by (intro exI [of _ "[p, []]"]) simp
next
  case False
  let ?and = "'' AND '' @ quote_ident d (fst owner) @ '' = ''"
  have "Suc 1 = (2 :: nat)" by simp
  then have "p @ placeholder d 1 @ ?and @ placeholder d 2 = with_holes d 1 [p, ?and, []]"
    by (simp only: with_holes.simps append_Nil2)
  with False show ?thesis unfolding binds_in_order_def owner_argument_def by (intro exI [of _ "[p, ?and, []]"]) simp
qed

lemma with_holes_prefix: "qs \<noteq> [] \<Longrightarrow> p @ with_holes d k qs = with_holes d k ((p @ hd qs) # tl qs)"
  by (cases qs rule: list.exhaust; cases "tl qs") auto

lemma insert_binds_in_order: "binds_in_order d (insert_statement d table next written)"
proof -
  let ?head = "''INSERT INTO '' @ quote_ident d table @ '' ('' @ join_with '', '' (map (quote_ident d) (''id'' # map fst written)) @ '') VALUES (''"
  have shift: "map (placeholder d) [1..<length written + 2] = map (\<lambda>k. [] @ placeholder d (1 + k)) [0..<length (''id'' # map fst written)]"
    by (rule nth_equalityI) (simp_all del: upt_Suc)
  obtain ps where ps: "length ps = length (''id'' # map fst written)"
    "join_with '', '' (map (\<lambda>k. [] @ placeholder d (1 + k)) [0..<length (''id'' # map fst written)]) @ '')'' = with_holes d 1 (ps @ ['')''])"
    using clauses_with_holes [of "''id'' # map fst written" "\<lambda>_. []" d 1 "'')''"] by auto
  have "fst (insert_statement d table next written) = ?head @ with_holes d 1 (ps @ ['')''])"
    unfolding insert_statement_def record_insert_query_def shift using ps(2) by simp
  also have "\<dots> = with_holes d 1 ((?head @ hd (ps @ ['')''])) # tl (ps @ ['')'']))" by (rule with_holes_prefix) simp
  finally show ?thesis
    unfolding binds_in_order_def using ps(1) by (intro exI conjI) (auto simp: insert_statement_def)
qed

lemma update_binds_in_order:
  assumes "written \<noteq> []"
  shows "binds_in_order d (update_statement d table i written owner)"
proof -
  let ?head = "''UPDATE '' @ quote_ident d table @ '' SET ''" and ?where = "'' WHERE '' @ quote_ident d ''id'' @ '' = ''"
  let ?tail = "if fst owner \<noteq> [] then ['' AND '' @ quote_ident d (fst owner) @ '' = '', []] else [[]]"
  let ?n = "length written"
  obtain ps where ps: "length ps = ?n"
    "join_with '', '' (map (\<lambda>k. (quote_ident d (fst (written ! k)) @ '' = '') @ placeholder d (1 + k)) [0..<?n]) @ ?where
      = with_holes d 1 (ps @ [?where])"
    using clauses_with_holes [OF assms, of "\<lambda>x. quote_ident d (fst x) @ '' = ''" d 1 ?where] by auto
  have sets: "map (\<lambda>k. quote_ident d (fst (written ! k)) @ '' = '' @ placeholder d (k + 1)) [0..<?n]
    = map (\<lambda>k. (quote_ident d (fst (written ! k)) @ '' = '') @ placeholder d (1 + k)) [0..<?n]" by simp
  have tail: "with_holes d (?n + 2) ?tail = (if fst owner \<noteq> [] then '' AND '' @ quote_ident d (fst owner) @ '' = '' @ placeholder d (?n + 2) else [])"
    by simp
  have "fst (update_statement d table i written owner)
      = ?head @ (with_holes d 1 (ps @ [?where]) @ placeholder d (?n + 1) @ with_holes d (?n + 2) ?tail)"
    unfolding update_statement_def record_update_query_def Let_def sets tail using ps(2) by simp
  also have "with_holes d 1 (ps @ [?where]) @ placeholder d (?n + 1) @ with_holes d (?n + 2) ?tail
      = with_holes d 1 ((ps @ [?where]) @ ?tail)"
    using with_holes_append [of "ps @ [?where]" ?tail d 1] ps(1) by simp
  also have "?head @ \<dots> = with_holes d 1 ((?head @ hd ((ps @ [?where]) @ ?tail)) # tl ((ps @ [?where]) @ ?tail))"
    by (rule with_holes_prefix) simp
  finally show ?thesis
    unfolding binds_in_order_def using ps(1)
    by (intro exI conjI) (auto simp: update_statement_def owner_argument_def Let_def)
qed


end
