(* ===== verification/GoUtf8.thy ===== *)
theory GoUtf8
  imports GoText
begin

text \<open>
  UTF-8 and UTF-16 as the Go standard library reads and writes them: \<^verbatim>\<open>string(runes)\<close>,
  \<^verbatim>\<open>[]rune(s)\<close>, \<^verbatim>\<open>utf8.Valid\<close> and \<^verbatim>\<open>utf16.Decode\<close>.  A rune is a natural number; one that is no Unicode
  scalar value is written as the replacement character, and a byte that starts no valid sequence is
  read as one.
\<close>

named_theorems utf_simps

section \<open>UTF-8\<close>

definition is_scalar :: "nat \<Rightarrow> bool" where
  "is_scalar r \<longleftrightarrow> r < 0xD800 \<or> 0xDFFF < r \<and> r \<le> 0x10FFFF"

definition replacement_rune :: nat where
  "replacement_rune = 0xFFFD"

definition continuation :: "nat \<Rightarrow> char" where
  "continuation n = char_of (0x80 + n mod 64)"

definition encode_scalar :: "nat \<Rightarrow> string" where
  "encode_scalar r =
     (if r < 0x80 then [char_of r]
      else if r < 0x800 then [char_of (0xC0 + r div 64), continuation r]
      else if r < 0x10000 then [char_of (0xE0 + r div 4096), continuation (r div 64), continuation r]
      else [char_of (0xF0 + r div 262144), continuation (r div 4096), continuation (r div 64), continuation r])"

definition encode_rune :: "nat \<Rightarrow> string" where
  "encode_rune r = encode_scalar (if is_scalar r then r else replacement_rune)"

definition encode_runes :: "nat list \<Rightarrow> string" where
  "encode_runes rs = concat (map encode_rune rs)"

text \<open>The value a lead byte and its continuation bytes spell, and how many bytes it takes.\<close>

definition spelled :: "string \<Rightarrow> nat \<times> nat" where
  "spelled s =
     (let b = (\<lambda>i. if i < length s then of_char (s ! i) else 0 :: nat) in
      if b 0 < 0x80 then (b 0, 1)
      else if b 0 < 0xE0 then ((b 0 - 0xC0) * 64 + b 1 mod 64, 2)
      else if b 0 < 0xF0 then ((b 0 - 0xE0) * 4096 + b 1 mod 64 * 64 + b 2 mod 64, 3)
      else ((b 0 - 0xF0) * 262144 + b 1 mod 64 * 4096 + b 2 mod 64 * 64 + b 3 mod 64, 4))"

text \<open>A sequence is valid when it is the encoding of the scalar value it spells.\<close>

definition first_rune :: "string \<Rightarrow> (nat \<times> nat) option" where
  "first_rune s =
     (case spelled s of (r, n) \<Rightarrow>
        if s \<noteq> [] \<and> is_scalar r \<and> prefix (encode_scalar r) s \<and> length (encode_scalar r) = n
        then Some (r, n) else None)"

lemma encode_scalar_nonempty [simp]: "encode_scalar r \<noteq> []"
  by (simp add: encode_scalar_def)

lemma first_runeD:
  assumes "first_rune s = Some (r, n)"
  shows "is_scalar r" "s = encode_scalar r @ drop n s" "n = length (encode_scalar r)"
  using assms by (auto simp: first_rune_def prefix_def split: if_splits prod.splits)

lemma first_rune_shrinks:
  assumes "first_rune s = Some (r, n)"
  shows "length s - n < length s"
proof -
  have "0 < n" using first_runeD(3) [OF assms] by (simp add: length_greater_0_conv)
  moreover have "s \<noteq> []" using assms by (auto simp: first_rune_def split: if_splits prod.splits)
  ultimately show ?thesis by simp
qed

function decode_runes :: "string \<Rightarrow> nat list" where
  "decode_runes s =
     (if s = [] then []
      else case first_rune s of
             None \<Rightarrow> replacement_rune # decode_runes (tl s)
           | Some (r, n) \<Rightarrow> r # decode_runes (drop n s))"
  by auto
termination
  by (relation "measure length") (auto dest: first_rune_shrinks)

function utf8_valid :: "string \<Rightarrow> bool" where
  "utf8_valid s =
     (s = [] \<or> (case first_rune s of None \<Rightarrow> False | Some (r, n) \<Rightarrow> utf8_valid (drop n s)))"
  by auto
termination
  by (relation "measure length") (auto dest: first_rune_shrinks)

declare decode_runes.simps [simp del] utf8_valid.simps [simp del]

lemma split64: "\<exists>m. r = r div 64 * 64 + m \<and> m < (64 :: nat)"
  by (rule exI [of _ "r mod 64"]) simp

lemma div_4096: "r div 4096 = r div 64 div (64 :: nat)"
  using div_mult2_eq [of r 64 64] by simp

lemma div_262144: "r div 262144 = r div 4096 div (64 :: nat)"
  using div_mult2_eq [of r 4096 64] by simp

lemma tail64: "m < 64 \<Longrightarrow> (q * 64 + m) div 64 = q \<and> (q * 64 + m) mod 64 = (m :: nat)"
  by simp

lemma mod_128: "m < 64 \<Longrightarrow> (128 + m) mod 64 = (m :: nat)"
  using tail64 [of m 2] by simp

lemma spelled_encoded:
  assumes "is_scalar r"
  shows "spelled (encode_scalar r @ s) = (r, length (encode_scalar r))"
proof -
  have small: "r < 0x110000" using assms by (auto simp: is_scalar_def)
  consider (one) "r < 0x80" | (two) "0x80 \<le> r" "r < 0x800" | (three) "0x800 \<le> r" "r < 0x10000"
    | (four) "0x10000 \<le> r" by linarith
  then show ?thesis
  proof cases
    case one
    then show ?thesis by (simp add: spelled_def encode_scalar_def of_char_of_small)
  next
    case two
    from two have "r div 64 < 32" by (simp add: less_mult_imp_div_less)
    with split64 [of r] obtain a m where r: "r = a * 64 + m" "m < 64" "a < 32" by blast
    have "continuation (a * 64 + m) = char_of (128 + m)" using r by (simp add: continuation_def)
    then show ?thesis
      using two r by (simp add: spelled_def encode_scalar_def of_char_of_small mod_128)
  next
    case three
    from three have "r div 64 div 64 < 16" by (simp add: less_mult_imp_div_less)
    with split64 [of r] split64 [of "r div 64"]
    obtain a b m where r: "r = (a * 64 + b) * 64 + m" "m < 64" "b < 64" "a < 16" by metis
    then have low: "r div 64 = a * 64 + b" "r mod 64 = m" using tail64 by blast+
    moreover have "r div 4096 = a" unfolding div_4096 low(1) using r(3) tail64 by blast
    moreover have "(a * 64 + b) mod 64 = b" using r(3) tail64 by blast
    ultimately have "encode_scalar r = [char_of (0xE0 + a), char_of (0x80 + b), char_of (0x80 + m)]"
      using three r by (simp add: encode_scalar_def continuation_def)
    then show ?thesis
      using r by (simp add: spelled_def of_char_of_small mod_128)
  next
    case four
    from small have "r div 64 div 64 div 64 < 8" by (simp add: less_mult_imp_div_less)
    with split64 [of r] split64 [of "r div 64"] split64 [of "r div 64 div 64"]
    obtain a b c m where r: "r = ((a * 64 + b) * 64 + c) * 64 + m" "m < 64" "c < 64" "b < 64" "a < 8"
      by metis
    then have low: "r div 64 = (a * 64 + b) * 64 + c" "r mod 64 = m" using tail64 by blast+
    moreover have mid: "r div 4096 = a * 64 + b"
      unfolding div_4096 low(1) using r(3) tail64 by blast
    moreover have "r div 262144 = a" unfolding div_262144 mid using r(4) tail64 by blast
    moreover have "((a * 64 + b) * 64 + c) mod 64 = c" "(a * 64 + b) mod 64 = b"
      using r tail64 by blast+
    ultimately have "encode_scalar r = [char_of (0xF0 + a), char_of (0x80 + b), char_of (0x80 + c), char_of (0x80 + m)]"
      using four r by (simp add: encode_scalar_def continuation_def)
    then show ?thesis
      using r by (simp add: spelled_def of_char_of_small mod_128)
  qed
qed

lemma first_rune_encoded [utf_simps]:
  "is_scalar r \<Longrightarrow> first_rune (encode_scalar r @ s) = Some (r, length (encode_scalar r))"
  by (simp add: first_rune_def spelled_encoded)

lemma encode_rune_scalar: "is_scalar r \<Longrightarrow> encode_rune r = encode_scalar r"
  by (simp add: encode_rune_def)

lemma encode_runes_simps [simp]:
  "encode_runes [] = []" "encode_runes (r # rs) = encode_rune r @ encode_runes rs"
  "encode_runes (rs @ ss) = encode_runes rs @ encode_runes ss"
  by (simp_all add: encode_runes_def)

lemma replacement_scalar [simp]: "is_scalar replacement_rune"
  by (simp add: is_scalar_def replacement_rune_def)

lemma utf8_valid_step: "is_scalar r \<Longrightarrow> utf8_valid (encode_scalar r @ s) = utf8_valid s"
  by (subst utf8_valid.simps) (simp add: first_rune_encoded)

lemma decode_runes_step: "is_scalar r \<Longrightarrow> decode_runes (encode_scalar r @ s) = r # decode_runes s"
  by (subst decode_runes.simps) (simp add: first_rune_encoded)

lemma utf8_valid_Nil [simp]: "utf8_valid []"
  by (simp add: utf8_valid.simps)

lemma decode_runes_Nil [simp]: "decode_runes [] = []"
  by (simp add: decode_runes.simps)

lemma utf8_valid_encoded [utf_simps]: "utf8_valid (encode_runes rs)"
  by (induction rs) (simp_all add: encode_rune_def utf8_valid_step)

lemma decode_encoded [utf_simps]:
  "list_all is_scalar rs \<Longrightarrow> decode_runes (encode_runes rs) = rs"
  by (induction rs) (simp_all add: encode_rune_scalar decode_runes_step)

lemma decode_runes_scalar: "list_all is_scalar (decode_runes s)"
proof (induction s rule: decode_runes.induct)
  case (1 s)
  show ?case
  proof (cases "first_rune s")
    case None
    with 1 show ?thesis by (subst decode_runes.simps) simp
  next
    case (Some p)
    then obtain r n where "first_rune s = Some (r, n)" by (cases p) auto
    with 1 show ?thesis
      by (subst decode_runes.simps) (simp add: first_runeD(1))
  qed
qed

text \<open>On valid text the two conversions are inverse.\<close>

lemma encode_decoded: "utf8_valid s \<Longrightarrow> encode_runes (decode_runes s) = s"
proof (induction s rule: utf8_valid.induct)
  case (1 s)
  show ?case
  proof (cases "s = []")
    case False
    with "1.prems" obtain r n where first: "first_rune s = Some (r, n)" and rest: "utf8_valid (drop n s)"
      by (subst (asm) utf8_valid.simps) (auto split: option.splits)
    have "decode_runes s = r # decode_runes (drop n s)"
      using False first by (subst decode_runes.simps) simp
    moreover have "encode_runes (decode_runes (drop n s)) = drop n s"
      using 1 False first rest by blast
    ultimately show ?thesis
      using first_runeD [OF first] by (simp add: encode_rune_scalar)
  qed simp
qed

text \<open>ASCII text is its own list of runes.\<close>

definition is_ascii :: "string \<Rightarrow> bool" where
  "is_ascii s \<longleftrightarrow> list_all (\<lambda>c. (of_char c :: nat) < 0x80) s"

lemma encode_ascii: "is_ascii s \<Longrightarrow> encode_runes (map of_char s) = s"
proof (induction s)
  case (Cons c s)
  then have "(of_char c :: nat) < 0x80" "is_ascii s" by (simp_all add: is_ascii_def)
  with Cons.IH show ?case
    by (simp add: encode_rune_def is_scalar_def encode_scalar_def)
qed simp

lemma decode_ascii: "is_ascii s \<Longrightarrow> decode_runes s = map of_char s"
proof -
  assume ascii: "is_ascii s"
  then have "list_all is_scalar (map of_char s)"
    by (auto simp: is_ascii_def list_all_iff is_scalar_def)
  from decode_encoded [OF this] encode_ascii [OF ascii] show ?thesis by simp
qed

section \<open>UTF-16\<close>

definition is_high_surrogate :: "nat \<Rightarrow> bool" where
  "is_high_surrogate w \<longleftrightarrow> 0xD800 \<le> w \<and> w < 0xDC00"

definition is_low_surrogate :: "nat \<Rightarrow> bool" where
  "is_low_surrogate w \<longleftrightarrow> 0xDC00 \<le> w \<and> w < 0xE000"

fun utf16_decode :: "nat list \<Rightarrow> nat list" where
  "utf16_decode [] = []"
| "utf16_decode [w] = [if is_high_surrogate w \<or> is_low_surrogate w then replacement_rune else w]"
| "utf16_decode (w # v # ws) =
     (if is_high_surrogate w \<and> is_low_surrogate v
      then ((w - 0xD800) * 0x400 + (v - 0xDC00) + 0x10000) # utf16_decode ws
      else (if is_high_surrogate w \<or> is_low_surrogate w then replacement_rune else w) # utf16_decode (v # ws))"

text \<open>The standard's encoder, to state that the decoder inverts it.\<close>

definition utf16_words :: "nat \<Rightarrow> nat list" where
  "utf16_words r =
     (if r < 0x10000 then [r] else [0xD800 + (r - 0x10000) div 0x400, 0xDC00 + (r - 0x10000) mod 0x400])"

lemma utf16_decode_single:
  "\<not> is_high_surrogate w \<Longrightarrow> \<not> is_low_surrogate w \<Longrightarrow> utf16_decode (w # ws) = w # utf16_decode ws"
  by (cases ws) simp_all

lemma utf16_decode_words:
  assumes "is_scalar r"
  shows "utf16_decode (utf16_words r @ ws) = r # utf16_decode ws"
proof (cases "r < 0x10000")
  case True
  with assms show ?thesis
    by (auto simp: utf16_words_def utf16_decode_single is_high_surrogate_def is_low_surrogate_def is_scalar_def)
next
  case False
  define k where "k = r - 0x10000"
  have k: "k < 0x100000" "r = k + 0x10000" using False assms by (auto simp: k_def is_scalar_def)
  define h l where "h = k div 0x400" and "l = k mod 0x400"
  then have parts: "k = h * 0x400 + l" "l < 0x400" by simp_all
  with k have "h < 0x400" by linarith
  moreover have "utf16_words r = [0xD800 + h, 0xDC00 + l]"
    using False by (simp add: utf16_words_def h_def l_def k_def)
  ultimately show ?thesis
    using k parts by (simp add: is_high_surrogate_def is_low_surrogate_def)
qed

lemma utf16_decode_encoded:
  "list_all is_scalar rs \<Longrightarrow> utf16_decode (concat (map utf16_words rs)) = rs"
  by (induction rs) (simp_all add: utf16_decode_words)

lemma utf16_words_small: "is_scalar r \<Longrightarrow> list_all (\<lambda>w. w < 0x10000) (utf16_words r)"
  by (auto simp: utf16_words_def is_scalar_def)

end
