(* ===== verification/TypedValues.thy ===== *)
theory TypedValues
  imports GoText GoFloat
begin

text \<open>
  \<^verbatim>\<open>internal/typed/typed.go\<close>: what a text cell is.  \<open>classify_value\<close> tries the canonical spellings in
  the code's order, \<open>infer_column\<close> and \<open>infer_columns\<close> merge the kinds of a column, \<open>json_value\<close>
  and \<open>excel_serial\<close> convert a classified cell.  A regular expression is the predicate it denotes,
  \<^verbatim>\<open>time.Parse\<close> with the layouts used is \<open>parse_date\<close>, \<open>parse_clock\<close> and \<open>parse_date_time\<close>, and
  \<^verbatim>\<open>strconv.ParseFloat\<close> is the exact decimal value, rounded by the parameter \<open>rnd\<close>.
\<close>

datatype kind =
  KindBlank | KindText | KindInt | KindFloat | KindBool | KindDate | KindTime | KindDateTime

record time_value =
  tm_year :: int
  tm_month :: nat
  tm_day :: nat
  tm_hour :: nat
  tm_minute :: nat
  tm_second :: nat
  tm_nanos :: nat
  tm_offset :: int

record typed_value =
  tv_raw :: string
  tv_kind :: kind
  tv_time :: time_value
  tv_int :: int
  tv_float :: float_value
  tv_bool :: bool

text \<open>The zero \<^verbatim>\<open>time.Time\<close> and a value with only its text and kind set.\<close>

definition zero_time :: time_value where
  "zero_time = \<lparr>tm_year = 1, tm_month = 1, tm_day = 1, tm_hour = 0, tm_minute = 0, tm_second = 0,
                tm_nanos = 0, tm_offset = 0\<rparr>"

definition plain_value :: "string \<Rightarrow> kind \<Rightarrow> typed_value" where
  "plain_value raw k = \<lparr>tv_raw = raw, tv_kind = k, tv_time = zero_time, tv_int = 0,
                        tv_float = Finite 0, tv_bool = False\<rparr>"

section \<open>The regular expressions\<close>

text \<open>\<open>fits\<close>: every \<open>9\<close> of the pattern stands for a digit, every other byte for itself.\<close>

definition fits :: "string \<Rightarrow> string \<Rightarrow> bool" where
  "fits pat s \<longleftrightarrow> list_all2 (\<lambda>p c. if p = CHR ''9'' then is_digit_byte c else c = p) pat s"

definition drop_minus :: "string \<Rightarrow> string" where
  "drop_minus s = (if prefix ''-'' s then tl s else s)"

text \<open>\<^verbatim>\<open>0|[1-9][0-9]*\<close>\<close>

definition canonical_digits :: "string \<Rightarrow> bool" where
  "canonical_digits s \<longleftrightarrow> s \<noteq> [] \<and> list_all is_digit_byte s \<and> (hd s = CHR ''0'' \<longrightarrow> s = ''0'')"

definition int_re :: "string \<Rightarrow> bool" where
  "int_re s = canonical_digits (drop_minus s)"

definition drop_sign :: "string \<Rightarrow> string" where
  "drop_sign s = (if s \<noteq> [] \<and> (hd s = CHR ''+'' \<or> hd s = CHR ''-'') then tl s else s)"

text \<open>\<^verbatim>\<open>[eE][+-]?[0-9]+\<close>\<close>

fun exponent_re :: "string \<Rightarrow> bool" where
  "exponent_re [] = False"
| "exponent_re (c # s) =
     ((c = CHR ''e'' \<or> c = CHR ''E'') \<and> drop_sign s \<noteq> [] \<and> list_all is_digit_byte (drop_sign s))"

text \<open>
  The four alternatives share the integer part and the optional fraction; a number without a
  fraction needs an exponent and may not be zero.
\<close>

definition float_re :: "string \<Rightarrow> bool" where
  "float_re s =
     (let u = drop_minus s;
          whole = takeWhile is_digit_byte u;
          r = dropWhile is_digit_byte u
      in canonical_digits whole
         \<and> (if prefix ''.'' r
            then takeWhile is_digit_byte (tl r) \<noteq> []
                 \<and> (dropWhile is_digit_byte (tl r) = [] \<or> exponent_re (dropWhile is_digit_byte (tl r)))
            else exponent_re r \<and> whole \<noteq> ''0''))"

definition date_re :: "string \<Rightarrow> bool" where
  "date_re s = fits ''9999-99-99'' s"

definition time_re :: "string \<Rightarrow> bool" where
  "time_re s \<longleftrightarrow>
     fits ''99:99'' s \<or> fits ''99:99:99'' s
     \<or> fits ''99:99:99.'' (take 9 s) \<and> drop 9 s \<noteq> [] \<and> list_all is_digit_byte (drop 9 s)"

definition date_time_re :: "string \<Rightarrow> bool" where
  "date_time_re s \<longleftrightarrow> fits ''9999-99-99T99:99:99'' (take 19 s) \<or> fits ''9999-99-99 99:99:99'' (take 19 s)"

section \<open>Calendar and clock\<close>

definition leap_year :: "int \<Rightarrow> bool" where
  "leap_year y \<longleftrightarrow> 4 dvd y \<and> (\<not> 100 dvd y \<or> 400 dvd y)"

definition month_lengths :: "int \<Rightarrow> nat list" where
  "month_lengths y = [31, if leap_year y then 29 else 28, 31, 30, 31, 30, 31, 31, 30, 31, 30, 31]"

definition days_in :: "int \<Rightarrow> nat \<Rightarrow> nat" where
  "days_in y m = month_lengths y ! (m - 1)"

definition number_at :: "string \<Rightarrow> nat \<Rightarrow> nat \<Rightarrow> nat" where
  "number_at s i n = parse_digits (take n (drop i s))"

definition parse_date :: "string \<Rightarrow> time_value option" where
  "parse_date s =
     (let y = int (number_at s 0 4); m = number_at s 5 2; d = number_at s 8 2
      in if 1 \<le> m \<and> m \<le> 12 \<and> 1 \<le> d \<and> d \<le> days_in y m
         then Some (zero_time\<lparr>tm_year := y, tm_month := m, tm_day := d\<rparr>) else None)"

text \<open>
  A fraction of a second: a period or comma and digits, of which nine count.  It is optional; the
  result is the nanoseconds and the rest of the text.
\<close>

definition parse_fraction :: "string \<Rightarrow> nat \<times> string" where
  "parse_fraction s =
     (if 2 \<le> length s \<and> (s ! 0 = CHR ''.'' \<or> s ! 0 = CHR '','') \<and> is_digit_byte (s ! 1)
      then let ds = takeWhile is_digit_byte (tl s); counted = take 9 ds
           in (parse_digits counted * 10 ^ (9 - length counted), drop (length ds) (tl s))
      else (0, s))"

definition parse_clock :: "string \<Rightarrow> (nat \<times> nat \<times> nat) option" where
  "parse_clock s =
     (let h = number_at s 0 2; m = number_at s 3 2; sec = number_at s 6 2
      in if h < 24 \<and> m < 60 \<and> sec < 60 then Some (h, m, sec) else None)"

text \<open>The zone of RFC 3339, \<^verbatim>\<open>Z\<close> or a signed offset, in seconds east of UTC.\<close>

definition parse_zone :: "string \<Rightarrow> int option" where
  "parse_zone s =
     (if s = ''Z'' then Some 0
      else let h = number_at s 1 2; m = number_at s 4 2; off = (int h * 60 + int m) * 60
           in if fits ''99:99'' (tl s) \<and> h \<le> 24 \<and> m \<le> 60
              then if hd s = CHR ''+'' then Some off
                   else if hd s = CHR ''-'' then Some (- off) else None
              else None)"

text \<open>A date without a time zone may use a blank or a \<^verbatim>\<open>T\<close>; one with a zone needs the \<^verbatim>\<open>T\<close>.\<close>

definition parse_date_time :: "string \<Rightarrow> time_value option" where
  "parse_date_time s =
     (case (parse_date (take 10 s), parse_clock (take 8 (drop 11 s)), parse_fraction (drop 19 s)) of
        (Some d, Some (h, m, sec), (ns, rest)) \<Rightarrow>
          let t = d\<lparr>tm_hour := h, tm_minute := m, tm_second := sec, tm_nanos := ns\<rparr>
          in if rest = [] then Some t
             else if s ! 10 = CHR ''T''
                  then map_option (\<lambda>off. t\<lparr>tm_offset := off\<rparr>) (parse_zone rest)
                  else None
      | _ \<Rightarrow> None)"

text \<open>A time of day has the date the parser leaves out: January 1 of year 0.\<close>

definition parse_time_of_day :: "string \<Rightarrow> time_value option" where
  "parse_time_of_day s =
     map_option (\<lambda>(h, m, sec).
         zero_time\<lparr>tm_year := 0, tm_hour := h, tm_minute := m, tm_second := sec,
                   tm_nanos := fst (parse_fraction (drop 8 s))\<rparr>)
       (parse_clock s)"

section \<open>Numbers\<close>

fun exponent_value :: "string \<Rightarrow> int" where
  "exponent_value [] = 0"
| "exponent_value (c # s) =
     (if s \<noteq> [] \<and> hd s = CHR ''-'' then - int (parse_digits (tl s)) else int (parse_digits (drop_sign s)))"

definition scale_ten :: "rat \<Rightarrow> int \<Rightarrow> rat" where
  "scale_ten q e = (if 0 \<le> e then q * 10 ^ nat e else q / 10 ^ nat (- e))"

definition decimal_value :: "string \<Rightarrow> rat" where
  "decimal_value s =
     (let u = drop_minus s;
          whole = takeWhile is_digit_byte u;
          r = dropWhile is_digit_byte u;
          frac = (if prefix ''.'' r then takeWhile is_digit_byte (tl r) else []);
          q = (if prefix ''.'' r then dropWhile is_digit_byte (tl r) else r);
          m = scale_ten (of_nat (parse_digits (whole @ frac))) (exponent_value q - int (length frac))
      in if prefix ''-'' s then - m else m)"

definition parse_float :: "rounding \<Rightarrow> string \<Rightarrow> float_value option" where
  "parse_float rnd s = (case rnd (decimal_value s) of Finite q \<Rightarrow> Some (Finite q) | _ \<Rightarrow> None)"

section \<open>Classification\<close>

definition or_else :: "'a option \<Rightarrow> 'a \<Rightarrow> 'a" where
  "or_else x y = (case x of None \<Rightarrow> y | Some v \<Rightarrow> v)"

definition only_if :: "bool \<Rightarrow> 'a option \<Rightarrow> 'a option" where
  "only_if b x = (if b then x else None)"

definition classify_value :: "rounding \<Rightarrow> string \<Rightarrow> typed_value" where
  "classify_value rnd raw =
     (let t = trim_space raw;
          base = plain_value raw
      in if t = [] then base KindBlank
         else if to_lower t = ''true'' then (base KindBool)\<lparr>tv_bool := True\<rparr>
         else if to_lower t = ''false'' then base KindBool
         else
           or_else (map_option (\<lambda>v. (base KindDateTime)\<lparr>tv_time := v\<rparr>) (only_if (date_time_re t) (parse_date_time t)))
          (or_else (map_option (\<lambda>v. (base KindDate)\<lparr>tv_time := v\<rparr>) (only_if (date_re t) (parse_date t)))
          (or_else (map_option (\<lambda>v. (base KindTime)\<lparr>tv_time := v\<rparr>) (only_if (time_re t) (parse_time_of_day t)))
          (or_else (map_option (\<lambda>i. (base KindInt)\<lparr>tv_int := i, tv_float := rnd (of_int i)\<rparr>) (only_if (int_re t) (atoi t)))
          (or_else (map_option (\<lambda>f. (base KindFloat)\<lparr>tv_float := f\<rparr>) (only_if (float_re t) (parse_float rnd t)))
          (base KindText))))))"

abbreviation kind_of :: "rounding \<Rightarrow> string \<Rightarrow> kind" where
  "kind_of rnd raw \<equiv> tv_kind (classify_value rnd raw)"

section \<open>Column inference\<close>

definition merge_kind :: "kind \<Rightarrow> kind \<Rightarrow> kind" where
  "merge_kind k nxt =
     (if nxt = KindBlank then k
      else if k = KindBlank \<or> k = nxt then nxt
      else if k = KindInt \<and> nxt = KindFloat \<or> k = KindFloat \<and> nxt = KindInt then KindFloat
      else KindText)"

text \<open>The loop of \<^verbatim>\<open>InferColumn\<close>, which stops at the first text.\<close>

fun infer_from :: "rounding \<Rightarrow> kind \<Rightarrow> string list \<Rightarrow> kind" where
  "infer_from rnd k [] = (if k = KindBlank then KindText else k)"
| "infer_from rnd k (raw # raws) =
     (let k' = merge_kind k (kind_of rnd raw)
      in if k' = KindText then k' else infer_from rnd k' raws)"

definition infer_column :: "rounding \<Rightarrow> string list \<Rightarrow> kind" where
  "infer_column rnd raws = infer_from rnd KindBlank raws"

text \<open>\<^verbatim>\<open>InferColumns\<close> has its own loop over the rows, which skips rows that are too short.\<close>

fun infer_rows :: "rounding \<Rightarrow> nat \<Rightarrow> kind \<Rightarrow> string list list \<Rightarrow> kind" where
  "infer_rows rnd col k [] = (if k = KindBlank then KindText else k)"
| "infer_rows rnd col k (row # rows) =
     (if length row \<le> col then infer_rows rnd col k rows
      else let k' = merge_kind k (kind_of rnd (row ! col))
           in if k' = KindText then k' else infer_rows rnd col k' rows)"

definition infer_columns :: "rounding \<Rightarrow> string list list \<Rightarrow> nat \<Rightarrow> kind list" where
  "infer_columns rnd rows n = map (\<lambda>col. infer_rows rnd col KindBlank rows) [0..<n]"

section \<open>Conversions\<close>

text \<open>\<^verbatim>\<open>strconv.FormatInt\<close> in base ten.\<close>

definition int_text :: "int \<Rightarrow> string" where
  "int_text i = (if i < 0 then ''-'' @ nat_digits (nat (- i)) else nat_digits (nat i))"


datatype json_scalar = JNull | JText string | JInt int | JFloat float_value | JBool bool

definition json_value :: "rounding \<Rightarrow> string \<Rightarrow> kind \<Rightarrow> json_scalar" where
  "json_value rnd raw k =
     (if trim_space raw = [] then JNull
      else if k \<noteq> KindFloat \<and> k \<noteq> KindInt \<and> k \<noteq> KindBool then JText raw
      else let v = classify_value rnd raw in
        if k = KindInt \<and> tv_kind v = KindInt then JInt (tv_int v)
        else if k = KindFloat \<and> (tv_kind v = KindFloat \<or> tv_kind v = KindInt) then JFloat (tv_float v)
        else if k = KindBool \<and> tv_kind v = KindBool then JBool (tv_bool v)
        else JText raw)"

text \<open>Days since the day before January 1 of year 1 in the proleptic Gregorian calendar.\<close>

definition day_number :: "time_value \<Rightarrow> int" where
  "day_number t =
     (let y = tm_year t - 1
      in 365 * y + y div 4 - y div 100 + y div 400
         + int (sum_list (take (tm_month t - 1) (month_lengths (tm_year t)))) + int (tm_day t))"

definition excel_base :: time_value where
  "excel_base = zero_time\<lparr>tm_year := 1899, tm_month := 12, tm_day := 30\<rparr>"

definition instant_nanos :: "time_value \<Rightarrow> int" where
  "instant_nanos t =
     (((day_number t * 24 + int (tm_hour t)) * 60 + int (tm_minute t)) * 60 + int (tm_second t) - tm_offset t)
       * 1000000000 + int (tm_nanos t)"

text \<open>\<^verbatim>\<open>Time.Sub\<close> saturates at the bounds of a 64-bit number of nanoseconds.\<close>

definition time_sub :: "time_value \<Rightarrow> time_value \<Rightarrow> int" where
  "time_sub t u = max (- max_int64 - 1) (min max_int64 (instant_nanos t - instant_nanos u))"

definition nanos_per_hour :: int where
  "nanos_per_hour = 3600000000000"

text \<open>\<^verbatim>\<open>Duration.Hours\<close>; Go's division truncates.\<close>

definition duration_hours :: "rounding \<Rightarrow> int \<Rightarrow> float_value" where
  "duration_hours rnd d =
     (let whole = sgn d * (\<bar>d\<bar> div nanos_per_hour)
      in float_plus rnd (rnd (of_int whole))
           (float_div rnd (rnd (of_int (d - whole * nanos_per_hour))) (Finite (of_int nanos_per_hour))))"

definition excel_serial :: "rounding \<Rightarrow> typed_value \<Rightarrow> kind \<Rightarrow> float_value option" where
  "excel_serial rnd v k =
     (if tv_kind v = KindBlank then None
      else if k = KindDate \<or> k = KindDateTime
      then Some (float_div rnd (duration_hours rnd (time_sub (tv_time v) excel_base)) (Finite 24))
      else if k = KindTime
      then let t = tv_time v; secs = tm_hour t * 3600 + tm_minute t * 60 + tm_second t
           in Some (float_div rnd (float_plus rnd (rnd (of_nat secs))
                     (float_div rnd (rnd (of_nat (tm_nanos t))) (Finite 1000000000))) (Finite 86400))
      else None)"

end
