(* ===== verification/Importer.thy ===== *)
theory Importer
  imports GoUtf8 TypedValues DbNames
begin

text \<open>
  \<^verbatim>\<open>internal/importer\<close>: decoding of delimited text, header detection and column names, the SQL
  texts of an import and \<open>import_records\<close>, which every format ends in; then the front ends for
  decoded objects (JSON, YAML, TOML), XML, fixed-width and INI files.  The database is the parameter
  \<open>exec\<close>, which answers a text with an error message or none and a new state; the CSV, JSON, YAML, TOML
  and XML decoders are parameters, and a decoded object is a list of pairs in the order Go's map
  iteration happens to take.
\<close>

section \<open>Decoding\<close>

datatype decode_error = Odd_Length | Binary_Input

definition utf8_bom :: string where
  "utf8_bom = [CHR 0xEF, CHR 0xBB, CHR 0xBF]"

text \<open>The 16-bit words of a byte string of even length.\<close>

fun words_of :: "bool \<Rightarrow> string \<Rightarrow> nat list" where
  "words_of little (a # b # s) =
     (if little then of_char a + 256 * of_char b else of_char b + 256 * of_char a) # words_of little s"
| "words_of little _ = []"

definition decode_delimited_text :: "string \<Rightarrow> decode_error + (string \<times> string)" where
  "decode_delimited_text input =
     (let bytes = (if prefix utf8_bom input then drop 3 input else input) in
      if prefix [CHR 0xFF, CHR 0xFE] bytes \<or> prefix [CHR 0xFE, CHR 0xFF] bytes
      then if odd (length (drop 2 bytes)) then Inl Odd_Length
           else Inr (encode_runes (utf16_decode (words_of (hd bytes = CHR 0xFF) (drop 2 bytes))), ''utf-16'')
      else if \<not> utf8_valid bytes
      then if CHR 0x00 \<in> set bytes then Inl Binary_Input
           else Inr (encode_runes (map of_char bytes), ''iso-8859-1'')
      else Inr (bytes, ''utf-8''))"

section \<open>Names\<close>

definition identifier_re :: "string \<Rightarrow> bool" where
  "identifier_re s \<longleftrightarrow> s \<noteq> [] \<and> list_all is_name_byte s \<and> \<not> is_digit_byte (hd s)"

text \<open>A rune that may stand in a name; a digit may not come first.\<close>

definition name_rune :: "bool \<Rightarrow> nat \<Rightarrow> bool" where
  "name_rune first r \<longleftrightarrow>
     r = 95 \<or> 65 \<le> r \<and> r \<le> 90 \<or> 97 \<le> r \<and> r \<le> 122 \<or> \<not> first \<and> 48 \<le> r \<and> r \<le> 57"

definition name_bytes :: "bool \<Rightarrow> nat list \<Rightarrow> string" where
  "name_bytes first rs = map (\<lambda>r. if name_rune first r then char_of r else CHR ''_'') rs"

definition trim_byte :: "char \<Rightarrow> string \<Rightarrow> string" where
  "trim_byte c s = rev (dropWhile ((=) c) (rev (dropWhile ((=) c) s)))"

definition sanitize_column :: "string \<Rightarrow> string \<Rightarrow> string" where
  "sanitize_column s fallback =
     (let t = trim_space s in
      if t = [] then fallback
      else let runes = decode_runes t;
               out = trim_byte (CHR ''_'') (name_bytes True (take 1 runes) @ name_bytes False (drop 1 runes))
           in if out = [] \<or> is_digit_byte (hd out) then fallback else out)"

text \<open>\<^verbatim>\<open>fmt.Sprintf("col_%d", i+1)\<close> for the column with index \<open>i\<close>.\<close>

definition default_column :: "nat \<Rightarrow> string" where
  "default_column i = ''col_'' @ nat_digits (i + 1)"

text \<open>
  \<open>is_number\<close> stands for a successful \<^verbatim>\<open>strconv.ParseFloat\<close>; both outcomes of the scan of the second
  record return true in the code.
\<close>

definition has_header :: "(string \<Rightarrow> bool) \<Rightarrow> string list list \<Rightarrow> string \<Rightarrow> bool" where
  "has_header is_number records mode =
     (let m = to_lower (trim_space mode) in
      if m = ''present'' then True
      else if m = ''absent'' then False
      else if length records < 2 then True
      else if list_ex (\<lambda>v. \<not> identifier_re (trim_space v)) (records ! 0) then False
      else if list_ex (\<lambda>v. is_number (trim_space v)) (records ! 1) then True
      else True)"

section \<open>SQL texts\<close>

definition import_quote_ident :: "string \<Rightarrow> string" where
  "import_quote_ident s = [CHR 0x22] @ replace_byte (CHR 0x22) [CHR 0x22, CHR 0x22] s @ [CHR 0x22]"

definition join_quoted :: "string list \<Rightarrow> string" where
  "join_quoted columns = join_with '', '' (map import_quote_ident columns)"

definition sql_literal :: "string \<Rightarrow> string" where
  "sql_literal s = [CHR 0x27] @ replace_byte (CHR 0x27) [CHR 0x27, CHR 0x27] s @ [CHR 0x27]"

fun sql_type :: "kind \<Rightarrow> string" where
  "sql_type KindInt = ''INT''"
| "sql_type KindFloat = ''FLOAT''"
| "sql_type KindBool = ''BOOL''"
| "sql_type KindDate = ''DATE''"
| "sql_type KindTime = ''TIME''"
| "sql_type KindDateTime = ''DATETIME''"
| "sql_type _ = ''TEXT''"

datatype col_type = IntType | FloatType | BoolType | DateType | TimeType | DateTimeType | TextType

fun tinysql_type :: "kind \<Rightarrow> col_type" where
  "tinysql_type KindInt = IntType"
| "tinysql_type KindFloat = FloatType"
| "tinysql_type KindBool = BoolType"
| "tinysql_type KindDate = DateType"
| "tinysql_type KindTime = TimeType"
| "tinysql_type KindDateTime = DateTimeType"
| "tinysql_type _ = TextType"

text \<open>\<open>rnd\<close> rounds to \<^verbatim>\<open>float64\<close> and \<open>fmt\<close> prints one with \<^verbatim>\<open>strconv.FormatFloat(f, 'g', -1, 64)\<close>.\<close>

definition typed_sql_literal :: "rounding \<Rightarrow> (float_value \<Rightarrow> string) \<Rightarrow> string \<Rightarrow> kind \<Rightarrow> string" where
  "typed_sql_literal rnd fmt raw k =
     (let v = classify_value rnd raw in
      if tv_kind v = KindBlank then ''NULL''
      else if k = KindInt \<and> tv_kind v = KindInt then int_text (tv_int v)
      else if k = KindFloat \<and> (tv_kind v = KindFloat \<or> tv_kind v = KindInt) then fmt (tv_float v)
      else if k = KindBool \<and> tv_kind v = KindBool then (if tv_bool v then ''TRUE'' else ''FALSE'')
      else if (k = KindDate \<or> k = KindTime \<or> k = KindDateTime) \<and> tv_kind v = k
      then sql_literal (trim_space raw)
      else sql_literal raw)"

definition create_statement :: "string \<Rightarrow> string list \<Rightarrow> kind list \<Rightarrow> string" where
  "create_statement table columns kinds =
     ''CREATE TABLE '' @ import_quote_ident table @ '' (''
       @ join_with '', '' (map2 (\<lambda>col k. import_quote_ident col @ '' '' @ sql_type k) columns kinds) @ '')''"

definition truncate_statement :: "string \<Rightarrow> string" where
  "truncate_statement table = ''DELETE FROM '' @ import_quote_ident table"

text \<open>A record that is too short is filled with nulls, one that is too long is cut.\<close>

definition record_literals ::
  "rounding \<Rightarrow> (float_value \<Rightarrow> string) \<Rightarrow> nat \<Rightarrow> kind list \<Rightarrow> string list \<Rightarrow> string list" where
  "record_literals rnd fmt n kinds rec =
     map (\<lambda>i. if i < length rec then typed_sql_literal rnd fmt (rec ! i) (kinds ! i) else ''NULL'') [0..<n]"

definition insert_statement ::
  "rounding \<Rightarrow> (float_value \<Rightarrow> string) \<Rightarrow> string \<Rightarrow> string list \<Rightarrow> kind list \<Rightarrow> string list \<Rightarrow> string" where
  "insert_statement rnd fmt table columns kinds rec =
     ''INSERT INTO '' @ import_quote_ident table @ '' ('' @ join_quoted columns @ '') VALUES (''
       @ join_with '', '' (record_literals rnd fmt (length columns) kinds rec) @ '')''"

section \<open>Importing records\<close>

record import_options =
  io_header_mode :: string
  io_create_table :: bool
  io_truncate :: bool
  io_type_inference :: bool
  io_strict_types :: bool
  io_delimiters :: "nat list"

definition default_options :: import_options where
  "default_options = \<lparr>io_header_mode = [], io_create_table = False, io_truncate = False,
     io_type_inference = False, io_strict_types = False, io_delimiters = []\<rparr>"

definition normalize_options :: "import_options option \<Rightarrow> import_options" where
  "normalize_options opts =
     (let o' = (case opts of None \<Rightarrow> default_options | Some given \<Rightarrow> given)
      in if io_header_mode o' = [] then o'\<lparr>io_header_mode := ''auto''\<rparr> else o')"

record import_result =
  ir_inserted :: nat
  ir_skipped :: nat
  ir_delimiter :: nat
  ir_had_header :: bool
  ir_encoding :: string
  ir_line_ending :: string
  ir_columns :: "string list"
  ir_types :: "col_type list"
  ir_errors :: "string list"

definition empty_result :: "nat \<Rightarrow> import_result" where
  "empty_result delimiter =
     \<lparr>ir_inserted = 0, ir_skipped = 0, ir_delimiter = delimiter, ir_had_header = False,
      ir_encoding = ''utf-8'', ir_line_ending = [CHR 0x0A], ir_columns = [], ir_types = [], ir_errors = []\<rparr>"

type_synonym 'db exec = "'db \<Rightarrow> string \<Rightarrow> string option \<times> 'db"

text \<open>The environment of an import: rounding, number formatting, number recognition, the database.\<close>

record 'db import_env =
  ie_round :: rounding
  ie_format :: "float_value \<Rightarrow> string"
  ie_number :: "string \<Rightarrow> bool"
  ie_exec :: "'db exec"

text \<open>The loop over the records; a failed insert is counted, or ends a strict import.\<close>

fun insert_records ::
  "'db import_env \<Rightarrow> string \<Rightarrow> bool \<Rightarrow> string list \<Rightarrow> kind list \<Rightarrow> string list list \<Rightarrow> import_result \<Rightarrow> 'db
     \<Rightarrow> (string + import_result) \<times> 'db" where
  "insert_records env table strict columns kinds [] res db = (Inr res, db)"
| "insert_records env table strict columns kinds (rec # recs) res db =
     (case ie_exec env db (insert_statement (ie_round env) (ie_format env) table columns kinds rec) of
        (None, db') \<Rightarrow>
          insert_records env table strict columns kinds recs (res\<lparr>ir_inserted := ir_inserted res + 1\<rparr>) db'
      | (Some e, db') \<Rightarrow>
          if strict then (Inl e, db')
          else insert_records env table strict columns kinds recs
                 (res\<lparr>ir_skipped := ir_skipped res + 1, ir_errors := ir_errors res @ [e]\<rparr>) db')"

definition column_names :: "bool \<Rightarrow> string list \<Rightarrow> string list" where
  "column_names header names =
     map (\<lambda>i. if header then sanitize_column (names ! i) (default_column i) else default_column i)
       [0..<length names]"

text \<open>A table that exists already is not an error of \<^verbatim>\<open>CREATE TABLE\<close>.\<close>

definition tolerated :: "string \<Rightarrow> bool" where
  "tolerated e = contains_sub ''already exists'' (to_lower e)"

definition import_rows_after ::
  "'db import_env \<Rightarrow> string \<Rightarrow> import_options \<Rightarrow> string list \<Rightarrow> kind list \<Rightarrow> string list list \<Rightarrow> import_result
     \<Rightarrow> 'db \<Rightarrow> (string + import_result) \<times> 'db" where
  "import_rows_after env table opts columns kinds data res db =
     (case (if io_truncate opts then ie_exec env db (truncate_statement table) else (None, db)) of
        (Some e, db') \<Rightarrow> (Inl e, db')
      | (None, db') \<Rightarrow> insert_records env table (io_strict_types opts) columns kinds data res db')"

definition import_records ::
  "'db import_env \<Rightarrow> string \<Rightarrow> string list list \<Rightarrow> nat \<Rightarrow> import_options \<Rightarrow> 'db
     \<Rightarrow> (string + import_result) \<times> 'db" where
  "import_records env table records delimiter opts db =
     (let res = empty_result delimiter in
      if records = [] then (Inr res, db)
      else
        let header = has_header (ie_number env) records (io_header_mode opts);
            columns = column_names header (hd records);
            data = (if header then tl records else records);
            kinds = (if io_type_inference opts then infer_columns (ie_round env) data (length columns)
                     else replicate (length columns) KindText);
            res = res\<lparr>ir_had_header := header, ir_columns := columns, ir_types := map tinysql_type kinds\<rparr>;
            created = (if io_create_table opts then ie_exec env db (create_statement table columns kinds)
                       else (None, db))
        in case created of
             (Some e, db1) \<Rightarrow>
               if tolerated e then import_rows_after env table opts columns kinds data res db1 else (Inl e, db1)
           | (None, db1) \<Rightarrow> import_rows_after env table opts columns kinds data res db1)"

end
