(* ===== verification/FileFormats.thy ===== *)
theory FileFormats
  imports Importer
begin

text \<open>
  The front ends of \<^verbatim>\<open>internal/importer\<close> that bring a file into records: CSV, decoded objects (JSON,
  NDJSON, YAML), TOML, the XML export format, fixed-width text (\<^verbatim>\<open>fixedwidth.go\<close>) and INI files
  (\<^verbatim>\<open>ini.go\<close>).  Each ends in \<open>import_records\<close>.
\<close>

section \<open>CSV\<close>

definition decode_message :: "decode_error \<Rightarrow> string" where
  "decode_message e =
     (case e of
        Odd_Length \<Rightarrow> ''UTF-16 delimited input has an odd byte length''
      | Binary_Input \<Rightarrow> ''delimited input is binary; import binary values through a typed BLOB source'')"

definition with_encoding :: "string \<Rightarrow> (string + import_result) \<times> 'db \<Rightarrow> (string + import_result) \<times> 'db" where
  "with_encoding enc out =
     (case out of
        (Inr res, db) \<Rightarrow> (Inr (res\<lparr>ir_encoding := enc\<rparr>), db)
      | (Inl e, db) \<Rightarrow> (Inl e, db))"

definition csv_delimiter :: "import_options \<Rightarrow> string \<Rightarrow> nat" where
  "csv_delimiter opts content =
     (if io_delimiters opts \<noteq> [] then hd (io_delimiters opts)
      else if count_list content (CHR 0x09) > count_list content (CHR '','') then 9
      else 44)"

definition import_csv ::
  "'db import_env \<Rightarrow> (nat \<Rightarrow> string \<Rightarrow> string + string list list) \<Rightarrow> string \<Rightarrow> string
     \<Rightarrow> import_options option \<Rightarrow> 'db \<Rightarrow> (string + import_result) \<times> 'db" where
  "import_csv env read_csv table input given db =
     (let opts = normalize_options given in
      case decode_delimited_text input of
        Inl e \<Rightarrow> (Inl (decode_message e), db)
      | Inr (content, enc) \<Rightarrow>
          (let delimiter = csv_delimiter opts content in
           case read_csv delimiter content of
             Inl e \<Rightarrow> (Inl e, db)
           | Inr records \<Rightarrow> with_encoding enc (import_records env table records delimiter opts db)))"

section \<open>Objects\<close>

text \<open>An object: its keys in iteration order, a null or the printed value for each.\<close>

type_synonym object = "(string \<times> string option) list"

text \<open>Each key once, where it is first met.\<close>

fun first_seen :: "string list \<Rightarrow> string list \<Rightarrow> string list" where
  "first_seen seen [] = []"
| "first_seen seen (k # ks) = (if k \<in> set seen then first_seen seen ks else k # first_seen (k # seen) ks)"

definition ordered_json_columns :: "object list \<Rightarrow> string list" where
  "ordered_json_columns objs = first_seen [] (concat (map (map fst) objs))"

definition object_record :: "string list \<Rightarrow> object \<Rightarrow> string list" where
  "object_record columns obj =
     map (\<lambda>col. case map_of obj col of Some (Some v) \<Rightarrow> v | _ \<Rightarrow> []) columns"

definition import_objects ::
  "'db import_env \<Rightarrow> string \<Rightarrow> object list \<Rightarrow> import_options option \<Rightarrow> 'db \<Rightarrow> (string + import_result) \<times> 'db" where
  "import_objects env table objs given db =
     (let opts = normalize_options given;
          columns = ordered_json_columns objs;
          records = columns # map (object_record columns) objs
      in import_records env table records 44 (opts\<lparr>io_header_mode := ''present''\<rparr>) db)"

text \<open>Import through a decoder: JSON, NDJSON and YAML differ in the decoder only.\<close>

definition import_decoded ::
  "'db import_env \<Rightarrow> (string \<Rightarrow> string + object list) \<Rightarrow> string \<Rightarrow> string \<Rightarrow> import_options option \<Rightarrow> 'db
     \<Rightarrow> (string + import_result) \<times> 'db" where
  "import_decoded env decode table input given db =
     (case decode input of Inl e \<Rightarrow> (Inl e, db) | Inr objs \<Rightarrow> import_objects env table objs given db)"

section \<open>TOML\<close>

datatype toml_value =
  Toml_Scalar string
| Toml_Table "(string \<times> toml_value) list"
| Toml_Tables "(string \<times> toml_value) list list"
| Toml_Array "toml_value list"

text \<open>\<open>to_json\<close> stands for \<^verbatim>\<open>mustJSON\<close>, the JSON text of a nested value.\<close>

definition normalize_toml_value :: "(toml_value \<Rightarrow> string) \<Rightarrow> toml_value \<Rightarrow> string option" where
  "normalize_toml_value to_json v = (case v of Toml_Scalar s \<Rightarrow> Some s | _ \<Rightarrow> Some (to_json v))"

definition normalize_toml_table :: "(toml_value \<Rightarrow> string) \<Rightarrow> (string \<times> toml_value) list \<Rightarrow> object" where
  "normalize_toml_table to_json row = map (\<lambda>(k, v). (k, normalize_toml_value to_json v)) row"

fun as_table :: "toml_value \<Rightarrow> (string \<times> toml_value) list option" where
  "as_table (Toml_Table row) = Some row"
| "as_table _ = None"

text \<open>The first key that holds an array of tables, in either form the decoder produces.\<close>

fun toml_array_of_tables :: "(toml_value \<Rightarrow> string) \<Rightarrow> (string \<times> toml_value) list \<Rightarrow> object list option" where
  "toml_array_of_tables to_json [] = None"
| "toml_array_of_tables to_json ((k, v) # doc) =
     (case v of
        Toml_Tables rows \<Rightarrow> Some (map (normalize_toml_table to_json) rows)
      | Toml_Array items \<Rightarrow>
          if items \<noteq> [] \<and> list_all (\<lambda>i. as_table i \<noteq> None) items
          then Some (map (\<lambda>i. normalize_toml_table to_json (the (as_table i))) items)
          else toml_array_of_tables to_json doc
      | _ \<Rightarrow> toml_array_of_tables to_json doc)"

definition import_toml ::
  "'db import_env \<Rightarrow> (toml_value \<Rightarrow> string) \<Rightarrow> (string \<Rightarrow> string + (string \<times> toml_value) list) \<Rightarrow> string \<Rightarrow> string
     \<Rightarrow> import_options option \<Rightarrow> 'db \<Rightarrow> (string + import_result) \<times> 'db" where
  "import_toml env to_json decode table input given db =
     (case decode input of
        Inl e \<Rightarrow> (Inl e, db)
      | Inr doc \<Rightarrow>
          (case toml_array_of_tables to_json doc of
             Some rows \<Rightarrow> import_objects env table rows given db
           | None \<Rightarrow> import_objects env table [normalize_toml_table to_json doc] given db))"

section \<open>XML\<close>

record xml_doc =
  xd_columns :: "string list"
  xd_rows :: "(string \<times> string) list list"

definition xml_columns :: "xml_doc \<Rightarrow> string list" where
  "xml_columns doc =
     (if xd_columns doc = []
      then first_seen [] (filter (\<lambda>c. c \<noteq> []) (concat (map (map fst) (xd_rows doc))))
      else xd_columns doc)"

text \<open>Of two cells of a row with one name the last wins.\<close>

definition xml_record :: "string list \<Rightarrow> (string \<times> string) list \<Rightarrow> string list" where
  "xml_record columns cells =
     map (\<lambda>col. case map_of (rev cells) col of Some v \<Rightarrow> v | None \<Rightarrow> []) columns"

definition import_xml ::
  "'db import_env \<Rightarrow> (string \<Rightarrow> string + xml_doc) \<Rightarrow> string \<Rightarrow> string \<Rightarrow> import_options option \<Rightarrow> 'db
     \<Rightarrow> (string + import_result) \<times> 'db" where
  "import_xml env decode table input given db =
     (case decode input of
        Inl e \<Rightarrow> (Inl e, db)
      | Inr doc \<Rightarrow>
          (let columns = xml_columns doc;
               opts = normalize_options given
           in if columns = [] then (Inr (empty_result 0), db)
              else import_records env table (columns # map (xml_record columns) (xd_rows doc)) 44
                     (opts\<lparr>io_header_mode := ''present''\<rparr>) db))"

section \<open>Fixed-width text\<close>

fun crlf_to_lf :: "string \<Rightarrow> string" where
  "crlf_to_lf (a # b # s) =
     (if a = CHR 0x0D \<and> b = CHR 0x0A then b # crlf_to_lf s else a # crlf_to_lf (b # s))"
| "crlf_to_lf s = s"

definition trim_right_byte :: "char \<Rightarrow> string \<Rightarrow> string" where
  "trim_right_byte c s = rev (dropWhile ((=) c) (rev s))"

definition split_non_empty_lines :: "string \<Rightarrow> string list" where
  "split_non_empty_lines content =
     filter (\<lambda>line. trim_space line \<noteq> [])
       (map (trim_right_byte (CHR 0x0D)) (split_on (CHR 0x0A) (crlf_to_lf content)))"

definition is_blank_rune :: "nat \<Rightarrow> bool" where
  "is_blank_rune r \<longleftrightarrow> r = 32 \<or> r = 9"

text \<open>A position that is blank, or past the end, in every line.\<close>

definition is_gap :: "nat list list \<Rightarrow> nat \<Rightarrow> bool" where
  "is_gap rows pos = list_all (\<lambda>r. length r \<le> pos \<or> is_blank_rune (r ! pos)) rows"

text \<open>The loop over the positions: \<open>open\<close> is the start of the field it is in, if any.\<close>

fun field_scan :: "bool list \<Rightarrow> nat \<Rightarrow> nat option \<Rightarrow> (nat \<times> nat) list" where
  "field_scan [] pos None = []"
| "field_scan [] pos (Some start) = [(start, pos)]"
| "field_scan (gap # gaps) pos None = field_scan gaps (Suc pos) (if gap then None else Some pos)"
| "field_scan (gap # gaps) pos (Some start) =
     (if gap then (start, pos) # field_scan gaps (Suc pos) None
      else field_scan gaps (Suc pos) (Some start))"

definition max_length :: "'a list list \<Rightarrow> nat" where
  "max_length rows = foldl (\<lambda>n r. if n < length r then length r else n) 0 rows"

definition infer_fixed_width_fields :: "string list \<Rightarrow> (nat \<times> nat) list" where
  "infer_fixed_width_fields lines =
     (let rows = map decode_runes lines
      in field_scan (map (is_gap rows) [0..<max_length rows]) 0 None)"

definition slice_runes :: "nat list \<Rightarrow> nat \<times> nat \<Rightarrow> nat list" where
  "slice_runes r field =
     (case field of (start, stop) \<Rightarrow>
        let start = min start (length r); stop = min stop (length r); start = min start stop
        in take (stop - start) (drop start r))"

definition slice_fixed_width_fields :: "string \<Rightarrow> (nat \<times> nat) list \<Rightarrow> string list" where
  "slice_fixed_width_fields line spans =
     map (\<lambda>f. trim_space (encode_runes (slice_runes (decode_runes line) f))) spans"

definition import_fixed_width ::
  "'db import_env \<Rightarrow> string \<Rightarrow> string \<Rightarrow> import_options option \<Rightarrow> 'db \<Rightarrow> (string + import_result) \<times> 'db" where
  "import_fixed_width env table input given db =
     (let opts = normalize_options given in
      case decode_delimited_text input of
        Inl e \<Rightarrow> (Inl (decode_message e), db)
      | Inr (content, enc) \<Rightarrow>
          (let lines = split_non_empty_lines content;
               spans = infer_fixed_width_fields lines
           in if lines = [] then (Inl ''fixed-width file contains no non-blank lines'', db)
              else if spans = []
              then (Inl ''could not infer any fixed-width column boundaries from this file'', db)
              else with_encoding enc
                     (import_records env table (map (\<lambda>l. slice_fixed_width_fields l spans) lines) 32 opts db)))"

section \<open>INI files\<close>

definition ini_default_section_name :: string where
  "ini_default_section_name = ''(default)''"

text \<open>A Go map with string keys: pairs with distinct keys.\<close>

fun put_key :: "string \<Rightarrow> 'v \<Rightarrow> (string \<times> 'v) list \<Rightarrow> (string \<times> 'v) list" where
  "put_key k v [] = [(k, v)]"
| "put_key k v ((k', v') # ps) = (if k' = k then (k, v) # ps else (k', v') # put_key k v ps)"

record ini_state =
  is_current :: string
  is_sections :: "string \<Rightarrow> (string \<times> string) list option"
  is_order :: "string list"

definition ensure_section :: "string \<Rightarrow> ini_state \<Rightarrow> ini_state" where
  "ensure_section name st =
     (if is_sections st name = None
      then st\<lparr>is_sections := (is_sections st)(name \<mapsto> []), is_order := is_order st @ [name]\<rparr>
      else st)"

definition unquote_ini_value :: "string \<Rightarrow> string" where
  "unquote_ini_value v =
     (if 2 \<le> length v \<and> (hd v = CHR 0x22 \<and> last v = CHR 0x22 \<or> hd v = CHR 0x27 \<and> last v = CHR 0x27)
      then butlast (tl v) else v)"

definition split_ini_line :: "string \<Rightarrow> (string \<times> string) option" where
  "split_ini_line line =
     (let before = takeWhile (\<lambda>c. c \<noteq> CHR ''='' \<and> c \<noteq> CHR '':'') line;
          rest = dropWhile (\<lambda>c. c \<noteq> CHR ''='' \<and> c \<noteq> CHR '':'') line;
          key = trim_space before
      in if rest = [] \<or> key = [] then None
         else Some (key, unquote_ini_value (trim_space (tl rest))))"

text \<open>One line; \<open>None\<close> is the error, which the caller reports with the line number.\<close>

definition ini_line :: "string \<Rightarrow> ini_state \<Rightarrow> ini_state option" where
  "ini_line raw st =
     (let line = trim_space raw in
      if line = [] \<or> prefix '';'' line \<or> prefix ''#'' line then Some st
      else if prefix ''['' line \<and> suffix '']'' line
      then let name = trim_space (butlast (tl line)) in Some (ensure_section name (st\<lparr>is_current := name\<rparr>))
      else case split_ini_line line of
             None \<Rightarrow> None
           | Some (key, value) \<Rightarrow>
               let st' = ensure_section (is_current st) st
               in Some (st'\<lparr>is_sections := (is_sections st')
                     (is_current st \<mapsto> put_key key value (the (is_sections st' (is_current st))))\<rparr>))"

fun ini_lines :: "nat \<Rightarrow> string list \<Rightarrow> ini_state \<Rightarrow> nat + ini_state" where
  "ini_lines n [] st = Inr st"
| "ini_lines n (raw # raws) st =
     (case ini_line raw st of None \<Rightarrow> Inl n | Some st' \<Rightarrow> ini_lines (Suc n) raws st')"

definition drop_empty_default :: "ini_state \<Rightarrow> ini_state" where
  "drop_empty_default st =
     (if is_sections st [] = Some []
      then st\<lparr>is_sections := (is_sections st)([] := None), is_order := filter (\<lambda>n. n \<noteq> []) (is_order st)\<rparr>
      else st)"

definition ini_start :: ini_state where
  "ini_start = \<lparr>is_current = [], is_sections = (\<lambda>_. None), is_order = []\<rparr>"

text \<open>The error is the number of the first line that is no header, comment or pair, from 1.\<close>

definition parse_ini :: "string \<Rightarrow> nat + ini_state" where
  "parse_ini content =
     (case ini_lines 1 (split_on (CHR 0x0A) (crlf_to_lf content)) ini_start of
        Inl n \<Rightarrow> Inl n
      | Inr st \<Rightarrow> Inr (drop_empty_default st))"

definition ini_row :: "ini_state \<Rightarrow> string \<Rightarrow> (string \<times> string) list" where
  "ini_row st name =
     foldl (\<lambda>row (k, v). put_key k v row)
       [(''section'', if name = [] then ini_default_section_name else name)]
       (case is_sections st name of None \<Rightarrow> [] | Some entries \<Rightarrow> entries)"

text \<open>\<open>iterate\<close> is the order in which Go's map iteration meets the keys of a row.\<close>

definition import_ini ::
  "'db import_env \<Rightarrow> (object \<Rightarrow> object) \<Rightarrow> (nat \<Rightarrow> string) \<Rightarrow> string \<Rightarrow> string \<Rightarrow> import_options option \<Rightarrow> 'db
     \<Rightarrow> (string + import_result) \<times> 'db" where
  "import_ini env iterate line_error table input given db =
     (case parse_ini input of
        Inl n \<Rightarrow> (Inl (line_error n), db)
      | Inr st \<Rightarrow>
          if is_order st = [] then (Inl ''ini file contains no sections or key/value pairs'', db)
          else import_objects env table
                 (map (\<lambda>name. iterate (map (\<lambda>(k, v). (k, Some v)) (ini_row st name))) (is_order st)) given db)"

end
