(* ===== verification/TypedCorrect.thy ===== *)
theory TypedCorrect
  imports TypedValues
begin

text \<open>
  What the classification of cells guarantees: which texts have which kind, that a column's kind is
  the least one that covers its cells, that an integer keeps its text, and what a date becomes in a
  spreadsheet.
\<close>

section \<open>Kinds\<close>

lemma plain_value_simps [simp]:
  "tv_raw (plain_value raw k) = raw" "tv_kind (plain_value raw k) = k"
  "tv_bool (plain_value raw k) = False"
  by (simp_all add: plain_value_def)

lemma or_else_simps [simp]: "or_else None y = y" "or_else (Some v) y = v"
  by (simp_all add: or_else_def)

lemma only_if_simps [simp]: "only_if True x = x" "only_if False x = None"
  by (simp_all add: only_if_def)

lemma only_if_Some: "only_if b x = Some v \<longleftrightarrow> b \<and> x = Some v"
  by (simp add: only_if_def)

lemma classify_blank: "kind_of rnd raw = KindBlank \<longleftrightarrow> trim_space raw = []"
  by (auto simp: classify_value_def Let_def or_else_def split: option.splits)

lemma classify_raw [simp]: "tv_raw (classify_value rnd raw) = raw"
  by (auto simp: classify_value_def Let_def or_else_def split: option.splits)

text \<open>One alternative of the chain: an attempt that fails leaves the rest of the chain.\<close>

lemma or_else_case:
  "(\<And>v. x = Some v \<Longrightarrow> P v) \<Longrightarrow> (x = None \<Longrightarrow> P y) \<Longrightarrow> P (or_else x y)"
  by (cases x) simp_all

definition classified_as :: "rounding \<Rightarrow> string \<Rightarrow> typed_value \<Rightarrow> bool" where
  "classified_as rnd t v \<longleftrightarrow>
     (case tv_kind v of
        KindBlank \<Rightarrow> t = []
      | KindText \<Rightarrow> t \<noteq> []
      | KindInt \<Rightarrow> int_re t \<and> atoi t = Some (tv_int v) \<and> tv_float v = rnd (of_int (tv_int v))
      | KindFloat \<Rightarrow> float_re t \<and> parse_float rnd t = Some (tv_float v)
      | KindBool \<Rightarrow> to_lower t = (if tv_bool v then ''true'' else ''false'')
      | KindDate \<Rightarrow> date_re t \<and> parse_date t = Some (tv_time v)
      | KindTime \<Rightarrow> time_re t \<and> parse_time_of_day t = Some (tv_time v)
      | KindDateTime \<Rightarrow> date_time_re t \<and> parse_date_time t = Some (tv_time v))"

lemma classified_value:
  "classified_as rnd t ((plain_value raw KindDateTime)\<lparr>tv_time := tv\<rparr>) \<longleftrightarrow>
     date_time_re t \<and> parse_date_time t = Some tv"
  "classified_as rnd t ((plain_value raw KindDate)\<lparr>tv_time := tv\<rparr>) \<longleftrightarrow> date_re t \<and> parse_date t = Some tv"
  "classified_as rnd t ((plain_value raw KindTime)\<lparr>tv_time := tv\<rparr>) \<longleftrightarrow>
     time_re t \<and> parse_time_of_day t = Some tv"
  "classified_as rnd t ((plain_value raw KindInt)\<lparr>tv_int := i, tv_float := rnd (of_int i)\<rparr>) \<longleftrightarrow>
     int_re t \<and> atoi t = Some i"
  "classified_as rnd t ((plain_value raw KindFloat)\<lparr>tv_float := f\<rparr>) \<longleftrightarrow>
     float_re t \<and> parse_float rnd t = Some f"
  "classified_as rnd t (plain_value raw KindText) \<longleftrightarrow> t \<noteq> []"
  by (simp_all add: classified_as_def plain_value_def)

lemma classify_sound: "classified_as rnd (trim_space raw) (classify_value rnd raw)"
proof -
  define t where "t = trim_space raw"
  consider (blank) "t = []" | (yes) "t \<noteq> []" "to_lower t = ''true''" | (no) "t \<noteq> []" "to_lower t = ''false''"
    | (other) "t \<noteq> []" "to_lower t \<noteq> ''true''" "to_lower t \<noteq> ''false''" by blast
  then have "classified_as rnd t (classify_value rnd raw)"
  proof cases
    case other
    then show ?thesis
      unfolding classify_value_def Let_def t_def [symmetric] if_not_P [OF other(1)] if_not_P [OF other(2)]
        if_not_P [OF other(3)]
      by (intro or_else_case [where P = "classified_as rnd t"])
         (auto simp only: only_if_Some option.map_sel map_option_eq_Some classified_value other)
  qed (simp_all add: classify_value_def classified_as_def Let_def flip: t_def)
  then show ?thesis by (simp add: t_def)
qed

lemma classify_kindD:
  "kind_of rnd raw = KindInt \<Longrightarrow>
     int_re (trim_space raw) \<and> atoi (trim_space raw) = Some (tv_int (classify_value rnd raw))"
  "kind_of rnd raw = KindFloat \<Longrightarrow> float_re (trim_space raw)"
  "kind_of rnd raw = KindBool \<Longrightarrow>
     to_lower (trim_space raw) = (if tv_bool (classify_value rnd raw) then ''true'' else ''false'')"
  "kind_of rnd raw = KindDate \<Longrightarrow>
     date_re (trim_space raw) \<and> parse_date (trim_space raw) = Some (tv_time (classify_value rnd raw))"
  "kind_of rnd raw = KindTime \<Longrightarrow>
     time_re (trim_space raw) \<and> parse_time_of_day (trim_space raw) = Some (tv_time (classify_value rnd raw))"
  "kind_of rnd raw = KindDateTime \<Longrightarrow>
     date_time_re (trim_space raw) \<and> parse_date_time (trim_space raw) = Some (tv_time (classify_value rnd raw))"
  using classify_sound [of rnd raw] by (simp_all add: classified_as_def)

section \<open>The kind of a column\<close>

text \<open>The reference: the least kind all of the cells' kinds fit; a column of blanks is text.\<close>

definition column_kind :: "kind set \<Rightarrow> kind" where
  "column_kind ks =
     (if ks \<subseteq> {KindBlank} then KindText
      else if ks \<subseteq> {KindBlank, KindInt} then KindInt
      else if ks \<subseteq> {KindBlank, KindInt, KindFloat} then KindFloat
      else if ks \<subseteq> {KindBlank, KindBool} then KindBool
      else if ks \<subseteq> {KindBlank, KindDate} then KindDate
      else if ks \<subseteq> {KindBlank, KindTime} then KindTime
      else if ks \<subseteq> {KindBlank, KindDateTime} then KindDateTime
      else KindText)"

definition merged :: "kind set \<Rightarrow> kind" where
  "merged ks = (if ks \<subseteq> {KindBlank} then KindBlank else column_kind ks)"

lemma merged_insert: "merge_kind (merged ks) k = merged (insert k ks)"
  by (cases k) (auto simp: merge_kind_def merged_def column_kind_def)

lemma merged_text: "merged ks = KindText \<Longrightarrow> column_kind (ks \<union> ls) = KindText"
  by (auto simp: merged_def column_kind_def split: if_splits)

lemma infer_from_merged:
  "infer_from rnd (merged ks) raws = column_kind (ks \<union> kind_of rnd ` set raws)"
proof (induction raws arbitrary: ks)
  case Nil
  show ?case by (auto simp: merged_def column_kind_def)
next
  case (Cons raw raws)
  show ?case
  proof (cases "merged (insert (kind_of rnd raw) ks) = KindText")
    case True
    from merged_text [OF True, of "kind_of rnd ` set raws"] True show ?thesis
      by (simp add: merged_insert Let_def)
  next
    case False
    with Cons.IH [of "insert (kind_of rnd raw) ks"] show ?thesis
      by (simp add: merged_insert Let_def)
  qed
qed

lemma infer_rows_column:
  "infer_rows rnd col k rows = infer_from rnd k [row ! col. row \<leftarrow> rows, col < length row]"
  by (induction rows arbitrary: k) (simp_all add: Let_def not_less)

lemma infer_column_set: "infer_column rnd raws = column_kind (kind_of rnd ` set raws)"
  using infer_from_merged [of rnd "{}" raws] by (simp add: infer_column_def merged_def)

lemma infer_columns_columns:
  "infer_columns rnd rows n = map (\<lambda>col. infer_column rnd [row ! col. row \<leftarrow> rows, col < length row]) [0..<n]"
  by (simp add: infer_columns_def infer_rows_column infer_column_def)

text \<open>
  Claim C0: type inference is order-independent and least.  \<open>InferColumns\<close>, with its own loop that
  stops early and skips short rows, gives each column what \<open>InferColumn\<close> gives its cells, and that
  is the reference \<open>column_kind\<close> of the set of the cells' kinds: integers widen to floats, everything
  else mixed is text, blanks never matter.
\<close>

theorem inferred_kinds_are_least:
  "infer_columns rnd rows n =
     map (\<lambda>col. column_kind (kind_of rnd ` {row ! col |row. row \<in> set rows \<and> col < length row})) [0..<n]
   \<and> infer_column rnd raws = column_kind (kind_of rnd ` set raws)"
proof -
  have "set [row ! col. row \<leftarrow> rows, col < length row] = {row ! col |row. row \<in> set rows \<and> col < length row}"
    for col by auto
  then show ?thesis by (simp add: infer_columns_columns infer_column_set)
qed

text \<open>A cell of a column fits the column's kind.\<close>

definition fits_kind :: "kind \<Rightarrow> kind \<Rightarrow> bool" where
  "fits_kind cell col \<longleftrightarrow>
     cell = KindBlank \<or> cell = col \<or> cell = KindInt \<and> col = KindFloat \<or> col = KindText"

lemma column_kind_covers: "k \<in> ks \<Longrightarrow> fits_kind k (column_kind ks)"
  by (cases k) (auto simp: column_kind_def fits_kind_def)

lemma column_kind_not_blank: "column_kind ks \<noteq> KindBlank"
  by (simp add: column_kind_def)

lemma infer_columns_covers:
  assumes "row \<in> set rows" "col < length row" "col < n"
  shows "fits_kind (kind_of rnd (row ! col)) (infer_columns rnd rows n ! col)"
proof -
  have "row ! col \<in> set [row ! col. row \<leftarrow> rows, col < length row]" using assms by auto
  then show ?thesis
    using assms(3) by (simp add: infer_columns_columns infer_column_set column_kind_covers)
qed

lemma length_infer_columns [simp]: "length (infer_columns rnd rows n) = n"
  by (simp add: infer_columns_def)

section \<open>Integers keep their text\<close>

lemma digit_value_char: "is_digit_byte c \<Longrightarrow> char_of (48 + digit_value c) = c \<and> digit_value c < 10"
proof -
  assume "is_digit_byte c"
  then have "48 \<le> (of_char c :: nat)" "(of_char c :: nat) \<le> 57"
    by (simp_all add: is_digit_byte_def in_range_def)
  then show ?thesis by (simp add: digit_value_def)
qed

lemma parse_digits_snoc [simp]: "parse_digits (s @ [c]) = 10 * parse_digits s + digit_value c"
  by (simp add: parse_digits_def)

lemma parse_digits_Nil [simp]: "parse_digits [] = 0"
  by (simp add: parse_digits_def)

lemma parse_digits_single [simp]: "parse_digits [c] = digit_value c"
  by (simp add: parse_digits_def)

lemma digit_zero: "char_of (48 :: nat) = CHR ''0''"
  by code_simp

lemma parse_digits_positive: "list_all is_digit_byte s \<Longrightarrow> s \<noteq> [] \<Longrightarrow> hd s \<noteq> CHR ''0'' \<Longrightarrow> 0 < parse_digits s"
proof (induction s rule: rev_induct)
  case (snoc c s)
  show ?case
  proof (cases "s = []")
    case True
    have "of_char c \<noteq> (48 :: nat)" using snoc.prems(3) True digit_zero by (metis append_Nil char_of_char list.sel(1))
    moreover have "48 \<le> (of_char c :: nat)"
      using snoc.prems by (simp add: is_digit_byte_def in_range_def)
    ultimately show ?thesis using True by (simp add: digit_value_def)
  next
    case False
    with snoc show ?thesis by simp
  qed
qed simp

lemma nat_digits_parse_digits:
  "list_all is_digit_byte s \<Longrightarrow> s \<noteq> [] \<Longrightarrow> hd s \<noteq> CHR ''0'' \<Longrightarrow> nat_digits (parse_digits s) = s"
proof (induction s rule: rev_induct)
  case (snoc c s)
  have c: "char_of (48 + digit_value c) = c" "digit_value c < 10"
    using snoc.prems digit_value_char [of c] by simp_all
  show ?case
  proof (cases "s = []")
    case True
    with c show ?thesis by (subst nat_digits.simps) simp
  next
    case False
    with snoc have "nat_digits (parse_digits s) = s" "0 < parse_digits s"
      using parse_digits_positive [of s] by simp_all
    with c show ?thesis by (subst nat_digits.simps) simp
  qed
qed simp

lemma canonical_digits_text: "canonical_digits s \<Longrightarrow> nat_digits (parse_digits s) = s"
proof (cases "s = ''0''")
  case True
  have "nat_digits (parse_digits ''0'') = ''0''" by code_simp
  with True show ?thesis by simp
next
  case False
  assume "canonical_digits s"
  with False show ?thesis by (auto simp: canonical_digits_def intro: nat_digits_parse_digits)
qed

lemma int_re_text:
  assumes "int_re s" "atoi s = Some i" "s \<noteq> ''-0''"
  shows "int_text i = s"
proof (cases "prefix ''-'' s")
  case True
  then obtain ds where s: "s = CHR ''-'' # ds" by (auto simp: prefix_def)
  with assms have ds: "canonical_digits ds" "ds \<noteq> ''0''" by (auto simp: int_re_def drop_minus_def)
  then have i: "i = - int (parse_digits ds)"
    using assms(2) s by (auto simp: atoi_def unsigned_digits_def in_int64_def canonical_digits_def split: if_splits)
  have "0 < parse_digits ds"
    using ds by (auto simp: canonical_digits_def intro: parse_digits_positive)
  with i ds s show ?thesis by (simp add: int_text_def canonical_digits_text)
next
  case False
  with assms have ds: "canonical_digits s" by (simp add: int_re_def drop_minus_def)
  then have "hd s \<noteq> CHR ''-''" "hd s \<noteq> CHR ''+''"
    by (cases s; auto simp: canonical_digits_def is_digit_byte_def in_range_def)+
  with assms(2) ds have "i = int (parse_digits s)"
    by (auto simp: atoi_def unsigned_digits_def in_int64_def canonical_digits_def split: if_splits)
  with ds show ?thesis by (simp add: int_text_def canonical_digits_text)
qed

text \<open>
  Claim C0: a cell that JSON gets as a number loses nothing: when \<open>JSONValue\<close> returns an integer, printing
  it gives the trimmed cell back, except for the text \<open>-0\<close>.  So an article number with leading
  zeros, a plus sign or too many digits for 64 bits is never turned into a number.
\<close>

theorem json_integer_keeps_text:
  assumes "json_value rnd raw k = JInt i"
  shows "k = KindInt \<and> (int_text i = trim_space raw \<or> trim_space raw = ''-0'')"
proof -
  from assms have "k = KindInt" "kind_of rnd raw = KindInt" "i = tv_int (classify_value rnd raw)"
    by (auto simp: json_value_def Let_def split: if_splits)
  with classify_kindD(1) [of rnd raw] int_re_text [of "trim_space raw" i]
  show ?thesis by auto
qed

section \<open>Dates in a spreadsheet\<close>

lemma excel_base_day [simp]: "day_number excel_base = 693594"
  by code_simp

lemma month_lengths_small: "m \<le> 12 \<Longrightarrow> sum_list (take (m - 1) (month_lengths y)) \<le> 335"
proof -
  have "list_all (\<lambda>m. sum_list (take (m - 1) (month_lengths y)) \<le> 335) [0..<13]"
    by (simp add: month_lengths_def upt_rec)
  then show "m \<le> 12 \<Longrightarrow> sum_list (take (m - 1) (month_lengths y)) \<le> 335"
    by (simp only: list_all_iff set_upt) simp
qed

lemma days_in_small: "m \<le> 12 \<Longrightarrow> days_in y m \<le> 31"
proof -
  have "list_all (\<lambda>m. days_in y m \<le> 31) [0..<13]"
    by (simp add: days_in_def month_lengths_def upt_rec)
  then show "m \<le> 12 \<Longrightarrow> days_in y m \<le> 31"
    by (simp only: list_all_iff set_upt) simp
qed

lemma parse_date_shape:
  assumes "parse_date s = Some t"
  shows "tm_hour t = 0" "tm_minute t = 0" "tm_second t = 0" "tm_nanos t = 0" "tm_offset t = 0"
    "1 \<le> tm_month t" "tm_month t \<le> 12" "1 \<le> tm_day t" "tm_day t \<le> 31"
proof -
  from assms have "1 \<le> tm_month t \<and> tm_month t \<le> 12 \<and> 1 \<le> tm_day t \<and> tm_day t \<le> days_in (tm_year t) (tm_month t)"
    by (auto simp: parse_date_def Let_def split: if_splits)
  with days_in_small [of "tm_month t" "tm_year t"]
  show "1 \<le> tm_month t" "tm_month t \<le> 12" "1 \<le> tm_day t" "tm_day t \<le> 31" by simp_all
  from assms show "tm_hour t = 0" "tm_minute t = 0" "tm_second t = 0" "tm_nanos t = 0" "tm_offset t = 0"
    by (auto simp: parse_date_def Let_def zero_time_def split: if_splits)
qed

lemma date_instant:
  assumes "parse_date s = Some t"
  shows "instant_nanos t - instant_nanos excel_base = (day_number t - 693594) * 86400000000000"
  using parse_date_shape [OF assms]
  by (simp add: instant_nanos_def) (simp add: excel_base_def zero_time_def)

lemma day_number_bounds:
  assumes "parse_date s = Some t"
  shows "tm_year t \<le> 2191 \<Longrightarrow> day_number t - 693594 \<le> 106751"
    and "1608 \<le> tm_year t \<Longrightarrow> - 106751 \<le> day_number t - 693594"
    and "2193 \<le> tm_year t \<Longrightarrow> 106752 \<le> day_number t - 693594"
proof -
  define y where "y = tm_year t - 1"
  define r where "r = int (sum_list (take (tm_month t - 1) (month_lengths (tm_year t)))) + int (tm_day t)"
  have r: "1 \<le> r" "r \<le> 366"
    using parse_date_shape [OF assms] month_lengths_small [of "tm_month t" "tm_year t"] by (simp_all add: r_def)
  have day: "day_number t = 365 * y + y div 4 - y div 100 + y div 400 + r"
    by (simp add: day_number_def Let_def y_def r_def)
  have four: "4 * (y div 4) \<le> y" "y < 4 * (y div 4) + 4" by presburger+
  have hundred: "100 * (y div 100) \<le> y" "y < 100 * (y div 100) + 100" by presburger+
  have four_hundred: "400 * (y div 400) \<le> y" "y < 400 * (y div 400) + 400" by presburger+
  show "day_number t - 693594 \<le> 106751" if "tm_year t \<le> 2191"
  proof -
    from that have "y \<le> 2190" by (simp add: y_def)
    with day r four hundred four_hundred show ?thesis by linarith
  qed
  show "- 106751 \<le> day_number t - 693594" if "1608 \<le> tm_year t"
  proof -
    from that have "1607 \<le> y" by (simp add: y_def)
    with day r four hundred four_hundred show ?thesis by linarith
  qed
  show "106752 \<le> day_number t - 693594" if "2193 \<le> tm_year t"
  proof -
    from that have "2192 \<le> y" by (simp add: y_def)
    with day r four hundred four_hundred show ?thesis by linarith
  qed
qed

lemma truncated_hours: "sgn (d * 86400000000000) * (\<bar>d * 86400000000000\<bar> div nanos_per_hour) = d * (24 :: int)"
proof -
  have "\<bar>d * 86400000000000\<bar> = (\<bar>d\<bar> * 24) * nanos_per_hour" by (simp add: nanos_per_hour_def abs_mult)
  then have "\<bar>d * 86400000000000\<bar> div nanos_per_hour = \<bar>d\<bar> * 24" by (simp add: nanos_per_hour_def)
  then show ?thesis by (simp add: sgn_mult abs_sgn)
qed

definition exact_on_integers :: "rounding \<Rightarrow> bool" where
  "exact_on_integers rnd \<longleftrightarrow> (\<forall>n. \<bar>n\<bar> \<le> 2 ^ 53 \<longrightarrow> rnd (of_int n) = Finite (of_int n))"

lemma whole_days:
  assumes "exact_on_integers rnd" "\<bar>d\<bar> \<le> 106751"
  shows "float_div rnd (duration_hours rnd (d * 86400000000000)) (Finite 24) = Finite (of_int d)"
proof -
  have exact: "rnd (of_int n) = Finite (of_int n)" if "\<bar>n\<bar> \<le> 2 ^ 53" for n
    using assms(1) that by (simp add: exact_on_integers_def)
  have zero: "rnd 0 = Finite 0" using exact [of 0] by simp
  have hours: "rnd (of_int (d * 24)) = Finite (of_int (d * 24))" using assms(2) by (intro exact) simp
  have "d * 86400000000000 - d * 24 * nanos_per_hour = 0" by (simp add: nanos_per_hour_def)
  then have "duration_hours rnd (d * 86400000000000) = Finite (of_int (d * 24))"
    unfolding duration_hours_def Let_def truncated_hours using zero hours by (simp add: nanos_per_hour_def)
  moreover have "rnd (of_int d) = Finite (of_int d)" using assms(2) by (intro exact) simp
  ultimately show ?thesis by simp
qed

lemma date_time_sub:
  assumes "parse_date s = Some t"
  shows "1608 \<le> tm_year t \<Longrightarrow> tm_year t \<le> 2191 \<Longrightarrow>
      time_sub t excel_base = (day_number t - 693594) * 86400000000000"
    and "2193 \<le> tm_year t \<Longrightarrow> time_sub t excel_base = max_int64"
  using day_number_bounds [OF assms] by (simp_all add: time_sub_def date_instant [OF assms] max_int64_def)

text \<open>
  Claim C0: the serial number \<open>ExcelSerial\<close> writes for a date.  From 1608 to 2191 it is exactly the
  number of days since 1899-12-30, for every rounding that keeps integers up to 2^53.  From
  2193 on, the difference of the two times has overflowed the 64-bit nanoseconds of
  \<^verbatim>\<open>time.Duration\<close> and is cut off, so that all dates share one serial number: the spreadsheet shows
  9999-12-31 as a day in 2192.
\<close>

theorem excel_date_serials:
  assumes "kind_of rnd raw = KindDate" "year = tm_year (tv_time (classify_value rnd raw))"
  shows "(exact_on_integers rnd \<and> 1608 \<le> year \<and> year \<le> 2191 \<longrightarrow>
      excel_serial rnd (classify_value rnd raw) KindDate
        = Some (Finite (of_int (day_number (tv_time (classify_value rnd raw)) - day_number excel_base))))
    \<and> (2193 \<le> year \<longrightarrow>
      excel_serial rnd (classify_value rnd raw) KindDate
        = Some (float_div rnd (duration_hours rnd max_int64) (Finite 24)))"
proof -
  note date = classify_kindD(4) [OF assms(1), THEN conjunct2]
  note days = day_number_bounds [OF date, folded assms(2)]
  note sub = date_time_sub [OF date, folded assms(2)]
  have "excel_serial rnd (classify_value rnd raw) KindDate
        = Some (Finite (of_int (day_number (tv_time (classify_value rnd raw)) - day_number excel_base)))"
    if "exact_on_integers rnd" "1608 \<le> year" "year \<le> 2191"
    using that days whole_days [OF that(1), of "day_number (tv_time (classify_value rnd raw)) - 693594"]
    by (simp add: excel_serial_def assms(1) sub(1))
  moreover have "excel_serial rnd (classify_value rnd raw) KindDate
        = Some (float_div rnd (duration_hours rnd max_int64) (Finite 24))" if "2193 \<le> year"
    using that by (simp add: excel_serial_def assms(1) sub(2))
  ultimately show ?thesis by blast
qed

text \<open>\<open>Finite\<close> is a rounding that keeps every number.\<close>

lemma exact_Finite: "exact_on_integers Finite"
  by (simp add: exact_on_integers_def)

lemma classify_date:
  assumes "trim_space raw = raw" "to_lower raw = raw" "date_re raw" "parse_date raw = Some t"
  shows "classify_value rnd raw = (plain_value raw KindDate)\<lparr>tv_time := t\<rparr>"
proof -
  have len: "length raw = 10"
    using assms(3) by (auto simp: date_re_def fits_def dest: list_all2_lengthD)
  then have "\<not> date_time_re raw" "raw \<noteq> []" "raw \<noteq> ''true''" "raw \<noteq> ''false''"
    by (auto simp: date_time_re_def fits_def dest: list_all2_lengthD)
  with assms show ?thesis by (simp add: classify_value_def Let_def)
qed

lemma sample_dates:
  "classify_value rnd ''2024-02-29'' =
     (plain_value ''2024-02-29'' KindDate)\<lparr>tv_time := zero_time\<lparr>tm_year := 2024, tm_month := 2, tm_day := 29\<rparr>\<rparr>"
  "classify_value rnd ''9999-12-31'' =
     (plain_value ''9999-12-31'' KindDate)\<lparr>tv_time := zero_time\<lparr>tm_year := 9999, tm_month := 12, tm_day := 31\<rparr>\<rparr>"
  by (rule classify_date; code_simp)+

theorem excel_date_serials_witness:
  "excel_serial Finite (classify_value Finite ''2024-02-29'') KindDate = Some (Finite 45351)
   \<and> excel_serial Finite (classify_value Finite ''9999-12-31'') KindDate
       = Some (float_div Finite (duration_hours Finite max_int64) (Finite 24))"
proof
  have day: "day_number (zero_time\<lparr>tm_year := 2024, tm_month := 2, tm_day := 29\<rparr>) = 738945" by code_simp
  have "tm_year (tv_time (classify_value Finite ''2024-02-29'')) = 2024" by (simp add: sample_dates)
  then show "excel_serial Finite (classify_value Finite ''2024-02-29'') KindDate = Some (Finite 45351)"
    using excel_date_serials [of Finite "''2024-02-29''", OF _ refl] day
    by (simp add: sample_dates exact_Finite)
  have "tm_year (tv_time (classify_value Finite ''9999-12-31'')) = 9999" by (simp add: sample_dates)
  then show "excel_serial Finite (classify_value Finite ''9999-12-31'') KindDate
       = Some (float_div Finite (duration_hours Finite max_int64) (Finite 24))"
    using excel_date_serials [of Finite "''9999-12-31''", OF _ refl] by (simp add: sample_dates)
qed

lemma sample_integer:
  "trim_space '' -42 '' = ''-42''" "to_lower ''-42'' = ''-42''" "\<not> date_time_re ''-42''" "\<not> date_re ''-42''"
  "\<not> time_re ''-42''" "int_re ''-42''"
  by code_simp+

lemma sample_atoi: "atoi ''-42'' = Some (- 42)"
proof -
  have "unsigned_digits ''42'' = Some 42" by code_simp
  then show ?thesis by (simp add: atoi_def in_int64_def max_int64_def)
qed

theorem json_integer_keeps_text_witness:
  "int_text (- 42) = trim_space '' -42 '' \<or> trim_space '' -42 '' = ''-0''"
proof -
  have "json_value Finite '' -42 '' KindInt = JInt (- 42)"
    by (simp add: json_value_def classify_value_def Let_def sample_integer sample_atoi plain_value_def)
  from json_integer_keeps_text [OF this] show ?thesis by simp
qed

end
