(* ===== verification/ImporterCorrect.thy ===== *)
theory ImporterCorrect
  imports Importer TypedCorrect SqlLexemes
begin

text \<open>
  What \<open>import_records\<close> guarantees for every database: the texts it sends are a plan fixed in advance,
  each of them is one statement whatever the table, columns and cells contain, every record is
  counted, an inferred column gets literals of its type, and decoded text is valid UTF-8.
\<close>

section \<open>Column names\<close>

lemma name_bytes_name: "list_all is_name_byte (name_bytes first rs)"
proof -
  have "is_name_byte (char_of r)" if "name_rune first r" for r
  proof -
    have "char_of (95 :: nat) = CHR ''_''" by code_simp
    with that show ?thesis
      by (auto simp: name_rune_def is_name_byte_def is_lower_byte_def is_upper_byte_def is_digit_byte_def
          in_range_def of_char_of_small)
  qed
  moreover have "is_name_byte (CHR ''_'')" by (simp add: is_name_byte_def)
  ultimately show ?thesis by (auto simp: name_bytes_def list_all_iff)
qed

lemma set_trim_byte: "set (trim_byte c s) \<subseteq> set s"
  unfolding trim_byte_def by (auto dest!: set_dropWhileD)

lemma sanitize_column_identifier:
  "identifier_re fallback \<Longrightarrow> identifier_re (sanitize_column s fallback)"
  using name_bytes_name set_trim_byte [of "CHR ''_''"]
  by (fastforce simp: sanitize_column_def Let_def identifier_re_def list_all_iff)

lemma default_column_identifier: "identifier_re (default_column i)"
proof -
  have "list_all is_name_byte (nat_digits (i + 1))"
    using list_all_digits_nat_digits [of "i + 1"] by (auto simp: list_all_iff is_name_byte_def)
  then show ?thesis
    by (simp add: identifier_re_def default_column_def is_name_byte_def is_lower_byte_def is_digit_byte_def in_range_def)
qed

lemma column_names_identifiers: "list_all identifier_re (column_names header names)"
  by (auto simp: column_names_def list_all_iff default_column_identifier sanitize_column_identifier)

lemma length_column_names [simp]: "length (column_names header names) = length names"
  by (simp add: column_names_def)

section \<open>The plan of an import\<close>

definition import_header :: "'db import_env \<Rightarrow> string list list \<Rightarrow> import_options \<Rightarrow> bool" where
  "import_header env records opts = has_header (ie_number env) records (io_header_mode opts)"

definition import_data :: "'db import_env \<Rightarrow> string list list \<Rightarrow> import_options \<Rightarrow> string list list" where
  "import_data env records opts = (if import_header env records opts then tl records else records)"

definition import_columns :: "'db import_env \<Rightarrow> string list list \<Rightarrow> import_options \<Rightarrow> string list" where
  "import_columns env records opts = column_names (import_header env records opts) (hd records)"

definition import_kinds :: "'db import_env \<Rightarrow> string list list \<Rightarrow> import_options \<Rightarrow> kind list" where
  "import_kinds env records opts =
     (let n = length (import_columns env records opts)
      in if io_type_inference opts then infer_columns (ie_round env) (import_data env records opts) n
         else replicate n KindText)"

definition insert_texts :: "'db import_env \<Rightarrow> string \<Rightarrow> string list \<Rightarrow> kind list \<Rightarrow> string list list \<Rightarrow> string list" where
  "insert_texts env table columns kinds data =
     map (insert_statement (ie_round env) (ie_format env) table columns kinds) data"

definition import_plan :: "'db import_env \<Rightarrow> string \<Rightarrow> string list list \<Rightarrow> import_options \<Rightarrow> string list" where
  "import_plan env table records opts =
     (if records = [] then []
      else let columns = import_columns env records opts; kinds = import_kinds env records opts
        in (if io_create_table opts then [create_statement table columns kinds] else [])
           @ (if io_truncate opts then [truncate_statement table] else [])
           @ insert_texts env table columns kinds (import_data env records opts))"

text \<open>The same environment over a database that also keeps the texts it is sent.\<close>

definition logged :: "'db import_env \<Rightarrow> ('db \<times> string list) import_env" where
  "logged env =
     \<lparr>ie_round = ie_round env, ie_format = ie_format env, ie_number = ie_number env,
      ie_exec = (\<lambda>(db, sent) s. case ie_exec env db s of (e, db') \<Rightarrow> (e, (db', sent @ [s])))\<rparr>"

lemma logged_simps [simp]:
  "ie_round (logged env) = ie_round env" "ie_format (logged env) = ie_format env"
  "ie_number (logged env) = ie_number env"
  by (simp_all add: logged_def)

lemma logged_exec: "ie_exec (logged env) (db, sent) s = (fst (ie_exec env db s), (snd (ie_exec env db s), sent @ [s]))"
  by (simp add: logged_def split: prod.splits)

lemma insert_records_log:
  assumes "insert_records (logged env) table strict columns kinds recs res (db, sent) = (out, (db', sent'))"
  shows "\<exists>upto. prefix upto (insert_texts env table columns kinds recs) \<and> sent' = sent @ upto
    \<and> (\<forall>res'. out = Inr res' \<longrightarrow>
         upto = insert_texts env table columns kinds recs
         \<and> ir_inserted res' + ir_skipped res' = ir_inserted res + ir_skipped res + length recs
         \<and> ir_skipped res' + length (ir_errors res) = ir_skipped res + length (ir_errors res')
         \<and> (strict \<longrightarrow> ir_skipped res' = ir_skipped res))"
  using assms
proof (induction recs arbitrary: res db sent)
  case Nil
  then show ?case by (auto simp: insert_texts_def)
next
  case (Cons rec recs)
  define s where "s = insert_statement (ie_round env) (ie_format env) table columns kinds rec"
  obtain e db1 where step: "ie_exec env db s = (e, db1)" by (cases "ie_exec env db s")
  have texts: "insert_texts env table columns kinds (rec # recs) = s # insert_texts env table columns kinds recs"
    by (simp add: insert_texts_def s_def)
  consider (ok) "e = None" | (stop) f where "e = Some f" "strict" | (skip) f where "e = Some f" "\<not> strict"
    by (cases e) auto
  then show ?case
  proof cases
    case ok
    from Cons.IH [of "res\<lparr>ir_inserted := ir_inserted res + 1\<rparr>" db1 "sent @ [s]"] Cons.prems step ok
    obtain upto where d: "prefix upto (insert_texts env table columns kinds recs)" "sent' = sent @ s # upto"
      "\<forall>res'. out = Inr res' \<longrightarrow>
         upto = insert_texts env table columns kinds recs
         \<and> ir_inserted res' + ir_skipped res' = ir_inserted res + 1 + ir_skipped res + length recs
         \<and> ir_skipped res' + length (ir_errors res) = ir_skipped res + length (ir_errors res')
         \<and> (strict \<longrightarrow> ir_skipped res' = ir_skipped res)"
      by (auto simp: logged_exec simp flip: s_def)
    then show ?thesis unfolding texts by (intro exI [of _ "s # upto"]) simp
  next
    case stop
    with Cons.prems step show ?thesis
      unfolding texts by (intro exI [of _ "[s]"]) (auto simp: logged_exec simp flip: s_def)
  next
    case skip
    from Cons.IH [of "res\<lparr>ir_skipped := ir_skipped res + 1, ir_errors := ir_errors res @ [f]\<rparr>" db1 "sent @ [s]"]
      Cons.prems step skip
    obtain upto where d: "prefix upto (insert_texts env table columns kinds recs)" "sent' = sent @ s # upto"
      "\<forall>res'. out = Inr res' \<longrightarrow>
         upto = insert_texts env table columns kinds recs
         \<and> ir_inserted res' + ir_skipped res' = ir_inserted res + (ir_skipped res + 1) + length recs
         \<and> ir_skipped res' + (length (ir_errors res) + 1) = ir_skipped res + 1 + length (ir_errors res')"
      by (auto simp: logged_exec simp flip: s_def)
    then show ?thesis using skip unfolding texts by (intro exI [of _ "s # upto"]) simp
  qed
qed

lemma import_rows_after_log:
  assumes "import_rows_after (logged env) table opts columns kinds recs res (db, sent) = (out, (db', sent'))"
    and "ir_skipped res = length (ir_errors res)"
  shows "\<exists>upto. prefix upto ((if io_truncate opts then [truncate_statement table] else [])
                             @ insert_texts env table columns kinds recs) \<and> sent' = sent @ upto
    \<and> (\<forall>res'. out = Inr res' \<longrightarrow>
         upto = (if io_truncate opts then [truncate_statement table] else [])
                  @ insert_texts env table columns kinds recs
         \<and> ir_inserted res' + ir_skipped res' = ir_inserted res + ir_skipped res + length recs
         \<and> ir_skipped res' = length (ir_errors res')
         \<and> (io_strict_types opts \<longrightarrow> ir_skipped res' = ir_skipped res))"
proof -
  consider (plain) "\<not> io_truncate opts"
    | (fail) e db1 where "io_truncate opts" "ie_exec env db (truncate_statement table) = (Some e, db1)"
    | (cleared) db1 where "io_truncate opts" "ie_exec env db (truncate_statement table) = (None, db1)"
    by (metis not_None_eq surj_pair)
  then show ?thesis
  proof cases
    case plain
    with assms show ?thesis
      using insert_records_log [of env table "io_strict_types opts" columns kinds recs res db sent out db' sent']
      by (auto simp: import_rows_after_def)
  next
    case fail
    with assms show ?thesis
      by (intro exI [of _ "[truncate_statement table]"]) (auto simp: import_rows_after_def logged_exec)
  next
    case cleared
    with assms(1) have "insert_records (logged env) table (io_strict_types opts) columns kinds recs res
        (db1, sent @ [truncate_statement table]) = (out, (db', sent'))"
      by (simp add: import_rows_after_def logged_exec)
    from insert_records_log [OF this] assms(2) obtain upto
      where "prefix upto (insert_texts env table columns kinds recs)" "sent' = sent @ truncate_statement table # upto"
      "\<forall>res'. out = Inr res' \<longrightarrow>
         upto = insert_texts env table columns kinds recs
         \<and> ir_inserted res' + ir_skipped res' = ir_inserted res + ir_skipped res + length recs
         \<and> ir_skipped res' = length (ir_errors res')
         \<and> (io_strict_types opts \<longrightarrow> ir_skipped res' = ir_skipped res)"
      by auto
    with cleared show ?thesis by (intro exI [of _ "truncate_statement table # upto"]) auto
  qed
qed

definition started_result :: "'db import_env \<Rightarrow> string list list \<Rightarrow> nat \<Rightarrow> import_options \<Rightarrow> import_result" where
  "started_result env records delimiter opts =
     (empty_result delimiter)\<lparr>ir_had_header := import_header env records opts,
        ir_columns := import_columns env records opts,
        ir_types := map tinysql_type (import_kinds env records opts)\<rparr>"

lemma started_result_simps [simp]:
  "ir_inserted (started_result env records delimiter opts) = 0"
  "ir_skipped (started_result env records delimiter opts) = 0"
  "ir_errors (started_result env records delimiter opts) = []"
  by (simp_all add: started_result_def empty_result_def)

lemma import_records_eq:
  "records \<noteq> [] \<Longrightarrow>
   import_records env table records delimiter opts db =
     (let go = import_rows_after env table opts (import_columns env records opts)
                 (import_kinds env records opts) (import_data env records opts)
                 (started_result env records delimiter opts)
      in if io_create_table opts
         then case ie_exec env db (create_statement table (import_columns env records opts)
                      (import_kinds env records opts)) of
                (Some e, db1) \<Rightarrow> if tolerated e then go db1 else (Inl e, db1)
              | (None, db1) \<Rightarrow> go db1
         else go db)"
  by (simp add: import_records_def import_columns_def import_kinds_def import_data_def import_header_def
      started_result_def Let_def split: prod.split option.split)

lemma import_logged_plan [simp]:
  "import_header (logged env) records opts = import_header env records opts"
  "import_data (logged env) records opts = import_data env records opts"
  "import_columns (logged env) records opts = import_columns env records opts"
  "import_kinds (logged env) records opts = import_kinds env records opts"
  "started_result (logged env) records delimiter opts = started_result env records delimiter opts"
  by (simp_all add: import_header_def import_data_def import_columns_def import_kinds_def started_result_def Let_def)

text \<open>
  Claim C0: for every database and every table of records, \<open>importRecords\<close> sends exactly its plan - create
  and truncate if asked for, then one insert per data record in file order - or stops
  within it with an error.  When it returns a result, each data record is either inserted or
  skipped with one recorded error, and a strict import has skipped none.
\<close>

theorem import_accounts_for_every_record:
  assumes "import_records (logged env) table records delimiter opts (db, []) = (out, (db', sent))"
    and "records \<noteq> []"
  shows "prefix sent (import_plan env table records opts)
    \<and> (\<forall>res. out = Inr res \<longrightarrow>
         sent = import_plan env table records opts
         \<and> ir_inserted res + ir_skipped res = length (import_data env records opts)
         \<and> ir_skipped res = length (ir_errors res)
         \<and> (io_strict_types opts \<longrightarrow> ir_skipped res = 0))"
proof -
  define cols kinds recs where "cols = import_columns env records opts" and "kinds = import_kinds env records opts"
    and "recs = import_data env records opts"
  define create where "create = create_statement table cols kinds"
  note run = import_records_eq [OF assms(2), of "logged env" table delimiter opts "(db, [])", unfolded Let_def assms(1)
      import_logged_plan, folded cols_def kinds_def recs_def, folded create_def]
  have plan: "import_plan env table records opts =
      (if io_create_table opts then [create] else [])
      @ (if io_truncate opts then [truncate_statement table] else []) @ insert_texts env table cols kinds recs"
    using assms(2) by (simp add: import_plan_def Let_def cols_def kinds_def recs_def create_def)
  consider (plain) "\<not> io_create_table opts"
    | (fail) e db1 where "io_create_table opts" "ie_exec env db create = (Some e, db1)" "\<not> tolerated e"
    | (created) e db1 where "io_create_table opts" "ie_exec env db create = (e, db1)" "e = None \<or> tolerated (the e)"
    by (metis option.collapse surj_pair)
  then show ?thesis
  proof cases
    case plain
    with run have "import_rows_after (logged env) table opts cols kinds recs
        (started_result env records delimiter opts) (db, []) = (out, (db', sent))" by simp
    from import_rows_after_log [OF this] plain show ?thesis unfolding plan by (auto simp: recs_def)
  next
    case fail
    with run show ?thesis unfolding plan by (simp add: logged_exec)
  next
    case created
    with run have "import_rows_after (logged env) table opts cols kinds recs
        (started_result env records delimiter opts) (db1, [create]) = (out, (db', sent))"
      by (auto simp: logged_exec split: option.splits)
    from import_rows_after_log [OF this] created show ?thesis unfolding plan by (auto simp: recs_def)
  qed
qed

section \<open>Every text is one statement\<close>

text \<open>The separator scanner crosses \<open>s\<close> in code mode, from \<open>pre\<close> to \<open>nxt\<close>, and finds nothing.\<close>

definition transit :: "string \<Rightarrow> string \<Rightarrow> string \<Rightarrow> bool" where
  "transit pre s nxt \<longleftrightarrow> sep_scan In_Code pre (s @ nxt) = sep_scan In_Code (rev s @ pre) nxt"

lemma transit_append:
  "transit pre s (t @ nxt) \<Longrightarrow> transit (rev s @ pre) t nxt \<Longrightarrow> transit pre (s @ t) nxt"
  by (simp add: transit_def)

lemma transit_single: "transit [] s [] \<Longrightarrow> \<not> contains_statement_separator s"
  by (simp add: transit_def contains_statement_separator_def)

text \<open>Most pieces only need harmless bytes around them.\<close>

definition calm_before :: "string \<Rightarrow> bool" where
  "calm_before pre \<longleftrightarrow> (case pre of [] \<Rightarrow> True | c # _ \<Rightarrow> c = CHR '' '' \<or> c = CHR ''('')"

definition calm_after :: "string \<Rightarrow> bool" where
  "calm_after nxt \<longleftrightarrow> (case nxt of [] \<Rightarrow> True | c # _ \<Rightarrow> c = CHR '' '' \<or> c = CHR '','' \<or> c = CHR '')'')"

definition passes :: "string \<Rightarrow> bool" where
  "passes s \<longleftrightarrow> (\<forall>pre nxt. calm_before pre \<longrightarrow> calm_after nxt \<longrightarrow> transit pre s nxt)"

lemma passesD: "passes s \<Longrightarrow> calm_before pre \<Longrightarrow> calm_after nxt \<Longrightarrow> transit pre s nxt"
  by (simp add: passes_def)

lemma calm_after_simps [simp]:
  "calm_after []" "calm_after (CHR '' '' # s)" "calm_after (CHR '','' # s)" "calm_after (CHR '')'' # s)"
  by (simp_all add: calm_after_def)

lemma calm_before_simps [simp]:
  "calm_before []" "calm_before (CHR '' '' # s)" "calm_before (CHR ''('' # s)"
  by (simp_all add: calm_before_def)

lemma calm_afterD: "calm_after (c # s) \<Longrightarrow> c = CHR '' '' \<or> c = CHR '','' \<or> c = CHR '')''"
  by (simp add: calm_after_def)

lemma calm_after_not_quote:
  assumes "calm_after nxt"
  shows "\<not> starts_with ((=) (CHR 0x22)) nxt" "\<not> starts_with ((=) (CHR 0x27)) nxt" "next_byte nxt \<noteq> CHR ''-''"
  using assms by (cases nxt; auto simp: next_byte_def dest!: calm_afterD)+

lemma quoted_body_doubled: "quoted_body False q (replace_byte q [q, q] s)"
  by (induction s) simp_all

lemma passes_quoted_ident: "passes (import_quote_ident s)"
  using sep_scan_double [OF quoted_body_doubled]
  by (auto simp: passes_def transit_def import_quote_ident_def calm_after_not_quote)

lemma calm_before_not_e: "calm_before pre \<Longrightarrow> \<not> is_e_prefixed_string pre"
  by (cases pre) (auto simp: calm_before_def is_e_prefixed_string_def)

lemma passes_sql_literal: "passes (sql_literal s)"
  using sep_scan_single [OF quoted_body_doubled]
  by (auto simp: passes_def transit_def sql_literal_def calm_after_not_quote calm_before_not_e)

lemma passes_word: "list_all is_ident_byte w \<Longrightarrow> passes w"
  by (simp add: passes_def transit_def sep_scan_word)

text \<open>A printed number: letters, digits, points and single signs.\<close>

fun number_text :: "string \<Rightarrow> bool" where
  "number_text [] = True"
| "number_text (c # s) =
     ((is_ident_byte c \<or> c = CHR ''.'' \<or> c = CHR ''+'' \<or> c = CHR ''-'' \<and> \<not> prefix ''-'' s) \<and> number_text s)"

lemma sep_scan_ident_byte: "is_ident_byte c \<Longrightarrow> sep_scan In_Code pre (c # s) = sep_scan In_Code (c # pre) s"
  using sep_scan_word [of "[c]" pre s] by simp

lemma sep_scan_blank [simp]: "sep_scan In_Code pre (CHR '' '' # s) = sep_scan In_Code (CHR '' '' # pre) s"
  by simp

lemma number_next_byte: "\<not> prefix ''-'' s \<Longrightarrow> calm_after nxt \<Longrightarrow> next_byte (s @ nxt) \<noteq> CHR ''-''"
  using calm_after_not_quote(3) by (cases s) (auto simp: next_byte_def)

lemma sep_scan_number:
  "number_text s \<Longrightarrow> calm_after nxt \<Longrightarrow> sep_scan In_Code pre (s @ nxt) = sep_scan In_Code (rev s @ pre) nxt"
proof (induction s arbitrary: pre)
  case (Cons c s)
  from Cons.prems have rest: "number_text s" by simp
  have "sep_scan In_Code pre (c # s @ nxt) = sep_scan In_Code (c # pre) (s @ nxt)"
  proof (cases "is_ident_byte c")
    case True
    then show ?thesis by (rule sep_scan_ident_byte)
  next
    case False
    with Cons.prems consider "c = CHR ''.''" | "c = CHR ''+''" | "c = CHR ''-''" "\<not> prefix ''-'' s" by auto
    then show ?thesis by cases (simp_all add: number_next_byte [OF _ Cons.prems(2)])
  qed
  with Cons.IH [OF rest Cons.prems(2)] show ?case by simp
qed simp

lemma passes_number: "number_text s \<Longrightarrow> passes s"
  by (simp add: passes_def transit_def sep_scan_number)

lemma number_text_digits: "list_all is_digit_byte s \<Longrightarrow> number_text s"
  by (induction s) (auto simp: is_ident_byte_def)

lemma number_text_int: "number_text (int_text i)"
proof -
  have "\<not> prefix ''-'' (nat_digits n)" for n
    using hd_nat_digits_not_sign(1) [of n] nat_digits_nonempty [of n] by (cases "nat_digits n") auto
  then show ?thesis by (simp add: int_text_def number_text_digits)
qed

definition formats_numbers :: "'db import_env \<Rightarrow> bool" where
  "formats_numbers env \<longleftrightarrow> (\<forall>f. number_text (ie_format env f))"

lemma passes_constants: "passes ''NULL''" "passes ''TRUE''" "passes ''FALSE''"
proof -
  have "list_all is_ident_byte ''NULL''" by code_simp
  then show "passes ''NULL''" by (rule passes_word)
  have "list_all is_ident_byte ''TRUE''" by code_simp
  then show "passes ''TRUE''" by (rule passes_word)
  have "list_all is_ident_byte ''FALSE''" by code_simp
  then show "passes ''FALSE''" by (rule passes_word)
qed

lemma passes_literal:
  "(\<And>f. number_text (fmt f)) \<Longrightarrow> passes (typed_sql_literal rnd fmt raw k)"
  by (simp add: typed_sql_literal_def Let_def passes_sql_literal passes_number number_text_int passes_constants)

lemma record_literals_pass:
  "(\<And>f. number_text (fmt f)) \<Longrightarrow> list_all passes (record_literals rnd fmt n kinds rec)"
  by (auto simp: record_literals_def list_all_iff passes_literal passes_constants)

text \<open>Words and blanks pass anywhere; so do a comma and parentheses.\<close>

definition is_keyword_byte :: "char \<Rightarrow> bool" where
  "is_keyword_byte c \<longleftrightarrow> is_ident_byte c \<or> c = CHR '' '' \<or> c = CHR '','' \<or> c = CHR ''('' \<or> c = CHR '')''"

lemma sep_scan_keyword_byte: "is_keyword_byte c \<Longrightarrow> sep_scan In_Code pre (c # s) = sep_scan In_Code (c # pre) s"
  unfolding is_keyword_byte_def by (elim disjE, erule sep_scan_ident_byte) simp_all

lemma transit_keywords: "list_all is_keyword_byte w \<Longrightarrow> transit pre w nxt"
  unfolding transit_def
proof (induction w arbitrary: pre)
  case (Cons c w)
  then show ?case by (simp only: list.pred_inject append_Cons rev.simps append_assoc append_Nil sep_scan_keyword_byte)
qed simp

lemma passes_join:
  "list_all passes parts \<Longrightarrow> calm_before pre \<Longrightarrow> calm_after nxt \<Longrightarrow> transit pre (join_with '', '' parts) nxt"
proof (induction "'', ''" parts arbitrary: pre rule: join_with.induct)
  case 1
  show ?case by (simp add: transit_def)
next
  case (2 s)
  then show ?case by (simp add: passesD)
next
  case (3 s t ss)
  have comma: "list_all is_keyword_byte '', ''" by (simp add: is_keyword_byte_def)
  have "transit pre (s @ '', '' @ join_with '', '' (t # ss)) nxt"
  proof (intro transit_append)
    show "transit pre s (('', '' @ join_with '', '' (t # ss)) @ nxt)" using "3.prems" by (simp add: passesD)
    show "transit (rev s @ pre) '', '' (join_with '', '' (t # ss) @ nxt)" by (rule transit_keywords [OF comma])
    show "transit (rev '', '' @ rev s @ pre) (join_with '', '' (t # ss)) nxt" using 3 by simp
  qed
  then show ?case by simp
qed

text \<open>The shape all the texts share: keywords, a quoted name, a list in parentheses.\<close>

lemma transit_table:
  assumes "list_all is_keyword_byte w" "calm_before (rev w)" "calm_after nxt"
  shows "transit [] (w @ import_quote_ident table) nxt"
  using assms by (intro transit_append transit_keywords passesD [OF passes_quoted_ident]) simp_all

lemma transit_list:
  assumes "list_all passes parts" "list_all is_keyword_byte w" "calm_before (rev w)" "w \<noteq> []"
  shows "transit pre (w @ join_with '', '' parts @ '')'') nxt"
proof (intro transit_append)
  show "transit pre w ((join_with '', '' parts @ '')'') @ nxt)" by (rule transit_keywords [OF assms(2)])
  have "calm_before (rev w @ pre)" using assms(3,4) by (cases w rule: rev_cases) (auto simp: calm_before_def)
  with assms(1) show "transit (rev w @ pre) (join_with '', '' parts) ('')'' @ nxt)" by (simp add: passes_join)
  show "transit (rev (join_with '', '' parts) @ rev w @ pre) '')'' nxt"
    by (rule transit_keywords) (simp add: is_keyword_byte_def)
qed

lemma keyword_texts:
  "list_all is_keyword_byte ''CREATE TABLE ''" "list_all is_keyword_byte ''INSERT INTO ''"
  "list_all is_keyword_byte ''DELETE FROM ''" "list_all is_keyword_byte '' (''"
  "list_all is_keyword_byte '') VALUES (''"
  by code_simp+

lemma column_definition_passes: "passes (import_quote_ident col @ '' '' @ sql_type k)"
proof -
  have "list_all is_keyword_byte ('' '' @ sql_type KindInt)" "list_all is_keyword_byte ('' '' @ sql_type KindFloat)"
    "list_all is_keyword_byte ('' '' @ sql_type KindBool)" "list_all is_keyword_byte ('' '' @ sql_type KindDate)"
    "list_all is_keyword_byte ('' '' @ sql_type KindTime)" "list_all is_keyword_byte ('' '' @ sql_type KindDateTime)"
    "list_all is_keyword_byte ('' '' @ sql_type KindText)" "list_all is_keyword_byte ('' '' @ sql_type KindBlank)"
    by code_simp+
  then have "list_all is_keyword_byte ('' '' @ sql_type k)" by (cases k) (simp_all only:)
  then show ?thesis
    unfolding passes_def
    by (intro allI impI transit_append transit_keywords passesD [OF passes_quoted_ident]) simp_all
qed

lemma create_statement_single: "\<not> contains_statement_separator (create_statement table columns kinds)"
proof -
  have defs: "list_all passes (map2 (\<lambda>col k. import_quote_ident col @ '' '' @ sql_type k) columns kinds)"
    using column_definition_passes by (auto simp: list_all_iff)
  have "transit [] ((''CREATE TABLE '' @ import_quote_ident table)
      @ ('' ('' @ join_with '', '' (map2 (\<lambda>col k. import_quote_ident col @ '' '' @ sql_type k) columns kinds) @ '')'')) []"
    by (intro transit_append transit_table transit_list [OF defs] keyword_texts) simp_all
  then show ?thesis by (intro transit_single) (simp add: create_statement_def)
qed

lemma truncate_statement_single: "\<not> contains_statement_separator (truncate_statement table)"
  unfolding truncate_statement_def by (intro transit_single transit_table keyword_texts) simp_all

lemma insert_statement_single:
  assumes "\<And>f. number_text (fmt f)"
  shows "\<not> contains_statement_separator (insert_statement rnd fmt table columns kinds rec)"
proof -
  have cols: "list_all passes (map import_quote_ident columns)" by (simp add: list_all_iff passes_quoted_ident)
  have lits: "list_all passes (record_literals rnd fmt (length columns) kinds rec)"
    by (rule record_literals_pass [OF assms])
  have "transit [] ((''INSERT INTO '' @ import_quote_ident table) @ '' ('' @ join_quoted columns
      @ ('') VALUES ('' @ join_with '', '' (record_literals rnd fmt (length columns) kinds rec) @ '')'')) []"
    unfolding join_quoted_def
    by (intro transit_append [where pre = "[]"] transit_append [where s = "'' (''"] transit_append [where s = "join_with '', '' _"]
          transit_table transit_list [OF lits] transit_keywords keyword_texts passes_join [OF cols]) simp_all
  then show ?thesis by (intro transit_single) (simp add: insert_statement_def)
qed

text \<open>The leading keyword decides the class.\<close>

lemma trim_space_ends:
  assumes "s \<noteq> []" "is_graphic_byte (hd s)" "is_graphic_byte (last s)"
  shows "trim_space s = s"
proof -
  have fixed: "strip ps t = t" if "list_all (\<lambda>p. \<not> is_graphic_byte (hd p)) ps" "is_graphic_byte (hd t)" for ps t
    unfolding strip_fixed_iff using that by (auto simp: list_all_iff prefix_def)
  have "trim_left s = s"
    unfolding trim_left_def using space_runes_not_graphic assms by (intro fixed) (auto simp: list_all_iff)
  moreover have "strip (map rev space_runes) (rev s) = rev s"
    using space_runes_not_graphic Nil_notin_space_runes assms
    by (intro fixed) (auto simp: list_all_iff hd_rev)
  ultimately show ?thesis by (simp add: trim_space_def trim_right_def)
qed

lemma classify_keyword:
  assumes "\<not> contains_statement_separator (w @ CHR '' '' # rest)" "list_all is_ident_byte w" "w \<noteq> []"
    "is_graphic_byte (hd w)" "rest \<noteq> []" "is_graphic_byte (last rest)" "hd w \<noteq> CHR ''(''" "hd w \<noteq> CHR 0xEF"
  shows "\<exists>ts. classify (w @ CHR '' '' # rest) = classify_tokens (to_upper w # ts)"
proof -
  have "strip leading_cutset (w @ CHR '' '' # rest) = w @ CHR '' '' # rest"
    unfolding strip_fixed_iff using assms(3,7,8) by (cases w) (auto simp: leading_cutset_def)
  moreover have "trim_space (w @ CHR '' '' # rest) = w @ CHR '' '' # rest"
    using assms by (intro trim_space_ends) auto
  moreover have "\<not> is_ident_byte (CHR '' '')"
    by (simp add: is_ident_byte_def is_digit_byte_def is_upper_byte_def is_lower_byte_def in_range_def)
  then have "tokens_from [] (w @ CHR '' '' # rest) = to_upper w # tokens_from (rev w) (CHR '' '' # rest)"
    using tokens_from_lexeme [of "[]" "Word w" "CHR '' '' # rest"] assms(2,3) by simp
  ultimately show ?thesis using assms(1) by (auto simp: classify_def sql_tokens_def)
qed

lemma classify_tokens_keyword:
  "classify_tokens (''INSERT'' # ts) = StatementWriteDML" "classify_tokens (''DELETE'' # ts) = StatementWriteDML"
  "classify_tokens (''CREATE'' # ts) = StatementDDL"
proof -
  have "to_upper ''INSERT'' = ''INSERT''" "to_upper ''DELETE'' = ''DELETE''" "to_upper ''CREATE'' = ''CREATE''"
    by code_simp+
  then show "classify_tokens (''INSERT'' # ts) = StatementWriteDML" "classify_tokens (''DELETE'' # ts) = StatementWriteDML"
    "classify_tokens (''CREATE'' # ts) = StatementDDL"
    by (subst classify_tokens.simps; simp add: leading_verb_def)+
qed

definition leads :: "string \<Rightarrow> bool" where
  "leads w \<longleftrightarrow> list_all is_ident_byte w \<and> to_upper w = w \<and> w \<noteq> [] \<and> is_graphic_byte (hd w)
     \<and> hd w \<noteq> CHR ''('' \<and> hd w \<noteq> CHR 0xEF"

lemma leading_keywords: "leads ''CREATE''" "leads ''DELETE''" "leads ''INSERT''"
  by code_simp+

lemma classify_keyword_rest:
  assumes "\<not> contains_statement_separator (w @ '' '' @ rest)" "rest \<noteq> []" "is_graphic_byte (last rest)"
  shows "w = ''CREATE'' \<Longrightarrow> classify (w @ '' '' @ rest) = StatementDDL"
    and "w = ''DELETE'' \<Longrightarrow> classify (w @ '' '' @ rest) = StatementWriteDML"
    and "w = ''INSERT'' \<Longrightarrow> classify (w @ '' '' @ rest) = StatementWriteDML"
proof -
  have "leads w" if "w = ''CREATE'' \<or> w = ''DELETE'' \<or> w = ''INSERT''"
    using that leading_keywords by blast
  note word = this [unfolded leads_def]
  have "\<exists>ts. classify (w @ '' '' @ rest) = classify_tokens (w # ts)" if "w = ''CREATE'' \<or> w = ''DELETE'' \<or> w = ''INSERT''"
    using classify_keyword [of w rest] word [OF that] assms by (metis append_Cons append_Nil)
  then show "w = ''CREATE'' \<Longrightarrow> classify (w @ '' '' @ rest) = StatementDDL"
    "w = ''DELETE'' \<Longrightarrow> classify (w @ '' '' @ rest) = StatementWriteDML"
    "w = ''INSERT'' \<Longrightarrow> classify (w @ '' '' @ rest) = StatementWriteDML"
    by (metis classify_tokens_keyword)+
qed

lemma graphic_ends: "is_graphic_byte (CHR '')'')" "is_graphic_byte (CHR 0x22)"
  by code_simp+

lemma create_statement_class: "classify (create_statement table columns kinds) = StatementDDL"
proof -
  define rest where "rest = ''TABLE '' @ import_quote_ident table @ '' (''
       @ join_with '', '' (map2 (\<lambda>col k. import_quote_ident col @ '' '' @ sql_type k) columns kinds) @ '')''"
  have shape: "create_statement table columns kinds = ''CREATE'' @ '' '' @ rest"
    by (simp add: create_statement_def rest_def)
  have "rest \<noteq> []" "is_graphic_byte (last rest)" by (simp_all add: rest_def graphic_ends)
  with classify_keyword_rest(1) [of "''CREATE''" rest] create_statement_single [of table columns kinds]
  show ?thesis unfolding shape by blast
qed

lemma truncate_statement_class: "classify (truncate_statement table) = StatementWriteDML"
proof -
  define rest where "rest = ''FROM '' @ import_quote_ident table"
  have shape: "truncate_statement table = ''DELETE'' @ '' '' @ rest"
    by (simp add: truncate_statement_def rest_def)
  have "rest \<noteq> []" "is_graphic_byte (last rest)"
    by (simp_all add: rest_def import_quote_ident_def graphic_ends)
  with classify_keyword_rest(2) [of "''DELETE''" rest] truncate_statement_single [of table]
  show ?thesis unfolding shape by blast
qed

lemma insert_statement_class:
  assumes "\<And>f. number_text (fmt f)"
  shows "classify (insert_statement rnd fmt table columns kinds rec) = StatementWriteDML"
proof -
  define rest where "rest = ''INTO '' @ import_quote_ident table @ '' ('' @ join_quoted columns @ '') VALUES (''
      @ join_with '', '' (record_literals rnd fmt (length columns) kinds rec) @ '')''"
  have shape: "insert_statement rnd fmt table columns kinds rec = ''INSERT'' @ '' '' @ rest"
    by (simp add: insert_statement_def rest_def)
  have "rest \<noteq> []" "is_graphic_byte (last rest)" by (simp_all add: rest_def graphic_ends)
  with classify_keyword_rest(3) [of "''INSERT''" rest] insert_statement_single [of fmt rnd table columns kinds rec] assms
  show ?thesis unfolding shape by blast
qed

lemmas statement_classes = create_statement_class truncate_statement_class insert_statement_class

text \<open>
  Claim C0: whatever the table name, the header and the cells of a file contain - quotes, semicolons,
  comment signs - every text of the import is exactly one statement for the server's own scanner,
  and the classifier sees it as the write it is: the create as DDL, everything else as DML.  The
  only hypothesis is that printed floats consist of letters, digits, points and single signs.
\<close>

theorem import_texts_are_single_writes:
  assumes "formats_numbers env" "s \<in> set (import_plan env table records opts)"
  shows "\<not> contains_statement_separator s
    \<and> classify s = (if prefix ''CREATE'' s then StatementDDL else StatementWriteDML)"
proof -
  have fmt: "number_text (ie_format env f)" for f using assms(1) by (simp add: formats_numbers_def)
  from assms(2) consider (create) columns kinds where "s = create_statement table columns kinds"
    | (truncate) "s = truncate_statement table"
    | (insert) columns kinds rec where "s = insert_statement (ie_round env) (ie_format env) table columns kinds rec"
    by (auto simp: import_plan_def insert_texts_def Let_def split: if_splits)
  then show ?thesis
  proof cases
    case create
    moreover have "prefix ''CREATE'' s" by (simp add: create create_statement_def)
    ultimately show ?thesis by (simp add: statement_classes create_statement_single)
  next
    case truncate
    moreover have "\<not> prefix ''CREATE'' s" by (simp add: truncate truncate_statement_def)
    ultimately show ?thesis by (simp add: statement_classes truncate_statement_single)
  next
    case insert
    moreover have "\<not> prefix ''CREATE'' s" by (simp add: insert insert_statement_def)
    ultimately show ?thesis by (simp add: statement_classes fmt insert_statement_single)
  qed
qed

section \<open>Inferred columns get literals of their type\<close>

text \<open>The literal a cell has in a column of some type, given the trimmed text of the cell.\<close>

definition literal_of_type :: "(float_value \<Rightarrow> string) \<Rightarrow> kind \<Rightarrow> string \<Rightarrow> string \<Rightarrow> bool" where
  "literal_of_type fmt k t lit \<longleftrightarrow>
     t = [] \<and> lit = ''NULL''
     \<or> (case k of
          KindInt \<Rightarrow> (\<exists>i. atoi t = Some i \<and> lit = int_text i)
        | KindFloat \<Rightarrow> (\<exists>f. lit = fmt f)
        | KindBool \<Rightarrow> to_lower t = ''true'' \<and> lit = ''TRUE'' \<or> to_lower t = ''false'' \<and> lit = ''FALSE''
        | KindDate \<Rightarrow> parse_date t \<noteq> None \<and> lit = sql_literal t
        | KindTime \<Rightarrow> parse_time_of_day t \<noteq> None \<and> lit = sql_literal t
        | KindDateTime \<Rightarrow> parse_date_time t \<noteq> None \<and> lit = sql_literal t
        | _ \<Rightarrow> True)"

lemma fitting_literal:
  assumes "fits_kind (kind_of rnd raw) k" "k \<noteq> KindBlank"
  shows "literal_of_type fmt k (trim_space raw) (typed_sql_literal rnd fmt raw k)"
proof (cases "kind_of rnd raw = KindBlank")
  case True
  then show ?thesis by (simp add: literal_of_type_def typed_sql_literal_def classify_blank)
next
  case False
  with assms have "kind_of rnd raw = k \<or> kind_of rnd raw = KindInt \<and> k = KindFloat \<or> k = KindText"
    by (auto simp: fits_kind_def)
  with False classify_kindD [of rnd raw] show ?thesis
    by (cases k) (auto simp: literal_of_type_def typed_sql_literal_def Let_def split: if_splits)
qed

text \<open>
  Claim C0: with type inference, no cell is sent in a form its column's type does not have: each literal of
  an insert is \<^verbatim>\<open>NULL\<close> for a blank or missing cell, and else an integer, a float, \<^verbatim>\<open>TRUE\<close> or \<^verbatim>\<open>FALSE\<close>, or a
  quoted valid date, time or timestamp, as the column says.
\<close>

theorem inferred_columns_get_typed_literals:
  assumes "rec \<in> set data" "col < n" "kinds = infer_columns rnd data n"
  shows "literal_of_type fmt (kinds ! col) (if col < length rec then trim_space (rec ! col) else [])
      (record_literals rnd fmt n kinds rec ! col)"
proof (cases "col < length rec")
  case True
  with assms have "fits_kind (kind_of rnd (rec ! col)) (kinds ! col)" by (simp add: infer_columns_covers)
  moreover have "kinds ! col \<noteq> KindBlank"
    using assms by (simp add: infer_columns_columns infer_column_set column_kind_not_blank)
  ultimately show ?thesis using True assms by (simp add: record_literals_def fitting_literal)
next
  case False
  with assms(2) show ?thesis by (simp add: record_literals_def literal_of_type_def)
qed

section \<open>Witnesses\<close>

text \<open>A database of at most two rows that knows no other limits, and an environment over it.\<close>

definition two_rows :: "nat \<Rightarrow> string \<Rightarrow> string option \<times> nat" where
  "two_rows n s = (if prefix ''INSERT'' s then (if n < 2 then (None, n + 1) else (Some ''full'', n)) else (None, n))"

definition sample_import_env :: "nat import_env" where
  "sample_import_env = \<lparr>ie_round = Finite, ie_format = (\<lambda>_. ''1.5''), ie_number = (\<lambda>_. False), ie_exec = two_rows\<rparr>"

definition sample_import_options :: import_options where
  "sample_import_options = default_options\<lparr>io_header_mode := ''present'', io_truncate := True\<rparr>"

definition sample_records :: "string list list" where
  "sample_records = [[''a;b''], [[CHR 0x27, CHR '';'']], [''--''], [''x'']]"

lemma sample_header: "import_header sample_import_env sample_records sample_import_options"
proof -
  have "to_lower (trim_space ''present'') = ''present''" by code_simp
  then show ?thesis
    by (simp add: import_header_def has_header_def sample_import_options_def)
qed

lemma sample_options [simp]:
  "io_truncate sample_import_options" "\<not> io_create_table sample_import_options"
  "\<not> io_type_inference sample_import_options" "\<not> io_strict_types sample_import_options"
  by (simp_all add: sample_import_options_def default_options_def)

lemma sample_env [simp]: "ie_exec sample_import_env = two_rows"
  by (simp add: sample_import_env_def)

lemma two_rows_texts:
  "two_rows n (insert_statement rnd fmt table columns kinds rec) = (if n < 2 then (None, n + 1) else (Some ''full'', n))"
  "two_rows n (truncate_statement table) = (None, n)"
  by (simp_all add: two_rows_def insert_statement_def truncate_statement_def)

lemma sample_plan:
  "import_data sample_import_env sample_records sample_import_options = tl sample_records"
  "import_kinds sample_import_env sample_records sample_import_options = [KindText]"
proof -
  show "import_data sample_import_env sample_records sample_import_options = tl sample_records"
    by (simp add: import_data_def sample_header)
  have "length (import_columns sample_import_env sample_records sample_import_options) = 1"
    by (simp add: import_columns_def) (simp add: sample_records_def)
  then show "import_kinds sample_import_env sample_records sample_import_options = [KindText]"
    by (simp add: import_kinds_def Let_def)
qed

theorem import_texts_are_single_writes_witness:
  "classify (truncate_statement ''t; drop'') = StatementWriteDML"
proof -
  have "formats_numbers sample_import_env"
  proof -
    have "number_text ''1.5''" by code_simp
    then show ?thesis by (simp add: formats_numbers_def sample_import_env_def)
  qed
  moreover have "truncate_statement ''t; drop''
      \<in> set (import_plan sample_import_env ''t; drop'' sample_records sample_import_options)"
    by (simp add: import_plan_def Let_def sample_records_def)
  ultimately have "classify (truncate_statement ''t; drop'')
      = (if prefix ''CREATE'' (truncate_statement ''t; drop'') then StatementDDL else StatementWriteDML)"
    using import_texts_are_single_writes by blast
  then show ?thesis by (simp add: truncate_statement_def)
qed

theorem import_accounts_for_every_record_witness:
  "\<exists>res db sent. import_records (logged sample_import_env) ''t'' sample_records 44 sample_import_options (0, [])
      = (Inr res, (db, sent))
    \<and> length sent = 4 \<and> ir_inserted res + ir_skipped res = 3 \<and> ir_skipped res = 1"
proof -
  have "sample_records \<noteq> []" "tl sample_records = [[[CHR 0x27, CHR '';'']], [''--''], [''x'']]"
    by (simp_all add: sample_records_def)
  then have "\<exists>res db sent. import_records (logged sample_import_env) ''t'' sample_records 44 sample_import_options (0, [])
      = (Inr res, (db, sent)) \<and> ir_skipped res = 1"
    by (simp add: import_records_eq sample_plan Let_def import_rows_after_def logged_exec two_rows_texts)
  then obtain res db sent where run:
    "import_records (logged sample_import_env) ''t'' sample_records 44 sample_import_options (0, []) = (Inr res, (db, sent))"
    and skipped: "ir_skipped res = 1" by blast
  have "sample_records \<noteq> []" by (simp add: sample_records_def)
  with import_accounts_for_every_record [OF run] have
    "sent = import_plan sample_import_env ''t'' sample_records sample_import_options"
    "ir_inserted res + ir_skipped res = length (import_data sample_import_env sample_records sample_import_options)"
    by blast+
  moreover have "length (import_plan sample_import_env ''t'' sample_records sample_import_options) = 4"
    by (simp add: import_plan_def Let_def insert_texts_def sample_plan) (simp add: sample_records_def)
  ultimately show ?thesis using run skipped by (auto simp: sample_plan) (simp add: sample_records_def)
qed

theorem inferred_columns_get_typed_literals_witness:
  "literal_of_type (\<lambda>_. ''1.5'') KindDate ''2024-02-29''
     (record_literals Finite (\<lambda>_. ''1.5'') 1 [KindDate] [''2024-02-29''] ! 0)"
proof -
  have one: "[0..<1] = [0::nat]" by (simp add: upt_rec)
  have kinds: "[KindDate] = infer_columns Finite [[''2024-02-29''], []] 1"
    by (simp add: infer_columns_columns one infer_column_set sample_dates column_kind_def)
  have "trim_space ''2024-02-29'' = ''2024-02-29''" by code_simp
  with inferred_columns_get_typed_literals [OF _ _ kinds, of "[''2024-02-29'']" 0 "\<lambda>_. ''1.5''"]
  show ?thesis by simp
qed

end
