(* ===== verification/FileFormatsCorrect.thy ===== *)
theory FileFormatsCorrect
  imports FileFormats ImporterCorrect
begin

text \<open>
  Reading files back: decoded spreadsheet text is valid UTF-8 and the text that was encoded, the
  fields of a fixed-width file keep every visible character, and an INI file written from sections and
  pairs is read back as them.
\<close>

section \<open>Spreadsheet encodings\<close>

definition word_bytes :: "bool \<Rightarrow> nat \<Rightarrow> string" where
  "word_bytes little w =
     (if little then [char_of (w mod 256), char_of (w div 256)] else [char_of (w div 256), char_of (w mod 256)])"

definition utf16_bytes :: "bool \<Rightarrow> nat list \<Rightarrow> string" where
  "utf16_bytes little rs =
     (if little then [CHR 0xFF, CHR 0xFE] else [CHR 0xFE, CHR 0xFF])
       @ concat (map (word_bytes little) (concat (map utf16_words rs)))"

lemma words_of_word: "w < 0x10000 \<Longrightarrow> words_of little (word_bytes little w @ s) = w # words_of little s"
proof -
  assume "w < 0x10000"
  then have "w div 256 < 256" by (simp add: less_mult_imp_div_less)
  then have "(of_char (char_of (w div 256)) :: nat) = w div 256" "(of_char (char_of (w mod 256)) :: nat) = w mod 256"
    by simp_all
  moreover have "w mod 256 + 256 * (w div 256) = w" by simp
  ultimately show ?thesis by (cases little) (simp_all only: word_bytes_def if_True if_False append_Cons append_Nil words_of.simps)
qed

lemma words_of_bytes:
  "list_all (\<lambda>w. w < 0x10000) ws \<Longrightarrow> words_of little (concat (map (word_bytes little) ws)) = ws"
  by (induction ws) (simp_all add: words_of_word)

lemma even_word_bytes: "even (length (concat (map (word_bytes little) ws)))"
  by (induction ws) (simp_all add: word_bytes_def)

lemma utf16_words_all: "list_all is_scalar rs \<Longrightarrow> list_all (\<lambda>w. w < 0x10000) (concat (map utf16_words rs))"
  using utf16_words_small by (fastforce simp: list_all_iff)

lemma decode_utf16:
  assumes "list_all is_scalar rs"
  shows "decode_delimited_text (utf16_bytes little rs) = Inr (encode_runes rs, ''utf-16'')"
proof -
  define body where "body = concat (map (word_bytes little) (concat (map utf16_words rs)))"
  have "even (length body)" by (simp add: body_def even_word_bytes del: map_concat)
  moreover have "words_of little body = concat (map utf16_words rs)"
    unfolding body_def by (rule words_of_bytes [OF utf16_words_all [OF assms]])
  moreover have "utf16_bytes little rs = (if little then [CHR 0xFF, CHR 0xFE] else [CHR 0xFE, CHR 0xFF]) @ body"
    by (simp only: utf16_bytes_def body_def)
  ultimately show ?thesis
    using utf16_decode_encoded [OF assms]
    by (cases little) (simp_all add: decode_delimited_text_def utf8_bom_def Let_def)
qed

text \<open>The bytes of a byte-order mark of UTF-16 occur in no UTF-8 text.\<close>

lemma encode_scalar_first:
  assumes "is_scalar r"
  shows "hd (encode_scalar r) \<noteq> CHR 0xFF" "hd (encode_scalar r) \<noteq> CHR 0xFE"
proof -
  have small: "r < 0x110000" using assms by (auto simp: is_scalar_def)
  have lead: "\<exists>n < 0xF8. hd (encode_scalar r) = char_of (n :: nat)"
  proof -
    consider "r < 0x80" | "0x80 \<le> r" "r < 0x800" | "0x800 \<le> r" "r < 0x10000" | "0x10000 \<le> r" by linarith
    then show ?thesis
    proof cases
      case 1
      then show ?thesis by (intro exI [of _ r]) (simp add: encode_scalar_def)
    next
      case 2
      then show ?thesis
        by (intro exI [of _ "0xC0 + r div 64"]) (simp add: encode_scalar_def less_mult_imp_div_less)
    next
      case 3
      then show ?thesis
        by (intro exI [of _ "0xE0 + r div 4096"]) (simp add: encode_scalar_def less_mult_imp_div_less)
    next
      case 4
      then show ?thesis using small
        by (intro exI [of _ "0xF0 + r div 262144"]) (simp add: encode_scalar_def less_mult_imp_div_less)
    qed
  qed
  then obtain n where n: "n < 0xF8" "hd (encode_scalar r) = char_of (n :: nat)" by blast
  then have "of_char (hd (encode_scalar r)) = n" by (simp add: of_char_of_small)
  then show "hd (encode_scalar r) \<noteq> CHR 0xFF" "hd (encode_scalar r) \<noteq> CHR 0xFE" using n(1) by auto
qed

lemma decode_utf8_bom:
  assumes "list_all is_scalar rs"
  shows "decode_delimited_text (utf8_bom @ encode_runes rs) = Inr (encode_runes rs, ''utf-8'')"
proof -
  have "\<not> prefix [CHR 0xFF, CHR 0xFE] (encode_runes rs)" "\<not> prefix [CHR 0xFE, CHR 0xFF] (encode_runes rs)"
  proof -
    have "encode_runes rs = [] \<or> (\<exists>r. is_scalar r \<and> hd (encode_runes rs) = hd (encode_scalar r))"
      using assms by (cases rs) (auto simp: encode_rune_scalar)
    with encode_scalar_first show "\<not> prefix [CHR 0xFF, CHR 0xFE] (encode_runes rs)"
      "\<not> prefix [CHR 0xFE, CHR 0xFF] (encode_runes rs)"
      by (cases "encode_runes rs"; force)+
  qed
  then show ?thesis
    by (simp add: decode_delimited_text_def utf8_valid_encoded utf8_bom_def Let_def)
qed

text \<open>
  Claim C0: whatever bytes are imported, the text \<open>decodeDelimitedText\<close> accepts is valid UTF-8; and a text
  of Unicode scalar values saved as UTF-16 of either byte order, or as UTF-8 with a byte-order mark, is
  decoded to exactly itself.
\<close>

theorem delimited_text_round_trip:
  "(\<forall>input content enc. decode_delimited_text input = Inr (content, enc) \<longrightarrow> utf8_valid content)
   \<and> (list_all is_scalar rs \<longrightarrow>
        decode_delimited_text (utf16_bytes little rs) = Inr (encode_runes rs, ''utf-16'')
        \<and> decode_delimited_text (utf8_bom @ encode_runes rs) = Inr (encode_runes rs, ''utf-8''))"
proof -
  have "utf8_valid content" if "decode_delimited_text input = Inr (content, enc)" for input content enc
    using that by (auto simp: decode_delimited_text_def Let_def utf8_valid_encoded split: if_splits)
  then show ?thesis using decode_utf16 decode_utf8_bom by blast
qed

theorem delimited_text_round_trip_witness:
  "decode_delimited_text (utf16_bytes True [0x41, 0x1F600]) = Inr (encode_runes [0x41, 0x1F600], ''utf-16'')"
proof -
  have "list_all is_scalar [0x41, 0x1F600]" by (simp add: is_scalar_def)
  with delimited_text_round_trip [of "[0x41, 0x1F600]" True] show ?thesis by blast
qed

section \<open>Fixed-width fields\<close>

abbreviation visible :: "nat list \<Rightarrow> nat list" where
  "visible r \<equiv> filter (\<lambda>x. \<not> is_blank_rune x) r"

lemma slice_runes_between: "start \<le> stop \<Longrightarrow> slice_runes r (start, stop) = take (stop - start) (drop start r)"
proof (cases "start \<le> length r")
  case True
  assume "start \<le> stop"
  with True show ?thesis by (cases "stop \<le> length r") (simp_all add: slice_runes_def min_def)
qed (simp add: slice_runes_def min_def)

lemma visible_split:
  assumes "start \<le> pos"
  shows "visible (take (pos - start) (drop start r)) @ visible (drop pos r) = visible (drop start r)"
proof -
  have "drop start r = take (pos - start) (drop start r) @ drop (pos - start) (drop start r)"
    by (simp only: append_take_drop_id)
  then have "visible (drop start r)
      = visible (take (pos - start) (drop start r)) @ visible (drop (pos - start) (drop start r))"
    by (metis filter_append)
  with assms show ?thesis by simp
qed

lemma visible_gap: "length r \<le> pos \<or> is_blank_rune (r ! pos) \<Longrightarrow> visible (drop pos r) = visible (drop (Suc pos) r)"
  by (cases "pos < length r") (simp_all add: Cons_nth_drop_Suc [symmetric])

lemma field_scan_visible:
  assumes "length r \<le> pos + length gaps"
    and "\<And>i. i < length gaps \<Longrightarrow> gaps ! i \<Longrightarrow> length r \<le> pos + i \<or> is_blank_rune (r ! (pos + i))"
    and "\<And>s. start = Some s \<Longrightarrow> s \<le> pos"
  shows "concat (map (\<lambda>f. visible (slice_runes r f)) (field_scan gaps pos start))
    = visible (drop (case start of None \<Rightarrow> pos | Some s \<Rightarrow> s) r)"
  using assms
proof (induction gaps pos start rule: field_scan.induct)
  case (3 gap gaps pos)
  have gaps: "length r \<le> Suc pos + i \<or> is_blank_rune (r ! (Suc pos + i))" if "i < length gaps" "gaps ! i" for i
    using "3.prems"(2) [of "Suc i"] that by simp
  have step: "concat (map (\<lambda>f. visible (slice_runes r f)) (field_scan gaps (Suc pos) (if gap then None else Some pos)))
    = visible (drop (case (if gap then None else Some pos) of None \<Rightarrow> Suc pos | Some s \<Rightarrow> s) r)"
    using "3.prems"(1) by (intro "3.IH" gaps) (auto split: if_splits)
  show ?case
  proof (cases gap)
    case True
    with step visible_gap [of r pos] "3.prems"(2) [of 0] show ?thesis by simp
  next
    case False
    with step show ?thesis by simp
  qed
next
  case (4 gap gaps pos s)
  show ?case
  proof (cases gap)
    case True
    have "concat (map (\<lambda>f. visible (slice_runes r f)) (field_scan gaps (Suc pos) None)) = visible (drop (Suc pos) r)"
      using "4.IH"(1) [OF True] "4.prems"(1) "4.prems"(2) [of "Suc _"] by simp
    moreover have "s \<le> pos" using "4.prems"(3) by simp
    ultimately show ?thesis
      using True visible_gap [of r pos] "4.prems"(2) [of 0] visible_split [of s pos r]
      by (simp add: slice_runes_between)
  next
    case False
    have "s \<le> Suc pos" using "4.prems"(3) by simp
    with "4.IH"(2) [OF False] "4.prems"(1) "4.prems"(2) [of "Suc _"] False show ?thesis by simp
  qed
qed (simp_all add: slice_runes_between)

lemma foldl_max_bound:
  "n \<le> foldl (\<lambda>n r. if n < length r then length r else n) n rows
   \<and> (\<forall>r\<in>set rows. length r \<le> foldl (\<lambda>n r. if n < length r then length r else n) n rows)"
proof (induction rows arbitrary: n)
  case (Cons row rows)
  define m where "m = (if n < length row then length row else n)"
  from Cons.IH [of m] have "n \<le> m" "length row \<le> m" by (simp_all add: m_def)
  with Cons.IH [of m] show ?case by (auto simp flip: m_def)
qed simp

lemma max_length_bound: "r \<in> set rows \<Longrightarrow> length r \<le> max_length rows"
  using foldl_max_bound [of 0 rows] by (simp add: max_length_def)

text \<open>
  Claim C0: the columns inferred for a fixed-width file lose no visible character of any line: the cells of
  a line are trimmed pieces of it which together hold exactly its characters other than blanks and
  tabs, in order.
\<close>

theorem fixed_width_keeps_visible_text:
  assumes "line \<in> set lines"
  shows "\<exists>pieces. slice_fixed_width_fields line (infer_fixed_width_fields lines)
      = map (\<lambda>p. trim_space (encode_runes p)) pieces
    \<and> concat (map visible pieces) = visible (decode_runes line)"
proof -
  define r rows where "r = decode_runes line" and "rows = map decode_runes lines"
  have row: "r \<in> set rows" using assms by (simp add: r_def rows_def)
  have gap: "length r \<le> i \<or> is_blank_rune (r ! i)" if "is_gap rows i" for i
    using that row by (auto simp: is_gap_def list_all_iff)
  have "concat (map (\<lambda>f. visible (slice_runes r f)) (field_scan (map (is_gap rows) [0..<max_length rows]) 0 None))
      = visible (drop (case None of None \<Rightarrow> 0 | Some s \<Rightarrow> s) r)"
    using max_length_bound [OF row] gap by (intro field_scan_visible) auto
  then have "concat (map visible (map (slice_runes r) (infer_fixed_width_fields lines))) = visible r"
    by (simp add: infer_fixed_width_fields_def rows_def Let_def comp_def)
  then show ?thesis
    by (intro exI [of _ "map (slice_runes r) (infer_fixed_width_fields lines)"])
       (simp add: slice_fixed_width_fields_def r_def)
qed

theorem fixed_width_keeps_visible_text_witness:
  "\<exists>pieces. slice_fixed_width_fields ''ab  c'' (infer_fixed_width_fields [''ab  c'', ''d    ef''])
      = map (\<lambda>p. trim_space (encode_runes p)) pieces
    \<and> concat (map visible pieces) = visible (decode_runes ''ab  c'')"
  using fixed_width_keeps_visible_text [of "''ab  c''" "[''ab  c'', ''d    ef'']"] by simp

section \<open>INI files\<close>

text \<open>
  A document as sections of pairs, and the file that holds it: a header line per section and a line per
  pair with the value in double quotes.
\<close>

type_synonym ini_doc = "(string \<times> (string \<times> string) list) list"

definition pair_line :: "string \<times> string \<Rightarrow> string" where
  "pair_line p = (case p of (k, v) \<Rightarrow> k @ [CHR ''='', CHR 0x22] @ v @ [CHR 0x22])"

definition section_lines :: "string \<times> (string \<times> string) list \<Rightarrow> string list" where
  "section_lines sec = (case sec of (name, pairs) \<Rightarrow> (CHR ''['' # name @ '']'') # map pair_line pairs)"

definition ini_text :: "ini_doc \<Rightarrow> string" where
  "ini_text doc = join_with [CHR 0x0A] (concat (map section_lines doc))"

text \<open>Names and keys begin and end with a visible ASCII character, and no part holds a line break.\<close>

definition one_line :: "string \<Rightarrow> bool" where
  "one_line s \<longleftrightarrow> CHR 0x0A \<notin> set s \<and> CHR 0x0D \<notin> set s"

definition clean_name :: "string \<Rightarrow> bool" where
  "clean_name s \<longleftrightarrow> s \<noteq> [] \<and> is_graphic_byte (hd s) \<and> is_graphic_byte (last s) \<and> one_line s"

definition clean_key :: "string \<Rightarrow> bool" where
  "clean_key k \<longleftrightarrow> clean_name k \<and> CHR ''='' \<notin> set k \<and> CHR '':'' \<notin> set k
     \<and> hd k \<noteq> CHR '';'' \<and> hd k \<noteq> CHR ''#'' \<and> hd k \<noteq> CHR ''[''"

definition clean_doc :: "ini_doc \<Rightarrow> bool" where
  "clean_doc doc \<longleftrightarrow> distinct (map fst doc) \<and>
     (\<forall>(name, pairs)\<in>set doc. clean_name name \<and> distinct (map fst pairs)
        \<and> (\<forall>(k, v)\<in>set pairs. clean_key k \<and> one_line v))"

lemma crlf_to_lf_plain: "CHR 0x0D \<notin> set s \<Longrightarrow> crlf_to_lf s = s"
  by (induction s rule: crlf_to_lf.induct) auto

lemma graphic_brackets: "is_graphic_byte (CHR ''['')" "is_graphic_byte (CHR '']'')"
  by code_simp+

lemma ini_header_line:
  assumes "clean_name name"
  shows "ini_line (CHR ''['' # name @ '']'') st = Some (ensure_section name (st\<lparr>is_current := name\<rparr>))"
proof -
  have "trim_space (CHR ''['' # name @ '']'') = CHR ''['' # name @ '']''"
    by (rule trim_space_ends) (simp_all add: graphic_brackets)
  moreover have "trim_space name = name" using assms by (auto simp: clean_name_def intro: trim_space_ends)
  moreover have "suffix '']'' (CHR ''['' # name @ '']'')" by (simp add: suffix_def)
  ultimately show ?thesis by (simp add: ini_line_def)
qed

lemma split_pair_line:
  assumes "clean_key k"
  shows "split_ini_line (pair_line (k, v)) = Some (k, v)"
proof -
  have "takeWhile (\<lambda>c. c \<noteq> CHR ''='' \<and> c \<noteq> CHR '':'') (pair_line (k, v)) = k"
    "dropWhile (\<lambda>c. c \<noteq> CHR ''='' \<and> c \<noteq> CHR '':'') (pair_line (k, v)) = CHR ''='' # CHR 0x22 # v @ [CHR 0x22]"
    using assms by (auto simp: clean_key_def pair_line_def takeWhile_tail dropWhile_append3 takeWhile_append2 dropWhile_append2)
  moreover have "trim_space k = k" "k \<noteq> []"
    using assms by (auto simp: clean_key_def clean_name_def intro: trim_space_ends)
  moreover have "trim_space (CHR 0x22 # v @ [CHR 0x22]) = CHR 0x22 # v @ [CHR 0x22]"
    by (rule trim_space_ends) (simp_all add: graphic_ends)
  ultimately show ?thesis by (simp add: split_ini_line_def unquote_ini_value_def)
qed

lemma ini_pair_line:
  assumes "clean_key k" "is_sections st (is_current st) = Some entries"
  shows "ini_line (pair_line (k, v)) st
    = Some (st\<lparr>is_sections := (is_sections st)(is_current st \<mapsto> put_key k v entries)\<rparr>)"
proof -
  have k: "k \<noteq> []" "is_graphic_byte (hd k)" "hd k \<noteq> CHR '';''" "hd k \<noteq> CHR ''#''" "hd k \<noteq> CHR ''[''"
    using assms by (auto simp: clean_key_def clean_name_def)
  have "trim_space (pair_line (k, v)) = pair_line (k, v)"
    using k by (intro trim_space_ends) (simp_all add: pair_line_def graphic_ends)
  moreover have "\<not> prefix '';'' (pair_line (k, v))" "\<not> prefix ''#'' (pair_line (k, v))" "\<not> prefix ''['' (pair_line (k, v))"
    "pair_line (k, v) \<noteq> []"
    using k by (cases k; auto simp: pair_line_def)+
  ultimately show ?thesis
    using assms by (simp add: ini_line_def split_pair_line ensure_section_def)
qed

lemma put_key_new: "k \<notin> fst ` set ps \<Longrightarrow> put_key k v ps = ps @ [(k, v)]"
  by (induction ps) auto

lemma ini_lines_append:
  "ini_lines n (xs @ ys) st = (case ini_lines n xs st of Inl e \<Rightarrow> Inl e | Inr st' \<Rightarrow> ini_lines (n + length xs) ys st')"
  by (induction xs arbitrary: n st) (auto split: option.split sum.split)

lemma ini_pair_lines:
  assumes "\<forall>(k, v)\<in>set pairs. clean_key k" "distinct (map fst (entries @ pairs))"
    "is_sections st (is_current st) = Some entries"
  shows "ini_lines n (map pair_line pairs) st
    = Inr (st\<lparr>is_sections := (is_sections st)(is_current st \<mapsto> entries @ pairs)\<rparr>)"
  using assms
proof (induction pairs arbitrary: n st entries)
  case Nil
  then have "(is_sections st)(is_current st \<mapsto> entries) = is_sections st" by (simp add: fun_upd_idem)
  then show ?case by simp
next
  case (Cons p pairs)
  obtain k v where p: "p = (k, v)" by (cases p)
  define st' where "st' = st\<lparr>is_sections := (is_sections st)(is_current st \<mapsto> entries @ [p])\<rparr>"
  have "ini_line (pair_line p) st = Some st'"
    using Cons.prems ini_pair_line [of k st entries v] by (auto simp: p st'_def put_key_new)
  moreover have "ini_lines (Suc n) (map pair_line pairs) st'
      = Inr (st'\<lparr>is_sections := (is_sections st')(is_current st' \<mapsto> (entries @ [p]) @ pairs)\<rparr>)"
    using Cons.prems by (intro Cons.IH) (auto simp: st'_def)
  ultimately show ?case by (simp add: st'_def) (simp add: fun_upd_def)
qed

lemma ini_section:
  assumes "clean_name name" "distinct (map fst pairs)" "\<forall>(k, v)\<in>set pairs. clean_key k" "is_sections st name = None"
  shows "\<exists>st'. ini_lines n (section_lines (name, pairs)) st = Inr st'
    \<and> is_order st' = is_order st @ [name] \<and> is_sections st' = (is_sections st)(name \<mapsto> pairs)"
proof -
  define st1 where "st1 = ensure_section name (st\<lparr>is_current := name\<rparr>)"
  have st1: "is_sections st1 = (is_sections st)(name \<mapsto> [])" "is_current st1 = name" "is_order st1 = is_order st @ [name]"
    using assms(4) by (simp_all add: st1_def ensure_section_def)
  have "ini_lines (Suc n) (map pair_line pairs) st1 = Inr (st1\<lparr>is_sections := (is_sections st1)(is_current st1 \<mapsto> [] @ pairs)\<rparr>)"
    using assms by (intro ini_pair_lines) (auto simp: st1)
  with ini_header_line [OF assms(1)] show ?thesis by (simp add: section_lines_def st1 flip: st1_def)
qed

lemma ini_sections:
  assumes "clean_doc doc" "\<forall>name\<in>fst ` set doc. is_sections st name = None"
  shows "\<exists>st'. ini_lines n (concat (map section_lines doc)) st = Inr st'
    \<and> is_order st' = is_order st @ map fst doc
    \<and> is_sections st' = (\<lambda>name. case map_of doc name of None \<Rightarrow> is_sections st name | Some ps \<Rightarrow> Some ps)"
  using assms
proof (induction doc arbitrary: n st)
  case (Cons sec doc)
  obtain name pairs where sec: "sec = (name, pairs)" by (cases sec)
  from Cons.prems have clean: "clean_name name" "distinct (map fst pairs)" "\<forall>(k, v)\<in>set pairs. clean_key k"
    "is_sections st name = None" "clean_doc doc" "name \<notin> fst ` set doc"
    by (auto simp: clean_doc_def sec)
  from ini_section [OF clean(1-4), of n] obtain st1 where st1: "ini_lines n (section_lines sec) st = Inr st1"
    "is_order st1 = is_order st @ [name]" "is_sections st1 = (is_sections st)(name \<mapsto> pairs)"
    by (auto simp: sec)
  have "\<forall>name\<in>fst ` set doc. is_sections st1 name = None" using Cons.prems(2) clean(6) st1(3) by auto
  from Cons.IH [OF clean(5) this, of "n + length (section_lines sec)"] obtain st' where
    "ini_lines (n + length (section_lines sec)) (concat (map section_lines doc)) st1 = Inr st'"
    "is_order st' = is_order st1 @ map fst doc"
    "is_sections st' = (\<lambda>name. case map_of doc name of None \<Rightarrow> is_sections st1 name | Some ps \<Rightarrow> Some ps)" by blast
  moreover have "map_of doc name = None" using clean(6) by (simp add: map_of_eq_None_iff)
  ultimately show ?case
    using st1 by (auto simp: ini_lines_append sec split: option.splits)
qed simp

lemma section_lines_one_line:
  assumes "clean_doc doc" "l \<in> set (concat (map section_lines doc))"
  shows "one_line l"
  using assms by (fastforce simp: clean_doc_def section_lines_def pair_line_def clean_key_def clean_name_def one_line_def)

lemma set_join_with: "set (join_with sep ss) \<subseteq> set sep \<union> (\<Union>s\<in>set ss. set s)"
  by (induction sep ss rule: join_with.induct) auto

text \<open>
  Claim C0: an INI file with distinct sections and keys is read back exactly: the sections in file order,
  each with its pairs in order, and quoted values with whatever blanks, equals signs, comment
  signs or brackets they contain.
\<close>

theorem ini_round_trip:
  assumes "clean_doc doc" "doc \<noteq> []"
  shows "\<exists>st. parse_ini (ini_text doc) = Inr st \<and> is_order st = map fst doc \<and> is_sections st = map_of doc"
proof -
  define ls where "ls = concat (map section_lines doc)"
  have one: "one_line l" if "l \<in> set ls" for l using section_lines_one_line [OF assms(1)] that by (simp add: ls_def)
  have "ls \<noteq> []" using assms(2) by (cases doc) (auto simp: ls_def section_lines_def split: prod.split)
  moreover have "CHR 0x0D \<notin> set (ini_text doc)"
    using set_join_with [of "[CHR 0x0A]" ls] one by (auto simp: ini_text_def one_line_def simp flip: ls_def)
  ultimately have lines: "split_on (CHR 0x0A) (crlf_to_lf (ini_text doc)) = ls"
    using one split_on_join [of ls "CHR 0x0A"]
    by (auto simp: crlf_to_lf_plain ini_text_def list_all_iff one_line_def simp flip: ls_def)
  have "\<forall>name\<in>fst ` set doc. is_sections ini_start name = None" by (simp add: ini_start_def)
  from ini_sections [OF assms(1) this, of 1, folded ls_def] obtain st where st: "ini_lines 1 ls ini_start = Inr st"
    "is_order st = is_order ini_start @ map fst doc"
    "is_sections st = (\<lambda>name. case map_of doc name of None \<Rightarrow> is_sections ini_start name | Some ps \<Rightarrow> Some ps)" by blast
  have map: "is_sections st = map_of doc" by (rule ext) (simp add: st(3) ini_start_def split: option.split)
  have "[] \<notin> fst ` set doc" using assms(1) by (auto simp: clean_doc_def clean_name_def)
  then have "is_sections st [] = None" by (simp add: map map_of_eq_None_iff)
  moreover have "is_order st = map fst doc" using st(2) by (simp add: ini_start_def)
  ultimately show ?thesis using st(1) map by (simp add: parse_ini_def lines drop_empty_default_def)
qed

theorem ini_round_trip_witness:
  "\<exists>st. parse_ini (ini_text [(''net'', [(''host'', ''a=b ; c'')])]) = Inr st
    \<and> is_order st = [''net''] \<and> is_sections st ''net'' = Some [(''host'', ''a=b ; c'')]"
proof -
  have "clean_name ''net''" "clean_key ''host''" "one_line ''a=b ; c''" by code_simp+
  then have "clean_doc [(''net'', [(''host'', ''a=b ; c'')])]" by (simp add: clean_doc_def)
  from ini_round_trip [OF this] show ?thesis by auto
qed

text \<open>A line is refused whatever stood before it, so the error names the first such line.\<close>

definition bad_ini_line :: "string \<Rightarrow> bool" where
  "bad_ini_line raw \<longleftrightarrow> ini_line raw ini_start = None"

lemma ini_line_None: "ini_line raw st = None \<longleftrightarrow> bad_ini_line raw"
  by (auto simp: bad_ini_line_def ini_line_def Let_def split: option.splits prod.splits)

text \<open>
  Claim C0: \<open>parseINI\<close> fails exactly when some line is no blank line, comment, header or pair, and then reports
  the number of the first such line.
\<close>

theorem ini_error_is_first_bad_line:
  "(case parse_ini content of
      Inl n \<Rightarrow> 1 \<le> n \<and> n \<le> length ls \<and> bad_ini_line (ls ! (n - 1)) \<and> list_all (\<lambda>l. \<not> bad_ini_line l) (take (n - 1) ls)
    | Inr st \<Rightarrow> list_all (\<lambda>l. \<not> bad_ini_line l) ls)"
  if "ls = split_on (CHR 0x0A) (crlf_to_lf content)"
proof -
  have "case ini_lines n ls st of
      Inl m \<Rightarrow> n \<le> m \<and> m < n + length ls \<and> bad_ini_line (ls ! (m - n)) \<and> list_all (\<lambda>l. \<not> bad_ini_line l) (take (m - n) ls)
    | Inr st' \<Rightarrow> list_all (\<lambda>l. \<not> bad_ini_line l) ls" for n st ls
  proof (induction n ls st rule: ini_lines.induct)
    case (2 n raw raws st)
    show ?case
    proof (cases "ini_line raw st")
      case None
      then have "bad_ini_line raw" by (simp only: ini_line_None)
      with None show ?thesis by simp
    next
      case (Some st')
      then have "\<not> bad_ini_line raw" by (metis ini_line_None option.distinct(1))
      with Some "2.IH" [OF Some] show ?thesis
        by (cases "ini_lines (Suc n) raws st'") (auto simp: nth_Cons' take_Cons' Suc_le_eq)
    qed
  qed simp
  from this [of 1 ls ini_start] show ?thesis
    by (auto simp: parse_ini_def that split: sum.splits)
qed

theorem ini_error_is_first_bad_line_witness:
  "case parse_ini ''x'' of
      Inl n \<Rightarrow> 1 \<le> n \<and> n \<le> length [''x''] \<and> bad_ini_line ([''x''] ! (n - 1))
        \<and> list_all (\<lambda>l. \<not> bad_ini_line l) (take (n - 1) [''x''])
    | Inr st \<Rightarrow> list_all (\<lambda>l. \<not> bad_ini_line l) [''x'']"
  by (rule ini_error_is_first_bad_line) simp

end
