(* ===== verification/ExcelSheets.thy ===== *)
theory ExcelSheets
  imports FileFormats
begin

text \<open>
  Spreadsheet export and import: the guarded cells of \<^verbatim>\<open>excel_csv.go\<close> and the worksheet writer and reader
  of \<^verbatim>\<open>xlsx.go\<close>.  The reader starts from the decoded worksheets (the archive and the XML decoder are not
  under \<^verbatim>\<open>src\<close>); its result is the rows handed to the CSV writer.
\<close>

section \<open>Excel CSV\<close>

definition excel_formula_start_re :: "string \<Rightarrow> bool" where
  "excel_formula_start_re s \<longleftrightarrow> s \<noteq> [] \<and> hd s \<in> set ''=+-@''"

definition excel_leading_zero_re :: "string \<Rightarrow> bool" where
  "excel_leading_zero_re s \<longleftrightarrow>
     prefix ''0'' (drop_sign s) \<and> tl (drop_sign s) \<noteq> [] \<and> list_all is_digit_byte (tl (drop_sign s))"

definition excel_long_digits_re :: "string \<Rightarrow> bool" where
  "excel_long_digits_re s \<longleftrightarrow> 15 \<le> length s \<and> list_all is_digit_byte s"

text \<open>One or two digits, a separator, one or two digits, and optionally a separator and two to four.\<close>

definition is_date_separator :: "char \<Rightarrow> bool" where
  "is_date_separator c \<longleftrightarrow> c = CHR ''.'' \<or> c = CHR ''/'' \<or> c = CHR ''-''"

definition excel_local_date_like :: "string \<Rightarrow> bool" where
  "excel_local_date_like s \<longleftrightarrow>
     (let a = takeWhile is_digit_byte s; r = dropWhile is_digit_byte s;
          b = takeWhile is_digit_byte (tl r); q = dropWhile is_digit_byte (tl r)
      in 1 \<le> length a \<and> length a \<le> 2 \<and> r \<noteq> [] \<and> is_date_separator (hd r) \<and> 1 \<le> length b \<and> length b \<le> 2
         \<and> (q = [] \<or> is_date_separator (hd q) \<and> 2 \<le> length (tl q) \<and> length (tl q) \<le> 4
              \<and> list_all is_digit_byte (tl q)))"

definition excel_text_needs_guard :: "rounding \<Rightarrow> string \<Rightarrow> bool" where
  "excel_text_needs_guard rnd s \<longleftrightarrow>
     s \<noteq> [] \<and>
     (excel_formula_start_re s \<or> excel_leading_zero_re s \<or> excel_long_digits_re s \<or> excel_local_date_like s
      \<or> kind_of rnd s \<in> set [KindInt, KindFloat, KindDate, KindTime, KindDateTime])"

text \<open>\<^verbatim>\<open>Time.Format\<close> with the three layouts used.\<close>

definition padded :: "nat \<Rightarrow> nat \<Rightarrow> string" where
  "padded width n = (let ds = nat_digits n in replicate (width - length ds) (CHR ''0'') @ ds)"

definition date_text :: "time_value \<Rightarrow> string" where
  "date_text t = padded 4 (nat (tm_year t)) @ ''-'' @ padded 2 (tm_month t) @ ''-'' @ padded 2 (tm_day t)"

definition clock_text :: "time_value \<Rightarrow> string" where
  "clock_text t = padded 2 (tm_hour t) @ '':'' @ padded 2 (tm_minute t) @ '':'' @ padded 2 (tm_second t)"

definition guarded_text :: "string \<Rightarrow> string" where
  "guarded_text s = [CHR ''='', CHR 0x22] @ replace_byte (CHR 0x22) [CHR 0x22, CHR 0x22] s @ [CHR 0x22]"

definition excel_csv_cell :: "rounding \<Rightarrow> string \<Rightarrow> kind \<Rightarrow> string" where
  "excel_csv_cell rnd s k =
     (let v = classify_value rnd s; t = trim_space s in
      if tv_kind v = KindBlank then []
      else if k = KindInt \<and> tv_kind v = KindInt then t
      else if k = KindFloat \<and> (tv_kind v = KindInt \<or> tv_kind v = KindFloat) then t
      else if k = KindBool \<and> tv_kind v = KindBool then to_upper t
      else if k = KindDate \<and> tv_kind v = KindDate then date_text (tv_time v)
      else if k = KindTime \<and> tv_kind v = KindTime then clock_text (tv_time v)
      else if k = KindDateTime \<and> tv_kind v = KindDateTime
      then date_text (tv_time v) @ '' '' @ clock_text (tv_time v)
      else if excel_text_needs_guard rnd t then guarded_text s
      else s)"

text \<open>The records \<^verbatim>\<open>writeExcelCSV\<close> hands to the CSV writer; the header row is written as it is.\<close>

definition excel_csv_records :: "rounding \<Rightarrow> string list \<Rightarrow> string list list \<Rightarrow> kind list \<Rightarrow> string list list" where
  "excel_csv_records rnd columns rows kinds =
     columns # map (\<lambda>row. map (\<lambda>i. excel_csv_cell rnd (if i < length row then row ! i else [])
                                     (if i < length kinds then kinds ! i else KindText)) [0..<length columns]) rows"

section \<open>Writing a worksheet\<close>

text \<open>The column letters, in bijective base 26.\<close>

function cell_letters :: "nat \<Rightarrow> string" where
  "cell_letters col =
     (if col = 0 then [] else cell_letters ((col - 1) div 26) @ [char_of (65 + (col - 1) mod 26)])"
  by auto
termination
  by (relation "measure id") (auto intro: le_less_trans [OF div_le_dividend])

declare cell_letters.simps [simp del]

definition xlsx_cell_ref :: "nat \<Rightarrow> nat \<Rightarrow> string" where
  "xlsx_cell_ref col row = cell_letters col @ nat_digits row"

text \<open>\<^verbatim>\<open>xml.EscapeText\<close>, rune by rune; a rune XML does not allow becomes the replacement character.\<close>

definition xml_rune :: "nat \<Rightarrow> bool" where
  "xml_rune r \<longleftrightarrow> r = 0x09 \<or> r = 0x0A \<or> r = 0x0D \<or> 0x20 \<le> r \<and> r \<le> 0xD7FF
     \<or> 0xE000 \<le> r \<and> r \<le> 0xFFFD \<or> 0x10000 \<le> r \<and> r \<le> 0x10FFFF"

definition escape_rune :: "nat \<Rightarrow> string" where
  "escape_rune r =
     (if r = 0x22 then ''&#34;'' else if r = 0x27 then ''&#39;'' else if r = 0x26 then ''&amp;''
      else if r = 0x3C then ''&lt;'' else if r = 0x3E then ''&gt;''
      else if r = 0x09 then ''&#x9;'' else if r = 0x0A then ''&#xA;'' else if r = 0x0D then ''&#xD;''
      else if xml_rune r then encode_rune r else encode_rune replacement_rune)"

definition escape_text :: "string \<Rightarrow> string" where
  "escape_text s = concat (map escape_rune (decode_runes s))"

text \<open>\<open>dq\<close> writes a quote sign.\<close>

definition dq :: string where "dq = [CHR 0x22]"

definition xlsx_text_cell :: "string \<Rightarrow> string \<Rightarrow> string" where
  "xlsx_text_cell ref value =
     ''<c r='' @ dq @ ref @ dq @ '' t='' @ dq @ ''inlineStr'' @ dq @ ''><is><t>'' @ escape_text value @ ''</t></is></c>''"

definition xlsx_numeric_cell :: "string \<Rightarrow> string \<Rightarrow> string \<Rightarrow> string" where
  "xlsx_numeric_cell ref value style =
     ''<c r='' @ dq @ ref @ (if style \<noteq> [] then dq @ '' s='' @ dq @ style else []) @ dq @ ''><v>'' @ value @ ''</v></c>''"

text \<open>\<open>general\<close> and \<open>fixed\<close> print a float with the verbs \<^verbatim>\<open>g\<close> and \<^verbatim>\<open>f\<close> of \<^verbatim>\<open>strconv.FormatFloat\<close>.\<close>

definition xlsx_typed_cell ::
  "rounding \<Rightarrow> (float_value \<Rightarrow> string) \<Rightarrow> (float_value \<Rightarrow> string) \<Rightarrow> nat \<Rightarrow> nat \<Rightarrow> string \<Rightarrow> kind \<Rightarrow> string" where
  "xlsx_typed_cell rnd general fixed col row value k =
     (let ref = xlsx_cell_ref col row; v = classify_value rnd value in
      if trim_space value = [] then ''<c r='' @ dq @ ref @ dq @ ''/>''
      else if k = KindText then xlsx_text_cell ref value
      else if k = KindInt \<and> tv_kind v = KindInt then xlsx_numeric_cell ref (int_text (tv_int v)) []
      else if k = KindFloat \<and> (tv_kind v = KindFloat \<or> tv_kind v = KindInt)
      then xlsx_numeric_cell ref (general (tv_float v)) []
      else if k = KindBool \<and> tv_kind v = KindBool
      then ''<c r='' @ dq @ ref @ dq @ '' t='' @ dq @ ''b'' @ dq @ ''><v>'' @ (if tv_bool v then ''1'' else ''0'') @ ''</v></c>''
      else if (k = KindDate \<or> k = KindDateTime \<or> k = KindTime) \<and> tv_kind v = k
      then (case excel_serial rnd v k of
              Some serial \<Rightarrow>
                xlsx_numeric_cell ref (fixed serial)
                  (if k = KindDateTime then ''2'' else if k = KindTime then ''3'' else ''1'')
            | None \<Rightarrow> xlsx_text_cell ref value)
      else xlsx_text_cell ref value)"

definition row_element :: "nat \<Rightarrow> string list \<Rightarrow> string" where
  "row_element row cells = ''<row r='' @ dq @ nat_digits row @ dq @ ''>'' @ concat cells @ ''</row>''"

definition xlsx_row_xml :: "nat \<Rightarrow> string list \<Rightarrow> string" where
  "xlsx_row_xml row values =
     row_element row (map (\<lambda>i. xlsx_text_cell (xlsx_cell_ref (i + 1) row) (values ! i)) [0..<length values])"

definition xlsx_typed_row ::
  "rounding \<Rightarrow> (float_value \<Rightarrow> string) \<Rightarrow> (float_value \<Rightarrow> string) \<Rightarrow> nat \<Rightarrow> string list \<Rightarrow> kind list \<Rightarrow> nat \<Rightarrow> string" where
  "xlsx_typed_row rnd general fixed row values kinds n =
     row_element row (map (\<lambda>i. xlsx_typed_cell rnd general fixed (i + 1) row
        (if i < length values then values ! i else []) (if i < length kinds then kinds ! i else KindText)) [0..<n])"

definition xlsx_sheet_xml ::
  "rounding \<Rightarrow> (float_value \<Rightarrow> string) \<Rightarrow> (float_value \<Rightarrow> string) \<Rightarrow> string list \<Rightarrow> string list list \<Rightarrow> kind list \<Rightarrow> string" where
  "xlsx_sheet_xml rnd general fixed columns rows kinds =
     ''<?xml version='' @ dq @ ''1.0'' @ dq @ '' encoding='' @ dq @ ''UTF-8'' @ dq @ '' standalone='' @ dq @ ''yes'' @ dq @ ''?>''
     @ ''<worksheet xmlns='' @ dq @ ''http://schemas.openxmlformats.org/spreadsheetml/2006/main'' @ dq @ ''><sheetData>''
     @ xlsx_row_xml 1 columns
     @ concat (map (\<lambda>i. xlsx_typed_row rnd general fixed (i + 2) (rows ! i) kinds (length columns)) [0..<length rows])
     @ ''</sheetData></worksheet>''"

section \<open>Reading worksheets\<close>

definition max_xlsx_columns :: nat where "max_xlsx_columns = 16384"
definition max_xlsx_entry_bytes :: nat where "max_xlsx_entry_bytes = 134217728"
definition max_xlsx_total_bytes :: nat where "max_xlsx_total_bytes = 268435456"

text \<open>The letters of a reference; \<open>None\<close> when they go beyond the last column of the format.\<close>

fun column_letters :: "nat \<Rightarrow> string \<Rightarrow> nat option" where
  "column_letters idx [] = Some idx"
| "column_letters idx (c # s) =
     (if is_upper_byte c \<or> is_lower_byte c
      then let idx' = idx * 26 + (if is_upper_byte c then of_char c - 64 else of_char c - 96)
           in if idx' > max_xlsx_columns then None else column_letters idx' s
      else Some idx)"

text \<open>\<open>None\<close> is the result -1.\<close>

definition xlsx_column_index :: "string \<Rightarrow> nat option" where
  "xlsx_column_index ref = map_option (\<lambda>idx. idx - 1) (column_letters 0 ref)"

record xlsx_cell =
  xc_ref :: string
  xc_type :: string
  xc_value :: string
  xc_inline :: string

definition xlsx_cell_value :: "xlsx_cell \<Rightarrow> string list \<Rightarrow> string" where
  "xlsx_cell_value cell shared =
     (if xc_type cell = ''s''
      then (case atoi (trim_space (xc_value cell)) of
              Some i \<Rightarrow> if 0 \<le> i \<and> nat i < length shared then shared ! nat i else []
            | None \<Rightarrow> [])
      else if xc_type cell = ''inlineStr'' then xc_inline cell
      else xc_value cell)"

text \<open>A cell is put at its column, or at the end when that column has been passed.\<close>

fun read_cells :: "string list \<Rightarrow> string list \<Rightarrow> xlsx_cell list \<Rightarrow> string list" where
  "read_cells shared out [] = out"
| "read_cells shared out (cell # cells) =
     (case xlsx_column_index (xc_ref cell) of
        None \<Rightarrow> read_cells shared out cells
      | Some col \<Rightarrow>
          read_cells shared (out @ replicate (col - length out) [] @ [xlsx_cell_value cell shared]) cells)"

text \<open>A worksheet of the archive: its name, declared size and decoded rows, or the decoder's error.\<close>

record sheet_entry =
  se_name :: string
  se_size :: nat
  se_rows :: "string + xlsx_cell list list"

definition read_sheet_rows :: "sheet_entry \<Rightarrow> string list \<Rightarrow> string + string list list" where
  "read_sheet_rows sheet shared =
     (if se_size sheet > max_xlsx_entry_bytes then Inl ''worksheet exceeds the decompressed-size limit''
      else case se_rows sheet of Inl e \<Rightarrow> Inl e | Inr rows \<Rightarrow> Inr (map (read_cells shared []) rows))"

definition trim_prefix :: "string \<Rightarrow> string \<Rightarrow> string" where
  "trim_prefix p s = (if prefix p s then drop (length p) s else s)"

definition trim_suffix :: "string \<Rightarrow> string \<Rightarrow> string" where
  "trim_suffix p s = (if suffix p s then take (length s - length p) s else s)"

definition xlsx_sheet_number :: "string \<Rightarrow> int" where
  "xlsx_sheet_number name =
     (case atoi (trim_suffix ''.xml'' (trim_prefix ''xl/worksheets/sheet'' name)) of Some n \<Rightarrow> n | None \<Rightarrow> 0)"

definition is_sheet_name :: "string \<Rightarrow> bool" where
  "is_sheet_name name \<longleftrightarrow> prefix ''xl/worksheets/sheet'' name \<and> suffix ''.xml'' name"

definition pad_rows :: "string list list \<Rightarrow> string list list" where
  "pad_rows rows = map (\<lambda>row. row @ replicate (max_length rows - length row) []) rows"

text \<open>The loop over several sheets: total size, header (empty at first), greatest width, rows.\<close>

fun merge_sheets ::
  "string list \<Rightarrow> sheet_entry list \<Rightarrow> nat \<Rightarrow> string list \<Rightarrow> nat \<Rightarrow> string list list
     \<Rightarrow> string + (string list \<times> nat \<times> string list list)" where
  "merge_sheets shared [] bytes header width acc = Inr (header, width, acc)"
| "merge_sheets shared (sheet # sheets) bytes header width acc =
     (let bytes' = bytes + se_size sheet in
      if bytes' > max_xlsx_total_bytes then Inl ''worksheets exceed the combined decompressed-size limit''
      else case read_sheet_rows sheet shared of
        Inl e \<Rightarrow> Inl e
      | Inr [] \<Rightarrow> merge_sheets shared sheets bytes' header width acc
      | Inr (row # rows) \<Rightarrow>
          let fresh = (header = []);
              header' = (if fresh then ''sheet'' # row else header);
              width' = (if fresh then length header' else width);
              label = trim_suffix ''.xml'' (trim_prefix ''xl/worksheets/'' (se_name sheet));
              records = map (\<lambda>r. label # r) rows
          in merge_sheets shared sheets bytes' header'
               (foldl (\<lambda>w r. if length r > w then length r else w) width' records) (acc @ records))"

definition xlsx_rows :: "string list \<Rightarrow> sheet_entry list \<Rightarrow> string + string list list" where
  "xlsx_rows shared entries =
     (let sheets = sort_key (\<lambda>s. xlsx_sheet_number (se_name s)) (filter (\<lambda>s. is_sheet_name (se_name s)) entries) in
      case sheets of
        [] \<Rightarrow> Inl ''no xl/worksheets/sheet*.xml files found''
      | [sheet] \<Rightarrow> (case read_sheet_rows sheet shared of Inl e \<Rightarrow> Inl e | Inr rows \<Rightarrow> Inr (pad_rows rows))
      | _ \<Rightarrow>
          (case merge_sheets shared sheets 0 [] 0 [] of
             Inl e \<Rightarrow> Inl e
           | Inr (header, width, rows) \<Rightarrow>
               if header = [] then Inl ''xlsx contains no worksheet rows''
               else Inr (pad_rows ((header @ map (\<lambda>i. ''col_'' @ nat_digits i) [length header..<width]) # rows))))"

end
