(* ===== verification/Spec2Isabelle.thy ===== *)
theory Spec2Isabelle
  imports MapTilesCorrect AccountsCorrect RoutingCorrect PipelinePool MatchRules RowPoliciesCorrect FileFormatsCorrect ExcelSheets
begin

text \<open>
  DataDock: a verification library of the program's core.
\<close>

end
